theory Spec2Isabelle
  imports Complex_Main "HOL-Library.Word" "HOL-Library.Code_Target_Numeral"
begin

section \<open>JavaScript values shared by the components\<close>

text \<open>
  Array.prototype.slice(start, end): a negative bound counts from the end of the array,
  both bounds are clamped to the array, and an empty range gives the empty array.
\<close>

definition js_slice :: "'a list \<Rightarrow> int \<Rightarrow> int \<Rightarrow> 'a list" where
  "js_slice xs start fin =
     (let len = int (length xs);
          k = (if start < 0 then max (len + start) 0 else min start len);
          final = (if fin < 0 then max (len + fin) 0 else min fin len)
      in take (nat (final - k)) (drop (nat k) xs))"

section \<open>JavaScript numbers\<close>

text \<open>
  A JavaScript number is a binary64 floating-point value: a finite value, one of the two
  infinities, or \<^verbatim>\<open>NaN\<close>. A finite number is modelled by the real number it denotes, and
  \<^verbatim>\<open>undefined\<close> in arithmetic is \<^verbatim>\<open>NaN\<close>. Zero has no sign in the model (a division by
  zero is the only operation of the source that tells \<open>-0\<close> from \<open>+0\<close>, and every divisor of
  the source that can be zero is \<open>+0\<close>).
\<close>

datatype jsnum = Fin real | PInf | NInf | NaN

text \<open>
  The power \<open>2\<^sup>e\<close> for an integer \<open>e\<close>, and the binary exponent of a magnitude \<open>a\<close>: the
  \<open>e\<close> with \<open>2\<^sup>e \<le> a < 2\<^sup>e\<^sup>+\<^sup>1\<close>, kept between \<open>-1022\<close> (where the subnormal numbers start)
  and \<open>1023\<close>. It is found by counting up from 0 for \<open>a \<ge> 1\<close> and down from 0 otherwise.
\<close>

definition pow2 :: "int \<Rightarrow> real" where
  "pow2 e = (if 0 \<le> e then 2 ^ nat e else 1 / 2 ^ nat (- e))"

function exponent_up :: "int \<Rightarrow> real \<Rightarrow> int" where
  "exponent_up e a = (if a < pow2 (e + 1) \<or> 1023 \<le> e then e else exponent_up (e + 1) a)"
  by pat_completeness auto
termination
  by (relation "measure (\<lambda>(e, a). nat (1023 - e))") auto

function exponent_down :: "int \<Rightarrow> real \<Rightarrow> int" where
  "exponent_down e a = (if pow2 e \<le> a \<or> e \<le> - 1022 then e else exponent_down (e - 1) a)"
  by pat_completeness auto
termination
  by (relation "measure (\<lambda>(e, a). nat (e + 1022))") auto

declare exponent_up.simps [simp del] exponent_down.simps [simp del]

definition exponent_of :: "real \<Rightarrow> int" where
  "exponent_of a = (if 1 \<le> a then exponent_up 0 a else exponent_down 0 a)"

text \<open>
  The Number value for a real number \<open>x\<close>: with \<open>e\<close> the binary exponent of \<open>\<bar>x\<bar>\<close>, the
  magnitude is rounded to the nearest multiple of \<open>2\<^sup>e\<^sup>-\<^sup>5\<^sup>2\<close> (the distance between two
  neighbouring numbers of that exponent), a tie goes to the even multiple, and a result
  of \<open>2\<^sup>1\<^sup>0\<^sup>2\<^sup>4\<close> or more is an infinity. A numeric literal of the source denotes the number
  for its decimal value.
\<close>

definition round_half_even :: "real \<Rightarrow> int" where
  "round_half_even x =
     (if x < real_of_int \<lfloor>x\<rfloor> + 1 / 2 then \<lfloor>x\<rfloor>
      else if real_of_int \<lfloor>x\<rfloor> + 1 / 2 < x then \<lfloor>x\<rfloor> + 1
      else if even \<lfloor>x\<rfloor> then \<lfloor>x\<rfloor> else \<lfloor>x\<rfloor> + 1)"

definition round_to_multiple :: "real \<Rightarrow> real \<Rightarrow> real" where
  "round_to_multiple a ulp = real_of_int (round_half_even (a / ulp)) * ulp"

definition signed_or_infinite :: "real \<Rightarrow> real \<Rightarrow> jsnum" where
  "signed_or_infinite x r =
     (if pow2 1024 \<le> r then (if x < 0 then NInf else PInf) else Fin (if x < 0 then - r else r))"

definition number_for :: "real \<Rightarrow> jsnum" where
  "number_for x =
     signed_or_infinite x (round_to_multiple \<bar>x\<bar> (pow2 (exponent_of \<bar>x\<bar> - 52)))"

text \<open>
  The arithmetic operators: the number for the exact result on finite operands, and the
  IEEE 754 rules for the infinities and \<^verbatim>\<open>NaN\<close>.
\<close>

instantiation jsnum :: "{plus, minus, uminus, times}"
begin

fun plus_jsnum :: "jsnum \<Rightarrow> jsnum \<Rightarrow> jsnum" where
  "Fin a + Fin b = number_for (a + b)"
| "NaN + _ = NaN"
| "_ + NaN = NaN"
| "PInf + NInf = NaN"
| "NInf + PInf = NaN"
| "PInf + _ = PInf"
| "_ + PInf = PInf"
| "NInf + _ = NInf"
| "_ + NInf = NInf"

fun uminus_jsnum :: "jsnum \<Rightarrow> jsnum" where
  "- Fin a = Fin (- a)"
| "- PInf = NInf"
| "- NInf = PInf"
| "- NaN = NaN"

fun minus_jsnum :: "jsnum \<Rightarrow> jsnum \<Rightarrow> jsnum" where
  "(a::jsnum) - b = a + (- b)"

fun times_jsnum :: "jsnum \<Rightarrow> jsnum \<Rightarrow> jsnum" where
  "Fin a * Fin b = number_for (a * b)"
| "NaN * _ = NaN"
| "_ * NaN = NaN"
| "PInf * Fin b = (if b = 0 then NaN else if 0 < b then PInf else NInf)"
| "NInf * Fin b = (if b = 0 then NaN else if 0 < b then NInf else PInf)"
| "Fin a * PInf = (if a = 0 then NaN else if 0 < a then PInf else NInf)"
| "Fin a * NInf = (if a = 0 then NaN else if 0 < a then NInf else PInf)"
| "PInf * PInf = PInf"
| "NInf * NInf = PInf"
| "PInf * NInf = NInf"
| "NInf * PInf = NInf"

instance ..

end

fun js_div :: "jsnum \<Rightarrow> jsnum \<Rightarrow> jsnum" where
  "js_div (Fin a) (Fin b) =
     (if b \<noteq> 0 then number_for (a / b) else if a = 0 then NaN else if 0 < a then PInf else NInf)"
| "js_div NaN _ = NaN"
| "js_div _ NaN = NaN"
| "js_div (Fin a) _ = Fin 0"
| "js_div PInf (Fin b) = (if 0 \<le> b then PInf else NInf)"
| "js_div NInf (Fin b) = (if 0 \<le> b then NInf else PInf)"
| "js_div _ _ = NaN"

text \<open>The comparison \<^verbatim>\<open>a > b\<close>: false as soon as one side is \<^verbatim>\<open>NaN\<close>.\<close>

fun js_gt :: "jsnum \<Rightarrow> jsnum \<Rightarrow> bool" where
  "js_gt (Fin a) (Fin b) = (b < a)"
| "js_gt NaN _ = False"
| "js_gt _ NaN = False"
| "js_gt PInf PInf = False"
| "js_gt PInf _ = True"
| "js_gt NInf _ = False"
| "js_gt _ NInf = True"
| "js_gt _ PInf = False"

fun Math_min :: "jsnum \<Rightarrow> jsnum \<Rightarrow> jsnum" where
  "Math_min (Fin a) (Fin b) = Fin (min a b)"
| "Math_min NaN _ = NaN"
| "Math_min _ NaN = NaN"
| "Math_min NInf _ = NInf"
| "Math_min _ NInf = NInf"
| "Math_min PInf b = b"
| "Math_min a PInf = a"

fun Math_max :: "jsnum \<Rightarrow> jsnum \<Rightarrow> jsnum" where
  "Math_max (Fin a) (Fin b) = Fin (max a b)"
| "Math_max NaN _ = NaN"
| "Math_max _ NaN = NaN"
| "Math_max PInf _ = PInf"
| "Math_max _ PInf = PInf"
| "Math_max NInf b = b"
| "Math_max a NInf = a"

text \<open>
  \<^verbatim>\<open>Math.round\<close> rounds a half towards plus infinity; its result on a number is a number.
\<close>

fun Math_round :: "jsnum \<Rightarrow> jsnum" where
  "Math_round (Fin x) = Fin (of_int \<lfloor>x + 1 / 2\<rfloor>)"
| "Math_round v = v"

section \<open>Annotation records\<close>

text \<open>
  A canvas point \<^verbatim>\<open>{ x, y }\<close>. Coordinates are JavaScript numbers.
\<close>

record point =
  px :: jsnum
  py :: jsnum

text \<open>
  The style registry. A field that the caller leaves out is \<^verbatim>\<open>undefined\<close>
  in JavaScript (the canvas component defaults \<^verbatim>\<open>styles = {}\<close>), so every field is
  optional.
\<close>

record styles =
  textSize :: "real option"
  textColor :: "string option"
  lineColor :: "string option"
  lineWidth :: "real option"
  arrowSize :: "real option"
  dimensionPrecision :: "int option"

text \<open>
  The drawable objects of the rendering library. JavaScript compares objects by
  reference; \<open>oid\<close> is that identity. The path of a revision cloud is kept as the
  list of points its path string is built from.
\<close>

datatype fabric_shape =
    Line jsnum jsnum jsnum jsnum
  | Text string
  | Circle jsnum
  | Triangle jsnum jsnum
  | Path "point list"

record fabric_object =
  oid :: nat
  shape :: fabric_shape
  obj_left :: "jsnum option"
  obj_top :: "jsnum option"
  stroke :: "string option"
  strokeWidth :: "real option"
  strokeDashArray :: "real list"
  fill :: "string option"
  fontSize :: "real option"

datatype annotation_data =
    DimensionData point point jsnum
  | CircleData point jsnum
  | LeaderData point
  | CenterlineData point point
  | CloudData "point list"
  | HatchData point jsnum

text \<open>
  An annotation record \<^verbatim>\<open>{ id, type, tool, objects, data, styles }\<close>. The id is the
  value of \<^verbatim>\<open>Date.now()\<close>, a number of milliseconds.
\<close>

record annotation =
  ann_id :: int
  ann_type :: string
  ann_tool :: "string option"
  ann_objects :: "fabric_object list"
  ann_data :: annotation_data
  ann_styles :: styles

section \<open>AnnotationWrapper: the annotation store and its history\<close>

text \<open>
  The three state cells of the component: \<^verbatim>\<open>annotations\<close>,
  \<^verbatim>\<open>annotationHistory\<close> and \<^verbatim>\<open>historyIndex\<close>. A handler is a function of the cells
  of its render: it reads them and returns the cells after its \<^verbatim>\<open>set...\<close> calls. The
  handlers are \<^verbatim>\<open>useCallback\<close>s whose dependency lists name every cell they read, so the
  handlers of a render read the cells of that render; the buttons and the annotation
  manager call the handlers of the current render, one operation per render. (The canvas
  keeps calling the handlers of the render in which it was mounted; that is modelled
  where the two components are put together.) What the parent does in
  \<^verbatim>\<open>onAnnotationsChange\<close> is outside the model: the prop \<^verbatim>\<open>initialAnnotations\<close> is taken
  not to change after the mount, so the effect that seeds the history runs once.
\<close>

record wrapper_state =
  annotations :: "annotation list"
  annotationHistory :: "annotation list list"
  historyIndex :: int

text \<open>
  Mounting: \<^verbatim>\<open>useState(initialAnnotations)\<close>, \<^verbatim>\<open>useState([])\<close>, \<^verbatim>\<open>useState(-1)\<close>,
  then the effect that seeds the history only when there are initial annotations.
\<close>

definition initial_state :: "annotation list \<Rightarrow> wrapper_state" where
  "initial_state initialAnnotations =
     \<lparr>annotations = initialAnnotations, annotationHistory = [], historyIndex = - 1\<rparr>"

definition initialize_history :: "annotation list \<Rightarrow> wrapper_state \<Rightarrow> wrapper_state" where
  "initialize_history initialAnnotations s =
     (if length initialAnnotations > 0
      then s\<lparr>annotationHistory := [initialAnnotations], historyIndex := 0\<rparr>
      else s)"

definition mount :: "annotation list \<Rightarrow> wrapper_state" where
  "mount initialAnnotations = initialize_history initialAnnotations (initial_state initialAnnotations)"

text \<open>
  The block every add, update and delete ends with: slice the history up to and including
  the pointer, push the new list, point at the last entry.
\<close>

definition add_to_history :: "annotation list \<Rightarrow> wrapper_state \<Rightarrow> wrapper_state" where
  "add_to_history newAnnotations s =
     (let newHistory = js_slice (annotationHistory s) 0 (historyIndex s + 1) @ [newAnnotations]
      in s\<lparr>annotations := newAnnotations,
            annotationHistory := newHistory,
            historyIndex := int (length newHistory) - 1\<rparr>)"

definition handleAnnotationAdd :: "annotation \<Rightarrow> wrapper_state \<Rightarrow> wrapper_state" where
  "handleAnnotationAdd annotation s = add_to_history (annotations s @ [annotation]) s"

definition handleAnnotationUpdate :: "int \<Rightarrow> annotation \<Rightarrow> wrapper_state \<Rightarrow> wrapper_state" where
  "handleAnnotationUpdate annotationId updatedAnnotation s =
     add_to_history
       (map (\<lambda>ann. if ann_id ann = annotationId then updatedAnnotation else ann) (annotations s)) s"

definition handleAnnotationDelete :: "int \<Rightarrow> wrapper_state \<Rightarrow> wrapper_state" where
  "handleAnnotationDelete annotationId s =
     add_to_history (filter (\<lambda>ann. ann_id ann \<noteq> annotationId) (annotations s)) s"

text \<open>
  Undo and redo read \<^verbatim>\<open>annotationHistory[newIndex]\<close>. The read is inside the array in
  every state the component can reach (lemma \<open>reachable_wf\<close> below).
\<close>

definition handleUndo :: "wrapper_state \<Rightarrow> wrapper_state" where
  "handleUndo s =
     (if historyIndex s > 0
      then (let newIndex = historyIndex s - 1
            in s\<lparr>historyIndex := newIndex, annotations := annotationHistory s ! nat newIndex\<rparr>)
      else s)"

definition handleRedo :: "wrapper_state \<Rightarrow> wrapper_state" where
  "handleRedo s =
     (if historyIndex s < int (length (annotationHistory s)) - 1
      then (let newIndex = historyIndex s + 1
            in s\<lparr>historyIndex := newIndex, annotations := annotationHistory s ! nat newIndex\<rparr>)
      else s)"

text \<open>The operations of the store, and the states a session reaches from a mount.\<close>

datatype store_op =
    OpAdd annotation
  | OpUpdate int annotation
  | OpDelete int
  | OpUndo
  | OpRedo

fun apply_store_op :: "store_op \<Rightarrow> wrapper_state \<Rightarrow> wrapper_state" where
  "apply_store_op (OpAdd a) s = handleAnnotationAdd a s"
| "apply_store_op (OpUpdate i a) s = handleAnnotationUpdate i a s"
| "apply_store_op (OpDelete i) s = handleAnnotationDelete i s"
| "apply_store_op OpUndo s = handleUndo s"
| "apply_store_op OpRedo s = handleRedo s"

definition run_ops :: "store_op list \<Rightarrow> wrapper_state \<Rightarrow> wrapper_state" where
  "run_ops ops s = fold apply_store_op ops s"

inductive reachable :: "wrapper_state \<Rightarrow> bool" where
  reach_mount: "reachable (mount initialAnnotations)"
| reach_step: "reachable s \<Longrightarrow> reachable (apply_store_op op s)"

definition wf_state :: "wrapper_state \<Rightarrow> bool" where
  "wf_state s =
     (if annotationHistory s = [] then historyIndex s = - 1
      else 0 \<le> historyIndex s \<and> historyIndex s < int (length (annotationHistory s))
           \<and> annotations s = annotationHistory s ! nat (historyIndex s))"

section \<open>ImageProcessing page: the image history\<close>





section \<open>JavaScript built-ins used by the canvas component\<close>

text \<open>
  A thrown exception: the name of its class and its message.
\<close>

datatype js_error = JSError string string

text \<open>
  What one handler reads from outside the component: the value \<^verbatim>\<open>Date.now()\<close> returns
  during the handler, and the functions of the engine it calls. ECMAScript leaves the
  precision of \<^verbatim>\<open>Math.sqrt\<close> and \<^verbatim>\<open>Math.pow\<close> to the engine (they return an
  implementation-approximated value), so they are parameters of the model; so is
  \<^verbatim>\<open>Number::toString\<close>, the decimal notation of a number, which is not modelled.
\<close>

record environment =
  date_now :: int
  number_toString :: "jsnum \<Rightarrow> string"
  math_sqrt :: "jsnum \<Rightarrow> jsnum"
  math_pow :: "jsnum \<Rightarrow> jsnum \<Rightarrow> jsnum"

text \<open>
  The operator \<^verbatim>\<open>a || b\<close> on an optional string and on an optional number: the default
  is taken when the left side is \<^verbatim>\<open>undefined\<close>, the empty string or \<open>0\<close>.
\<close>

definition or_string :: "string option \<Rightarrow> string \<Rightarrow> string" where
  "or_string v d = (case v of None \<Rightarrow> d | Some s \<Rightarrow> if s = [] then d else s)"

definition or_number :: "real option \<Rightarrow> real \<Rightarrow> real" where
  "or_number v d = (case v of None \<Rightarrow> d | Some n \<Rightarrow> if n = 0 then d else n)"

definition or_integer :: "int option \<Rightarrow> int \<Rightarrow> int" where
  "or_integer v d = (case v of None \<Rightarrow> d | Some n \<Rightarrow> if n = 0 then d else n)"

text \<open>The decimal digits of a natural number.\<close>

fun digits_of :: "nat \<Rightarrow> string" where
  "digits_of n =
     (if n < 10 then [''0123456789'' ! n]
      else digits_of (n div 10) @ [''0123456789'' ! (n mod 10)])"

declare digits_of.simps [simp del]

text \<open>
  \<^verbatim>\<open>Number.prototype.toFixed(fractionDigits)\<close> as ECMAScript defines it: a RangeError
  outside 0..100; \<^verbatim>\<open>Number::toString\<close> for a value that is not finite or is \<open>10\<^sup>2\<^sup>1\<close> or
  more in magnitude; a negative number is the minus sign followed by the digits of its
  absolute value; otherwise \<open>n\<close> is the integer for which \<open>n / 10\<^sup>f - x\<close> is closest to zero
  (the larger one of two), written with at least \<open>f + 1\<close> digits and a point before the
  last \<open>f\<close>. Here \<open>x\<close> is the exact value of the number.
\<close>

definition toFixed_digits :: "real \<Rightarrow> nat \<Rightarrow> string" where
  "toFixed_digits x f =
     (let n = nat \<lfloor>x * 10 ^ f + 1 / 2\<rfloor>;
          m = digits_of n;
          m = (if f \<noteq> 0 \<and> length m \<le> f then replicate (f + 1 - length m) (CHR ''0'') @ m else m);
          k = length m
      in if f \<noteq> 0 then take (k - f) m @ ''.'' @ drop (k - f) m else m)"

definition toFixed :: "environment \<Rightarrow> jsnum \<Rightarrow> int \<Rightarrow> js_error + string" where
  "toFixed env v fractionDigits =
     (if fractionDigits < 0 \<or> 100 < fractionDigits
      then Inl (JSError ''RangeError'' ''toFixed() digits argument must be between 0 and 100'')
      else case v of
             Fin x \<Rightarrow>
               if 10 ^ 21 \<le> \<bar>x\<bar> then Inr (number_toString env v)
               else if x < 0 then Inr (''-'' @ toFixed_digits (- x) (nat fractionDigits))
               else Inr (toFixed_digits x (nat fractionDigits))
           | _ \<Rightarrow> Inr (number_toString env v))"

section \<open>AnnotationCanvas: the primitive factory and the canvas surface\<close>

text \<open>
  The props of the component that the handlers read.
\<close>

record canvas_props =
  activeTool :: "string option"
  prop_styles :: styles
  isReadOnly :: bool

text \<open>
  The state cells of the component, and the state of the component: its cells together
  with the objects the rendering library holds for the canvas (in stacking order) and the
  next unused object identity.
\<close>

record canvas_cells =
  isDrawing :: bool
  drawingPoints :: "point list"
  dimensionStart :: "point option"
  dimensionEnd :: "point option"
  currentAnnotation :: "annotation option"

record canvas_state = canvas_cells +
  canvas_objects :: "fabric_object list"
  next_oid :: nat

text \<open>
  A handler is a closure of one render. What it reads of the cells are the values of that
  render, the argument \<open>cl\<close> of the functions below; what it sets, and what it reads and
  changes on the canvas of the rendering library, is the state \<open>cs\<close> of the component at
  the time of the call. A function that reads no cell has no argument \<open>cl\<close>.

  The component gives its five handlers to the rendering library once, in the effect
  that creates the canvas (dependencies \<^verbatim>\<open>[imageUrl]\<close>, so it runs when the component
  mounts): the library keeps calling the closures of the mount render, whatever the cells
  and props have become since, and the functions those handlers call are the closures of
  the mount render too.
\<close>

text \<open>
  The calls a handler makes on the props \<^verbatim>\<open>onAnnotationAdd\<close>, \<^verbatim>\<open>onAnnotationUpdate\<close>
  and \<^verbatim>\<open>onAnnotationDelete\<close>, in order.
\<close>

datatype callback =
    AnnotationAdd annotation
  | AnnotationUpdate int annotation
  | AnnotationDelete int

text \<open>
  What a handler leaves behind: the state after its \<^verbatim>\<open>set...\<close> calls, the callbacks it
  made, and the exception that ended it, if one did.
\<close>

record canvas_result =
  res_state :: canvas_state
  res_calls :: "callback list"
  res_error :: "js_error option"

definition finish :: "canvas_state \<Rightarrow> canvas_result" where
  "finish cs = \<lparr>res_state = cs, res_calls = [], res_error = None\<rparr>"

text \<open>
  An object with the attributes a constructor call passes; the attributes the source does
  not set stay at the library's defaults and are left out. Every object of the source is
  created with \<^verbatim>\<open>selectable: true, evented: true\<close>.
\<close>

definition new_object :: "nat \<Rightarrow> fabric_shape \<Rightarrow> fabric_object" where
  "new_object i sh =
     \<lparr>oid = i, shape = sh, obj_left = None, obj_top = None, stroke = None, strokeWidth = None,
      strokeDashArray = [], fill = None, fontSize = None\<rparr>"

text \<open>
  \<^verbatim>\<open>array.includes(object)\<close> compares references.
\<close>

definition includes_object :: "fabric_object list \<Rightarrow> fabric_object \<Rightarrow> bool" where
  "includes_object objs obj = (oid obj \<in> set (map oid objs))"

text \<open>Object removal: handleObjectRemoved.\<close>

definition handleObjectRemoved ::
  "fabric_object \<Rightarrow> canvas_cells \<Rightarrow> canvas_state \<Rightarrow> canvas_result" where
  "handleObjectRemoved removedObject cl cs =
     (case currentAnnotation cl of
        None \<Rightarrow> finish cs
      | Some cur \<Rightarrow>
          if includes_object (ann_objects cur) removedObject
          then \<lparr>res_state = cs, res_calls = [AnnotationDelete (ann_id cur)], res_error = None\<rparr>
          else finish cs)"

text \<open>
  \<^verbatim>\<open>canvas.remove(object)\<close> of the rendering library: an object that is on the canvas is
  taken out and the event \<^verbatim>\<open>object:removed\<close> is fired, which runs the handleObjectRemoved
  the library was given before \<^verbatim>\<open>remove\<close> returns; for an object that is not on the canvas
  nothing happens.
\<close>

primrec remove_first :: "nat \<Rightarrow> fabric_object list \<Rightarrow> fabric_object list" where
  "remove_first i [] = []"
| "remove_first i (obj # objs) = (if oid obj = i then objs else obj # remove_first i objs)"

definition canvas_remove :: "fabric_object \<Rightarrow> canvas_cells \<Rightarrow> canvas_state \<Rightarrow> canvas_result" where
  "canvas_remove obj cl cs =
     (if includes_object (canvas_objects cs) obj
      then handleObjectRemoved obj cl (cs\<lparr>canvas_objects := remove_first (oid obj) (canvas_objects cs)\<rparr>)
      else finish cs)"

text \<open>Object modification: handleObjectModified.\<close>

definition handleObjectModified ::
  "fabric_object \<Rightarrow> canvas_cells \<Rightarrow> canvas_state \<Rightarrow> canvas_result" where
  "handleObjectModified modifiedObject cl cs =
     (case currentAnnotation cl of
        None \<Rightarrow> finish cs
      | Some cur \<Rightarrow>
          if includes_object (ann_objects cur) modifiedObject
          then \<lparr>res_state = cs,
                res_calls = [AnnotationUpdate (ann_id cur)
                  (cur\<lparr>ann_objects :=
                     map (\<lambda>obj. if oid obj = oid modifiedObject then modifiedObject else obj)
                       (ann_objects cur)\<rparr>)],
                res_error = None\<rparr>
          else finish cs)"

text \<open>
  The end of every create function: \<^verbatim>\<open>onAnnotationAdd?.(annotation)\<close> and
  \<^verbatim>\<open>setCurrentAnnotation(annotation)\<close>.
\<close>

definition emit_annotation :: "annotation \<Rightarrow> canvas_state \<Rightarrow> canvas_result" where
  "emit_annotation annotation cs =
     \<lparr>res_state = cs\<lparr>currentAnnotation := Some annotation\<rparr>,
      res_calls = [AnnotationAdd annotation], res_error = None\<rparr>"

text \<open>
  Dimension annotations: createDimension. The start point is the \<^verbatim>\<open>dimensionStart\<close> of
  the closure; the distance is
  \<^verbatim>\<open>Math.sqrt(Math.pow(end.x - start.x, 2) + Math.pow(end.y - start.y, 2))\<close>.
\<close>

definition createDimension ::
  "canvas_props \<Rightarrow> environment \<Rightarrow> point \<Rightarrow> canvas_cells \<Rightarrow> canvas_state \<Rightarrow> canvas_result" where
  "createDimension props env endPoint cl cs =
     (case dimensionStart cl of
        None \<Rightarrow> finish cs
      | Some start \<Rightarrow>
          (let fin = endPoint;
               distance = math_sqrt env (math_pow env (px fin - px start) (Fin 2)
                                         + math_pow env (py fin - py start) (Fin 2));
               st = prop_styles props;
               dimensionLine = (new_object (next_oid cs) (Line (px start) (py start) (px fin) (py fin)))
                 \<lparr>stroke := Some (or_string (lineColor st) ''#FF0000''),
                  strokeWidth := Some (or_number (lineWidth st) 2)\<rparr>
           in case toFixed env distance (or_integer (dimensionPrecision st) 2) of
                Inl err \<Rightarrow>
                  \<lparr>res_state = cs\<lparr>next_oid := next_oid cs + 1\<rparr>, res_calls = [], res_error = Some err\<rparr>
              | Inr fixed \<Rightarrow>
                  (let text = (new_object (next_oid cs + 1) (Text (fixed @ ''px'')))
                         \<lparr>obj_left := Some (js_div (px start + px fin) (Fin 2)),
                          obj_top := Some (js_div (py start + py fin) (Fin 2) - Fin 10),
                          fontSize := Some (or_number (textSize st) 12),
                          fill := Some (or_string (textColor st) ''#000000'')\<rparr>;
                       annotation =
                         \<lparr>ann_id = date_now env, ann_type = ''dimension'', ann_tool = activeTool props,
                          ann_objects = [dimensionLine, text],
                          ann_data = DimensionData start fin distance, ann_styles = st\<rparr>
                   in emit_annotation annotation
                        (cs\<lparr>canvas_objects := canvas_objects cs @ [dimensionLine, text],
                            next_oid := next_oid cs + 2,
                            dimensionStart := None, dimensionEnd := None\<rparr>))))"

text \<open>Circle dimensions: createCircleDimension.\<close>

definition createCircleDimension ::
  "canvas_props \<Rightarrow> environment \<Rightarrow> point \<Rightarrow> canvas_state \<Rightarrow> canvas_result" where
  "createCircleDimension props env point cs =
     (let radius = Fin 50;
          st = prop_styles props;
          circle = (new_object (next_oid cs) (Circle radius))
            \<lparr>obj_left := Some (px point - radius), obj_top := Some (py point - radius),
             stroke := Some (or_string (lineColor st) ''#FF0000''),
             strokeWidth := Some (or_number (lineWidth st) 2),
             fill := Some ''transparent''\<rparr>;
          text = (new_object (next_oid cs + 1) (Text ''50px''))
            \<lparr>obj_left := Some (px point + radius + Fin 10), obj_top := Some (py point - Fin 10),
             fontSize := Some (or_number (textSize st) 12),
             fill := Some (or_string (textColor st) ''#000000'')\<rparr>;
          annotation =
            \<lparr>ann_id = date_now env, ann_type = ''circle'', ann_tool = activeTool props,
             ann_objects = [circle, text], ann_data = CircleData point radius, ann_styles = st\<rparr>
      in emit_annotation annotation
           (cs\<lparr>canvas_objects := canvas_objects cs @ [circle, text], next_oid := next_oid cs + 2\<rparr>))"

text \<open>Leader annotations: createLeader.\<close>

definition createLeader ::
  "canvas_props \<Rightarrow> environment \<Rightarrow> point \<Rightarrow> canvas_state \<Rightarrow> canvas_result" where
  "createLeader props env point cs =
     (let st = prop_styles props;
          leaderLine = (new_object (next_oid cs)
                          (Line (px point - Fin 50) (py point) (px point) (py point)))
            \<lparr>stroke := Some (or_string (lineColor st) ''#FF0000''),
             strokeWidth := Some (or_number (lineWidth st) 2)\<rparr>;
          arrow = (new_object (next_oid cs + 1) (Triangle (Fin 10) (Fin 10)))
            \<lparr>obj_left := Some (px point - Fin 5), obj_top := Some (py point - Fin 5),
             fill := Some (or_string (lineColor st) ''#FF0000'')\<rparr>;
          annotation =
            \<lparr>ann_id = date_now env, ann_type = ''leader'', ann_tool = activeTool props,
             ann_objects = [leaderLine, arrow], ann_data = LeaderData point, ann_styles = st\<rparr>
      in emit_annotation annotation
           (cs\<lparr>canvas_objects := canvas_objects cs @ [leaderLine, arrow], next_oid := next_oid cs + 2\<rparr>))"

text \<open>Centerlines: createCenterline. The start point is the one of the closure.\<close>

definition createCenterline ::
  "canvas_props \<Rightarrow> environment \<Rightarrow> point \<Rightarrow> canvas_cells \<Rightarrow> canvas_state \<Rightarrow> canvas_result" where
  "createCenterline props env endPoint cl cs =
     (case dimensionStart cl of
        None \<Rightarrow> finish cs
      | Some start \<Rightarrow>
          (let fin = endPoint;
               st = prop_styles props;
               centerline = (new_object (next_oid cs) (Line (px start) (py start) (px fin) (py fin)))
                 \<lparr>stroke := Some (or_string (lineColor st) ''#0000FF''),
                  strokeWidth := Some (or_number (lineWidth st) 2),
                  strokeDashArray := [5, 5]\<rparr>;
               annotation =
                 \<lparr>ann_id = date_now env, ann_type = ''centerline'', ann_tool = activeTool props,
                  ann_objects = [centerline], ann_data = CenterlineData start fin, ann_styles = st\<rparr>
           in emit_annotation annotation
                (cs\<lparr>canvas_objects := canvas_objects cs @ [centerline], next_oid := next_oid cs + 1,
                    dimensionStart := None\<rparr>)))"

text \<open>
  Revision clouds: drawRevisionCloud draws the preview from the points of the closure,
  after taking the first object of the closure's current annotation off the canvas.
\<close>

definition drawRevisionCloud :: "canvas_props \<Rightarrow> canvas_cells \<Rightarrow> canvas_state \<Rightarrow> canvas_result" where
  "drawRevisionCloud props cl cs =
     (if length (drawingPoints cl) < 2 then finish cs
      else
        (let removed =
               (case currentAnnotation cl of
                  None \<Rightarrow> finish cs
                | Some cur \<Rightarrow>
                    (case ann_objects cur of [] \<Rightarrow> finish cs | obj # _ \<Rightarrow> canvas_remove obj cl cs));
             cs1 = res_state removed;
             st = prop_styles props;
             path = (new_object (next_oid cs1) (Path (drawingPoints cl)))
               \<lparr>stroke := Some (or_string (lineColor st) ''#FF0000''),
                strokeWidth := Some (or_number (lineWidth st) 2),
                fill := Some ''transparent''\<rparr>
         in removed\<lparr>res_state := cs1\<lparr>canvas_objects := canvas_objects cs1 @ [path],
                                        next_oid := next_oid cs1 + 1\<rparr>\<rparr>))"

text \<open>
  finalizeRevisionCloud: fewer than three points in the closure end the function at once.
  Otherwise the last object of the canvas becomes the only object of the record (none
  when the canvas is empty, where the source stores \<^verbatim>\<open>undefined\<close>), and the points of the
  record are the points of the closure.
\<close>

definition finalizeRevisionCloud ::
  "canvas_props \<Rightarrow> environment \<Rightarrow> canvas_cells \<Rightarrow> canvas_state \<Rightarrow> canvas_result" where
  "finalizeRevisionCloud props env cl cs =
     (if length (drawingPoints cl) < 3 then finish cs
      else
        (let path = (if canvas_objects cs = [] then [] else [last (canvas_objects cs)]);
             annotation =
               \<lparr>ann_id = date_now env, ann_type = ''revision-cloud'', ann_tool = activeTool props,
                ann_objects = path, ann_data = CloudData (drawingPoints cl),
                ann_styles = prop_styles props\<rparr>
         in emit_annotation annotation (cs\<lparr>drawingPoints := []\<rparr>)))"

text \<open>
  Hatch patterns: createHatchPattern. Both loops run \<^verbatim>\<open>i = 0, 5, ..., 45\<close>.
\<close>

definition hatch_steps :: "nat \<Rightarrow> nat list" where
  "hatch_steps hatch_size = map (\<lambda>k. 5 * k) [0..<(hatch_size + 4) div 5]"

definition createHatchPattern ::
  "canvas_props \<Rightarrow> environment \<Rightarrow> point \<Rightarrow> canvas_state \<Rightarrow> canvas_result" where
  "createHatchPattern props env point cs =
     (let hatch_size = 50;
          st = prop_styles props;
          steps = hatch_steps hatch_size;
          horizontal =
            map (\<lambda>(k, i). (new_object (next_oid cs + k)
                    (Line (px point) (py point + Fin (real i))
                          (px point + Fin (real hatch_size)) (py point + Fin (real i))))
                  \<lparr>stroke := Some (or_string (lineColor st) ''#000000''), strokeWidth := Some 1\<rparr>)
              (zip [0..<length steps] steps);
          vertical =
            map (\<lambda>(k, i). (new_object (next_oid cs + length steps + k)
                    (Line (px point + Fin (real i)) (py point)
                          (px point + Fin (real i)) (py point + Fin (real hatch_size))))
                  \<lparr>stroke := Some (or_string (lineColor st) ''#000000''), strokeWidth := Some 1\<rparr>)
              (zip [0..<length steps] steps);
          lines = horizontal @ vertical;
          annotation =
            \<lparr>ann_id = date_now env, ann_type = ''hatch'', ann_tool = activeTool props,
             ann_objects = lines, ann_data = HatchData point (Fin (real hatch_size)), ann_styles = st\<rparr>
      in emit_annotation annotation
           (cs\<lparr>canvas_objects := canvas_objects cs @ lines,
               next_oid := next_oid cs + 2 * length steps\<rparr>))"

text \<open>
  The three pointer events. handleCanvasMouseDown tests the \<^verbatim>\<open>dimensionStart\<close> of its
  closure and handleCanvasMouseMove the \<^verbatim>\<open>isDrawing\<close> of its closure;
  \<^verbatim>\<open>setDrawingPoints(prev => [...prev, point])\<close> appends to the points the component has
  at the time of the call.
\<close>

definition handleCanvasMouseDown ::
  "canvas_props \<Rightarrow> environment \<Rightarrow> point \<Rightarrow> canvas_cells \<Rightarrow> canvas_state \<Rightarrow> canvas_result" where
  "handleCanvasMouseDown props env point cl cs =
     (case activeTool props of
        None \<Rightarrow> finish cs
      | Some tool \<Rightarrow>
          if isReadOnly props \<or> tool = [] then finish cs
          else if tool = ''linear'' \<or> tool = ''aligned'' \<or> tool = ''angular'' then
            (case dimensionStart cl of
               None \<Rightarrow> finish (cs\<lparr>dimensionStart := Some point\<rparr>)
             | Some _ \<Rightarrow> createDimension props env point cl (cs\<lparr>dimensionEnd := Some point\<rparr>))
          else if tool = ''radius'' \<or> tool = ''diameter'' then createCircleDimension props env point cs
          else if tool = ''leader'' \<or> tool = ''multileader'' then createLeader props env point cs
          else if tool = ''centerline'' then
            (case dimensionStart cl of
               None \<Rightarrow> finish (cs\<lparr>dimensionStart := Some point\<rparr>)
             | Some _ \<Rightarrow> createCenterline props env point cl cs)
          else if tool = ''revision-cloud'' then
            finish (cs\<lparr>isDrawing := True, drawingPoints := [point]\<rparr>)
          else if tool = ''hatch'' then createHatchPattern props env point cs
          else finish cs)"

definition handleCanvasMouseMove ::
  "canvas_props \<Rightarrow> point \<Rightarrow> canvas_cells \<Rightarrow> canvas_state \<Rightarrow> canvas_result" where
  "handleCanvasMouseMove props point cl cs =
     (case activeTool props of
        None \<Rightarrow> finish cs
      | Some tool \<Rightarrow>
          if \<not> isDrawing cl \<or> tool = [] then finish cs
          else if tool = ''revision-cloud'' then
            (let drawn = drawRevisionCloud props cl cs
             in drawn\<lparr>res_state := (res_state drawn)\<lparr>drawingPoints := drawingPoints cs @ [point]\<rparr>\<rparr>)
          else finish cs)"

definition handleCanvasMouseUp ::
  "canvas_props \<Rightarrow> environment \<Rightarrow> canvas_cells \<Rightarrow> canvas_state \<Rightarrow> canvas_result" where
  "handleCanvasMouseUp props env cl cs =
     (if activeTool props = Some ''revision-cloud''
      then (let fin = finalizeRevisionCloud props env cl cs
            in fin\<lparr>res_state := (res_state fin)\<lparr>isDrawing := False\<rparr>\<rparr>)
      else finish cs)"

text \<open>
  The component as mounted: the cells of the mount render, and nothing on the canvas.
\<close>

definition initial_cells :: canvas_cells where
  "initial_cells =
     \<lparr>isDrawing = False, drawingPoints = [], dimensionStart = None, dimensionEnd = None,
      currentAnnotation = None\<rparr>"

definition initial_canvas :: canvas_state where
  "initial_canvas =
     \<lparr>isDrawing = False, drawingPoints = [], dimensionStart = None, dimensionEnd = None,
      currentAnnotation = None, canvas_objects = [], next_oid = 0\<rparr>"

text \<open>
  The events the component handles: the three pointer events, and the two object events
  of the rendering library with their target. A user who deletes an object through the
  canvas makes the library call \<^verbatim>\<open>remove\<close>, which fires \<^verbatim>\<open>object:removed\<close>.
  \<open>canvas_step\<close> is one event, handled by the closures of the render with props \<open>props\<close>
  and cells \<open>cl\<close>.
\<close>

datatype canvas_event =
    MouseDown point
  | MouseMove point
  | MouseUp
  | ObjectModified fabric_object
  | ObjectRemoved fabric_object

fun canvas_step ::
  "canvas_props \<Rightarrow> environment \<Rightarrow> canvas_event \<Rightarrow> canvas_cells \<Rightarrow> canvas_state \<Rightarrow> canvas_result" where
  "canvas_step props env (MouseDown point) cl cs = handleCanvasMouseDown props env point cl cs"
| "canvas_step props env (MouseMove point) cl cs = handleCanvasMouseMove props point cl cs"
| "canvas_step props env MouseUp cl cs = handleCanvasMouseUp props env cl cs"
| "canvas_step props env (ObjectModified obj) cl cs = handleObjectModified obj cl cs"
| "canvas_step props env (ObjectRemoved obj) cl cs = canvas_remove obj cl cs"

text \<open>
  A sequence of events on the canvas of the rendering library, each with the environment
  of its handler. All of them are handled by the closures the library was given when the
  canvas was created: the props \<open>props\<close> and the cells \<open>cl\<close> of that render stay what they
  were, while the state of the component goes from one event to the next. For the canvas
  created when the component mounts, \<open>props\<close> are the props of the mount and \<open>cl\<close> is
  \<open>initial_cells\<close>. (A later change of \<^verbatim>\<open>imageUrl\<close> disposes of the canvas and creates
  another one; sessions with such a change are outside the model.) The callbacks of all
  handlers are collected in order. An exception ends its own handler only; the first one
  is kept.
\<close>

fun run_events ::
  "canvas_props \<Rightarrow> canvas_cells \<Rightarrow> (environment \<times> canvas_event) list \<Rightarrow> canvas_state \<Rightarrow> canvas_result" where
  "run_events props cl [] cs = finish cs"
| "run_events props cl ((env, ev) # evs) cs =
     (let r = canvas_step props env ev cl cs;
          rest = run_events props cl evs (res_state r)
      in \<lparr>res_state = res_state rest,
          res_calls = res_calls r @ res_calls rest,
          res_error = (case res_error r of Some e \<Rightarrow> Some e | None \<Rightarrow> res_error rest)\<rparr>)"

text \<open>The annotation records a list of callbacks adds.\<close>

fun added_annotations :: "callback list \<Rightarrow> annotation list" where
  "added_annotations [] = []"
| "added_annotations (AnnotationAdd a # cbs) = a # added_annotations cbs"
| "added_annotations (_ # cbs) = added_annotations cbs"

text \<open>
  One revision-cloud interaction: the press, the moves while the button is held, the
  release. The points the user draws are the point of the press and the points of the
  moves.
\<close>

definition cloud_interaction ::
  "environment \<Rightarrow> environment \<Rightarrow> point \<Rightarrow> point list \<Rightarrow> (environment \<times> canvas_event) list" where
  "cloud_interaction env env' p ps =
     (env, MouseDown p) # map (\<lambda>q. (env, MouseMove q)) ps @ [(env', MouseUp)]"

text \<open>
  The styles AnnotationWrapper starts with and hands to the canvas.
\<close>

definition currentStyles_initial :: styles where
  "currentStyles_initial =
     \<lparr>textSize = Some 12, textColor = Some ''#000000'', lineColor = Some ''#FF0000'',
      lineWidth = Some 2, arrowSize = Some 8, dimensionPrecision = Some 2\<rparr>"

section \<open>The wrapper and the canvas together\<close>


text \<open>
  The canvas is mounted by the wrapper with the props of one render of the wrapper: the
  active tool and styles of that render, \<^verbatim>\<open>isReadOnly = false\<close>, and as callbacks the
  wrapper's handlers of that render, which read the wrapper's cells of that render. The
  handlers the rendering library calls are closures of the canvas's mount render, so
  these are the props they keep.
\<close>

record canvas_mount =
  mounted_props :: canvas_props
  mounted_store :: wrapper_state








definition mounted_with :: "string \<Rightarrow> canvas_mount" where
  "mounted_with tool =
     \<lparr>mounted_props = \<lparr>activeTool = Some tool, prop_styles = currentStyles_initial, isReadOnly = False\<rparr>,
      mounted_store = mount []\<rparr>"


section \<open>CaptureManager: the persisted capture list\<close>

record capture_metadata =
  resolution :: string
  magnification :: string
  camera :: string
  meta_notes :: string
  tags :: "string list"
  analysisType :: string

record capture =
  capture_id :: string
  timestamp :: string
  capture_imageData :: string
  metadata :: capture_metadata

text \<open>
  The manager: its capture list, the contents of local storage, and the calls made on
  \<^verbatim>\<open>console.error\<close> (the message and the exception).
\<close>

record manager_state =
  captures :: "capture list"
  storage :: "string \<rightharpoonup> string"
  console :: "(string \<times> js_error) list"

text \<open>
  What the browser decides during one call: whether \<^verbatim>\<open>localStorage.getItem\<close> throws,
  whether \<^verbatim>\<open>localStorage.setItem\<close> throws for a given text (the quota), and the results of
  \<^verbatim>\<open>JSON.parse\<close> and \<^verbatim>\<open>JSON.stringify\<close>, which throw or return. A stored text that
  parses is taken to parse to a list of capture records.
\<close>

record storage_env =
  getItem_throws :: "js_error option"
  setItem_throws :: "string \<Rightarrow> js_error option"
  JSON_parse :: "string \<Rightarrow> js_error + capture list"
  JSON_stringify :: "capture list \<Rightarrow> js_error + string"

definition storageKey :: string where
  "storageKey = ''envision_captures''"

definition loadCaptures :: "storage_env \<Rightarrow> manager_state \<Rightarrow> manager_state" where
  "loadCaptures env m =
     (case getItem_throws env of
        Some err \<Rightarrow> m\<lparr>captures := [], console := console m @ [(''Error loading captures:'', err)]\<rparr>
      | None \<Rightarrow>
          (case storage m storageKey of
             None \<Rightarrow> m\<lparr>captures := []\<rparr>
           | Some stored \<Rightarrow>
               if stored = [] then m\<lparr>captures := []\<rparr>
               else (case JSON_parse env stored of
                       Inl err \<Rightarrow>
                         m\<lparr>captures := [], console := console m @ [(''Error loading captures:'', err)]\<rparr>
                     | Inr parsed \<Rightarrow> m\<lparr>captures := parsed\<rparr>)))"

definition saveCaptures :: "storage_env \<Rightarrow> manager_state \<Rightarrow> manager_state" where
  "saveCaptures env m =
     (case JSON_stringify env (captures m) of
        Inl err \<Rightarrow> m\<lparr>console := console m @ [(''Error saving captures:'', err)]\<rparr>
      | Inr text \<Rightarrow>
          (case setItem_throws env text of
             Some err \<Rightarrow> m\<lparr>console := console m @ [(''Error saving captures:'', err)]\<rparr>
           | None \<Rightarrow> m\<lparr>storage := (storage m)(storageKey \<mapsto> text)\<rparr>))"

text \<open>
  The constructor sets the key and loads.
\<close>

definition new_CaptureManager :: "storage_env \<Rightarrow> (string \<rightharpoonup> string) \<Rightarrow> manager_state" where
  "new_CaptureManager env stored = loadCaptures env \<lparr>captures = [], storage = stored, console = []\<rparr>"

text \<open>
  addCapture. The id is \<^verbatim>\<open>Date.now().toString()\<close> followed by
  \<^verbatim>\<open>Math.random().toString(36).substr(2, 9)\<close>; the clock value, the random suffix and the
  ISO timestamp come from outside. A metadata key that the caller passes replaces the
  default of that key.
\<close>

record capture_env =
  clock_now :: int
  random_suffix :: string
  iso_timestamp :: string

record metadata_arg =
  arg_resolution :: "string option"
  arg_magnification :: "string option"
  arg_camera :: "string option"
  arg_notes :: "string option"
  arg_tags :: "string list option"
  arg_analysisType :: "string option"

definition integer_toString :: "int \<Rightarrow> string" where
  "integer_toString n = (if n < 0 then ''-'' @ digits_of (nat (- n)) else digits_of (nat n))"

definition addCapture ::
  "storage_env \<Rightarrow> capture_env \<Rightarrow> string \<Rightarrow> metadata_arg \<Rightarrow> manager_state \<Rightarrow> capture \<times> manager_state" where
  "addCapture env cenv image_data meta m =
     (let new_capture =
            \<lparr>capture_id = integer_toString (clock_now cenv) @ random_suffix cenv,
             timestamp = iso_timestamp cenv,
             capture_imageData = image_data,
             metadata =
               \<lparr>resolution = (case arg_resolution meta of None \<Rightarrow> ''Unknown'' | Some v \<Rightarrow> v),
                magnification = (case arg_magnification meta of None \<Rightarrow> ''Unknown'' | Some v \<Rightarrow> v),
                camera = (case arg_camera meta of None \<Rightarrow> ''Unknown'' | Some v \<Rightarrow> v),
                meta_notes = (case arg_notes meta of None \<Rightarrow> [] | Some v \<Rightarrow> v),
                tags = (case arg_tags meta of None \<Rightarrow> [] | Some v \<Rightarrow> v),
                analysisType = (case arg_analysisType meta of None \<Rightarrow> ''general'' | Some v \<Rightarrow> v)\<rparr>\<rparr>
      in (new_capture, saveCaptures env (m\<lparr>captures := new_capture # captures m\<rparr>)))"

section \<open>ImageProcessor: the pixel buffer\<close>

text \<open>
  The conversion of a number stored into a \<^verbatim>\<open>Uint8ClampedArray\<close>: \<^verbatim>\<open>NaN\<close> becomes 0,
  the value is clamped to 0..255 and rounded to the nearest integer, a half to the even
  one.
\<close>

definition toUint8Clamp :: "jsnum \<Rightarrow> 8 word" where
  "toUint8Clamp v =
     (case v of
        NaN \<Rightarrow> 0
      | PInf \<Rightarrow> 255
      | NInf \<Rightarrow> 0
      | Fin x \<Rightarrow>
          if x \<le> 0 then 0
          else if 255 \<le> x then 255
          else (let f = \<lfloor>x\<rfloor>
                in if real_of_int f + 1 / 2 < x then of_int (f + 1)
                   else if x < real_of_int f + 1 / 2 then of_int f
                   else if even f then of_int f else of_int (f + 1)))"

text \<open>
  Reading and writing an element of the array. A read outside the array is
  \<^verbatim>\<open>undefined\<close>; a write outside the array does nothing.
\<close>

definition byte_at :: "8 word list \<Rightarrow> int \<Rightarrow> 8 word option" where
  "byte_at d i = (if 0 \<le> i \<and> i < int (length d) then Some (d ! nat i) else None)"

definition get_byte :: "8 word list \<Rightarrow> int \<Rightarrow> jsnum" where
  "get_byte d i = (case byte_at d i of None \<Rightarrow> NaN | Some b \<Rightarrow> Fin (real (unat b)))"

definition set_byte :: "8 word list \<Rightarrow> int \<Rightarrow> jsnum \<Rightarrow> 8 word list" where
  "set_byte d i v = (if 0 \<le> i \<and> i < int (length d) then d[nat i := toUint8Clamp v] else d)"

text \<open>
  The three channel writes that end the body of every filter loop:
  \<^verbatim>\<open>a[idx] = r; a[idx + 1] = g; a[idx + 2] = b\<close>.
\<close>

definition set_rgb :: "8 word list \<Rightarrow> int \<Rightarrow> jsnum \<Rightarrow> jsnum \<Rightarrow> jsnum \<Rightarrow> 8 word list" where
  "set_rgb d idx r g b = set_byte (set_byte (set_byte d idx r) (idx + 1) g) (idx + 2) b"

text \<open>
  An \<^verbatim>\<open>ImageData\<close>: width, height and the RGBA bytes, row by row. The canvas of the
  processor is modelled as the \<^verbatim>\<open>ImageData\<close> it holds: \<^verbatim>\<open>getImageData\<close> returns a copy of
  the whole canvas and throws on a canvas without pixels, \<^verbatim>\<open>putImageData\<close> replaces the
  whole canvas. (A browser stores the canvas with premultiplied alpha, which can change
  the colour bytes of pixels that are not opaque; that is outside the model.)
\<close>

record image_data =
  img_width :: nat
  img_height :: nat
  img_data :: "8 word list"

definition getImageData :: "image_data \<Rightarrow> js_error + image_data" where
  "getImageData bitmap =
     (if img_width bitmap = 0 \<or> img_height bitmap = 0
      then Inl (JSError ''IndexSizeError'' ''The source width or height is 0.'')
      else Inr bitmap)"

definition putImageData :: "image_data \<Rightarrow> image_data \<Rightarrow> image_data" where
  "putImageData bitmap imageData = imageData"

text \<open>
  The \<^verbatim>\<open>catch\<close> block of the filters: \<^verbatim>\<open>throw new Error(prefix + error.message)\<close>. The
  call of \<^verbatim>\<open>console.error\<close> before it is not modelled.
\<close>

fun rethrow :: "string \<Rightarrow> js_error \<Rightarrow> js_error" where
  "rethrow prefix (JSError name message) = JSError ''Error'' (prefix @ message)"

text \<open>
  The indices of \<^verbatim>\<open>for (let i = 0; i < data.length; i += 4)\<close>.
\<close>

definition pixel_offsets :: "8 word list \<Rightarrow> int list" where
  "pixel_offsets d = map (\<lambda>k. 4 * int k) [0..<(length d + 3) div 4]"

section \<open>ImageProcessor: the filters on single pixels\<close>

text \<open>Brightness and contrast. The method has no \<^verbatim>\<open>try\<close> block.\<close>

definition adjust_channel :: "jsnum \<Rightarrow> jsnum \<Rightarrow> int \<Rightarrow> 8 word list \<Rightarrow> 8 word list" where
  "adjust_channel brightness contrast i d =
     set_byte d i
       (Math_max (Fin 0)
          (Math_min (Fin 255) ((get_byte d i - Fin 128) * contrast + Fin 128 + brightness)))"

definition adjust_pixel :: "jsnum \<Rightarrow> jsnum \<Rightarrow> int \<Rightarrow> 8 word list \<Rightarrow> 8 word list" where
  "adjust_pixel brightness contrast i d =
     adjust_channel brightness contrast (i + 2)
       (adjust_channel brightness contrast (i + 1)
          (adjust_channel brightness contrast i d))"

definition adjustBrightnessContrast :: "jsnum \<Rightarrow> jsnum \<Rightarrow> image_data \<Rightarrow> js_error + image_data" where
  "adjustBrightnessContrast brightness contrast bitmap =
     (case getImageData bitmap of
        Inl err \<Rightarrow> Inl err
      | Inr imageData \<Rightarrow>
          Inr (putImageData bitmap
                 (imageData\<lparr>img_data :=
                    fold (adjust_pixel brightness contrast) (pixel_offsets (img_data imageData))
                      (img_data imageData)\<rparr>)))"

text \<open>
  Grayscale. The gray value \<^verbatim>\<open>r * 0.299 + g * 0.587 + b * 0.114\<close> is computed in
  floating-point arithmetic: the three literals are the numbers for their decimal values,
  and each product and each sum is rounded.
\<close>

definition weighted_gray :: "jsnum \<Rightarrow> jsnum \<Rightarrow> jsnum \<Rightarrow> jsnum" where
  "weighted_gray r g b = r * number_for 0.299 + g * number_for 0.587 + b * number_for 0.114"

definition grayscale_pixel :: "int \<Rightarrow> 8 word list \<Rightarrow> 8 word list" where
  "grayscale_pixel i d =
     (let gray = weighted_gray (get_byte d i) (get_byte d (i + 1)) (get_byte d (i + 2))
      in set_rgb d i gray gray gray)"

definition grayscale :: "image_data \<Rightarrow> js_error + image_data" where
  "grayscale bitmap =
     (case getImageData bitmap of
        Inl err \<Rightarrow> Inl (rethrow ''Failed to apply grayscale: '' err)
      | Inr imageData \<Rightarrow>
          Inr (putImageData bitmap
                 (imageData\<lparr>img_data :=
                    fold grayscale_pixel (pixel_offsets (img_data imageData)) (img_data imageData)\<rparr>)))"

text \<open>Invert. The method has no \<^verbatim>\<open>try\<close> block.\<close>

definition invert_pixel :: "int \<Rightarrow> 8 word list \<Rightarrow> 8 word list" where
  "invert_pixel i d =
     (let d1 = set_byte d i (Fin 255 - get_byte d i);
          d2 = set_byte d1 (i + 1) (Fin 255 - get_byte d1 (i + 1))
      in set_byte d2 (i + 2) (Fin 255 - get_byte d2 (i + 2)))"

definition invert :: "image_data \<Rightarrow> js_error + image_data" where
  "invert bitmap =
     (case getImageData bitmap of
        Inl err \<Rightarrow> Inl err
      | Inr imageData \<Rightarrow>
          Inr (putImageData bitmap
                 (imageData\<lparr>img_data :=
                    fold invert_pixel (pixel_offsets (img_data imageData)) (img_data imageData)\<rparr>)))"

text \<open>Threshold.\<close>

definition threshold_pixel :: "jsnum \<Rightarrow> int \<Rightarrow> 8 word list \<Rightarrow> 8 word list" where
  "threshold_pixel cutoff i d =
     (let gray = weighted_gray (get_byte d i) (get_byte d (i + 1)) (get_byte d (i + 2));
          binary = (if js_gt gray cutoff then Fin 255 else Fin 0)
      in set_rgb d i binary binary binary)"

definition threshold :: "jsnum \<Rightarrow> image_data \<Rightarrow> js_error + image_data" where
  "threshold cutoff bitmap =
     (case getImageData bitmap of
        Inl err \<Rightarrow> Inl (rethrow ''Failed to apply threshold: '' err)
      | Inr imageData \<Rightarrow>
          Inr (putImageData bitmap
                 (imageData\<lparr>img_data :=
                    fold (threshold_pixel cutoff) (pixel_offsets (img_data imageData))
                      (img_data imageData)\<rparr>)))"

section \<open>ImageProcessor: the filters on neighbourhoods\<close>

text \<open>
  The pixels visited by
  \<^verbatim>\<open>for (y = half; y < height - half; y++) for (x = half; x < width - half; x++)\<close>, in
  order, and the offsets visited by the two loops over a square window.
\<close>

definition interior_pixels :: "int \<Rightarrow> int \<Rightarrow> int \<Rightarrow> (int \<times> int) list" where
  "interior_pixels half width height =
     List.product [half..height - half - 1] [half..width - half - 1]"

definition window_offsets :: "int \<Rightarrow> int \<Rightarrow> (int \<times> int) list" where
  "window_offsets lo hi = List.product [lo..hi] [lo..hi]"

text \<open>
  An element of an ordinary array of numbers, \<^verbatim>\<open>undefined\<close> outside the array.
\<close>

definition number_at :: "jsnum list \<Rightarrow> int \<Rightarrow> jsnum" where
  "number_at xs i = (if 0 \<le> i \<and> i < int (length xs) then xs ! nat i else NaN)"

text \<open>
  Median filter. The values pushed into the three arrays are bytes, or \<^verbatim>\<open>undefined\<close> for a
  read outside the buffer; \<^verbatim>\<open>sort((a, b) => a - b)\<close> puts the numbers in ascending order
  and \<^verbatim>\<open>undefined\<close> after them.
\<close>

definition sort_numeric :: "jsnum list \<Rightarrow> jsnum list" where
  "sort_numeric vs = map Fin (sort [x. Fin x \<leftarrow> vs]) @ [v \<leftarrow> vs. v = NaN]"

definition median_pixel :: "8 word list \<Rightarrow> int \<Rightarrow> int \<Rightarrow> int \<times> int \<Rightarrow> 8 word list \<Rightarrow> 8 word list" where
  "median_pixel data width halfKernel p newData =
     (case p of (y, x) \<Rightarrow>
        (let idx = (y * width + x) * 4;
             window = window_offsets (- halfKernel) halfKernel;
             rValues = map (\<lambda>(ky, kx). get_byte data (((y + ky) * width + (x + kx)) * 4)) window;
             gValues = map (\<lambda>(ky, kx). get_byte data (((y + ky) * width + (x + kx)) * 4 + 1)) window;
             bValues = map (\<lambda>(ky, kx). get_byte data (((y + ky) * width + (x + kx)) * 4 + 2)) window;
             medianIdx = int (length rValues div 2)
         in set_rgb newData idx
              (number_at (sort_numeric rValues) medianIdx)
              (number_at (sort_numeric gValues) medianIdx)
              (number_at (sort_numeric bValues) medianIdx)))"

definition medianFilter :: "real \<Rightarrow> image_data \<Rightarrow> js_error + image_data" where
  "medianFilter kernelSize bitmap =
     (case getImageData bitmap of
        Inl err \<Rightarrow> Inl (rethrow ''Failed to apply median filter: '' err)
      | Inr imageData \<Rightarrow>
          (let data = img_data imageData;
               width = int (img_width imageData);
               height = int (img_height imageData);
               halfKernel = \<lfloor>kernelSize / 2\<rfloor>;
               newData = fold (median_pixel data width halfKernel)
                           (interior_pixels halfKernel width height) data
           in Inr (putImageData bitmap (imageData\<lparr>img_data := newData\<rparr>))))"

text \<open>
  Sobel edge detection. The gradients are taken on the red channel of the grayscale
  image that \<^verbatim>\<open>this.grayscale()\<close> leaves on the canvas; the result is written over a
  copy of the bytes read before the grayscale pass. The engine's \<^verbatim>\<open>Math.sqrt\<close> is the
  parameter \<open>Math_sqrt\<close>.
\<close>

definition sobelX :: "int list list" where
  "sobelX = [[- 1, 0, 1], [- 2, 0, 2], [- 1, 0, 1]]"

definition sobelY :: "int list list" where
  "sobelY = [[- 1, - 2, - 1], [0, 0, 0], [1, 2, 1]]"

definition sobel_pixel ::
  "(jsnum \<Rightarrow> jsnum) \<Rightarrow> 8 word list \<Rightarrow> int \<Rightarrow> int \<times> int \<Rightarrow> 8 word list \<Rightarrow> 8 word list" where
  "sobel_pixel Math_sqrt grayData width p newData =
     (case p of (y, x) \<Rightarrow>
        (let idx = (y * width + x) * 4;
             window = window_offsets (- 1) 1;
             gx = fold (\<lambda>(ky, kx) acc.
                     acc + get_byte grayData (((y + ky) * width + (x + kx)) * 4)
                             * Fin (real_of_int (sobelX ! nat (ky + 1) ! nat (kx + 1))))
                   window (Fin 0);
             gy = fold (\<lambda>(ky, kx) acc.
                     acc + get_byte grayData (((y + ky) * width + (x + kx)) * 4)
                             * Fin (real_of_int (sobelY ! nat (ky + 1) ! nat (kx + 1))))
                   window (Fin 0);
             magnitude = Math_sqrt (gx * gx + gy * gy);
             edgeValue = Math_min (Fin 255) magnitude
         in set_rgb newData idx edgeValue edgeValue edgeValue))"

definition sobelEdgeDetection :: "(jsnum \<Rightarrow> jsnum) \<Rightarrow> image_data \<Rightarrow> js_error + image_data" where
  "sobelEdgeDetection Math_sqrt bitmap =
     (case getImageData bitmap of
        Inl err \<Rightarrow> Inl (rethrow ''Failed to apply Sobel edge detection: '' err)
      | Inr imageData \<Rightarrow>
          (case grayscale bitmap of
             Inl err \<Rightarrow> Inl (rethrow ''Failed to apply Sobel edge detection: '' err)
           | Inr gray_bitmap \<Rightarrow>
               (case getImageData gray_bitmap of
                  Inl err \<Rightarrow> Inl (rethrow ''Failed to apply Sobel edge detection: '' err)
                | Inr grayImage \<Rightarrow>
                    (let data = img_data imageData;
                         width = int (img_width imageData);
                         height = int (img_height imageData);
                         grayData = img_data grayImage;
                         newData = fold (sobel_pixel Math_sqrt grayData width)
                                     (interior_pixels 1 width height) data
                     in Inr (putImageData gray_bitmap (imageData\<lparr>img_data := newData\<rparr>))))))"

text \<open>
  Histogram equalization: the histogram of the red channel of the grayscale image, its
  running sums, their normalisation, and the mapping of every pixel.
\<close>

definition count_gray :: "8 word list \<Rightarrow> int \<Rightarrow> nat list \<Rightarrow> nat list" where
  "count_gray grayData i histogram =
     (case byte_at grayData i of
        None \<Rightarrow> histogram
      | Some g \<Rightarrow> histogram[unat g := histogram ! unat g + 1])"

fun running_sums :: "nat \<Rightarrow> nat list \<Rightarrow> nat list" where
  "running_sums acc [] = []"
| "running_sums acc (h # hs) = (acc + h) # running_sums (acc + h) hs"

definition equalize_pixel :: "8 word list \<Rightarrow> jsnum list \<Rightarrow> int \<Rightarrow> 8 word list \<Rightarrow> 8 word list" where
  "equalize_pixel grayData cdf i d =
     (let newValue =
            (case byte_at grayData i of
               None \<Rightarrow> NaN
             | Some gray \<Rightarrow> Math_round (number_at cdf (int (unat gray))))
      in set_rgb d i newValue newValue newValue)"

definition histogramEqualization :: "image_data \<Rightarrow> js_error + image_data" where
  "histogramEqualization bitmap =
     (case getImageData bitmap of
        Inl err \<Rightarrow> Inl (rethrow ''Failed to apply histogram equalization: '' err)
      | Inr imageData \<Rightarrow>
          (case grayscale bitmap of
             Inl err \<Rightarrow> Inl (rethrow ''Failed to apply histogram equalization: '' err)
           | Inr gray_bitmap \<Rightarrow>
               (case getImageData gray_bitmap of
                  Inl err \<Rightarrow> Inl (rethrow ''Failed to apply histogram equalization: '' err)
                | Inr grayImage \<Rightarrow>
                    (let data = img_data imageData;
                         grayData = img_data grayImage;
                         histogram = fold (count_gray grayData) (pixel_offsets grayData)
                                       (replicate 256 0);
                         cdf_raw = running_sums 0 histogram;
                         cdfMin = (case find (\<lambda>val. 0 < val) cdf_raw of
                                     None \<Rightarrow> NaN | Some val \<Rightarrow> Fin (real val));
                         cdfMax = number_at (map (\<lambda>val. Fin (real val)) cdf_raw) 255;
                         cdf = map (\<lambda>val. js_div (Fin (real val) - cdfMin) (cdfMax - cdfMin) * Fin 255)
                                 cdf_raw;
                         newData = fold (equalize_pixel grayData cdf) (pixel_offsets data) data
                     in Inr (putImageData gray_bitmap (imageData\<lparr>img_data := newData\<rparr>))))))"

text \<open>Noise reduction: the mean of the 3 by 3 window.\<close>

definition noise_pixel :: "8 word list \<Rightarrow> int \<Rightarrow> int \<times> int \<Rightarrow> 8 word list \<Rightarrow> 8 word list" where
  "noise_pixel data width p newData =
     (case p of (y, x) \<Rightarrow>
        (let idx = (y * width + x) * 4;
             window = window_offsets (- 1) 1;
             r = fold (\<lambda>(ky, kx) acc. acc + get_byte data (((y + ky) * width + (x + kx)) * 4))
                   window (Fin 0);
             g = fold (\<lambda>(ky, kx) acc. acc + get_byte data (((y + ky) * width + (x + kx)) * 4 + 1))
                   window (Fin 0);
             b = fold (\<lambda>(ky, kx) acc. acc + get_byte data (((y + ky) * width + (x + kx)) * 4 + 2))
                   window (Fin 0)
         in set_rgb newData idx
              (Math_round (js_div r (Fin 9))) (Math_round (js_div g (Fin 9)))
              (Math_round (js_div b (Fin 9)))))"

definition noiseReduction :: "image_data \<Rightarrow> js_error + image_data" where
  "noiseReduction bitmap =
     (case getImageData bitmap of
        Inl err \<Rightarrow> Inl (rethrow ''Failed to apply noise reduction: '' err)
      | Inr imageData \<Rightarrow>
          (let data = img_data imageData;
               width = int (img_width imageData);
               height = int (img_height imageData);
               newData = fold (noise_pixel data width) (interior_pixels 1 width height) data
           in Inr (putImageData bitmap (imageData\<lparr>img_data := newData\<rparr>))))"

text \<open>
  Convolution with a kernel given as an array of rows. A kernel entry that does not
  exist is \<^verbatim>\<open>undefined\<close>.
\<close>

definition kernel_at :: "jsnum list list \<Rightarrow> int \<Rightarrow> int \<Rightarrow> jsnum" where
  "kernel_at kern ky kx =
     (if 0 \<le> ky \<and> ky < int (length kern) then number_at (kern ! nat ky) kx else NaN)"

definition convolve_pixel ::
  "jsnum list list \<Rightarrow> 8 word list \<Rightarrow> int \<Rightarrow> int \<Rightarrow> int \<times> int \<Rightarrow> 8 word list \<Rightarrow> 8 word list" where
  "convolve_pixel kern data width halfKernel p newData =
     (case p of (y, x) \<Rightarrow>
        (let idx = (y * width + x) * 4;
             window = window_offsets 0 (int (length kern) - 1);
             r = fold (\<lambda>(ky, kx) acc.
                    acc + get_byte data (((y + ky - halfKernel) * width + (x + kx - halfKernel)) * 4)
                            * kernel_at kern ky kx) window (Fin 0);
             g = fold (\<lambda>(ky, kx) acc.
                    acc + get_byte data (((y + ky - halfKernel) * width + (x + kx - halfKernel)) * 4 + 1)
                            * kernel_at kern ky kx) window (Fin 0);
             b = fold (\<lambda>(ky, kx) acc.
                    acc + get_byte data (((y + ky - halfKernel) * width + (x + kx - halfKernel)) * 4 + 2)
                            * kernel_at kern ky kx) window (Fin 0)
         in set_rgb newData idx
              (Math_max (Fin 0) (Math_min (Fin 255) (Math_round r)))
              (Math_max (Fin 0) (Math_min (Fin 255) (Math_round g)))
              (Math_max (Fin 0) (Math_min (Fin 255) (Math_round b)))))"

definition applyConvolution :: "jsnum list list \<Rightarrow> image_data \<Rightarrow> js_error + image_data" where
  "applyConvolution kern bitmap =
     (case getImageData bitmap of
        Inl err \<Rightarrow> Inl (rethrow ''Failed to apply convolution: '' err)
      | Inr imageData \<Rightarrow>
          (let data = img_data imageData;
               width = int (img_width imageData);
               height = int (img_height imageData);
               kernelSize = int (length kern);
               halfKernel = kernelSize div 2;
               newData = fold (convolve_pixel kern data width halfKernel)
                           (interior_pixels halfKernel width height) data
           in Inr (putImageData bitmap (imageData\<lparr>img_data := newData\<rparr>))))"

text \<open>
  Gaussian blur. The size and sigma are finite numbers; the kernel has one row for every
  \<^verbatim>\<open>i = 0, 1, ...\<close> below the size, and its entries are
  \<^verbatim>\<open>Math.exp(-(x * x + y * y) / (2 * sigma * sigma))\<close> divided by their sum. The engine's
  \<^verbatim>\<open>Math.exp\<close> is the parameter \<open>Math_exp\<close>.
\<close>

definition createGaussianKernel :: "(jsnum \<Rightarrow> jsnum) \<Rightarrow> real \<Rightarrow> real \<Rightarrow> jsnum list list" where
  "createGaussianKernel Math_exp ksize sigma =
     (let center = \<lfloor>ksize / 2\<rfloor>;
          indices = [0..\<lceil>ksize\<rceil> - 1];
          entry = (\<lambda>i j. (let x = Fin (real_of_int i) - Fin (real_of_int center);
                                y = Fin (real_of_int j) - Fin (real_of_int center)
                            in Math_exp (js_div (- (x * x + y * y))
                                           (Fin 2 * Fin sigma * Fin sigma))));
          total = fold (\<lambda>(i, j) acc. acc + entry i j) (List.product indices indices) (Fin 0)
      in map (\<lambda>i. map (\<lambda>j. js_div (entry i j) total) indices) indices)"

definition gaussianBlur ::
  "(jsnum \<Rightarrow> jsnum) \<Rightarrow> real \<Rightarrow> real \<Rightarrow> image_data \<Rightarrow> js_error + image_data" where
  "gaussianBlur Math_exp kernelSize sigma bitmap =
     (case applyConvolution (createGaussianKernel Math_exp kernelSize sigma) bitmap of
        Inl err \<Rightarrow> Inl (rethrow ''Failed to apply Gaussian blur: '' err)
      | Inr result \<Rightarrow> Inr result)"

text \<open>Sharpening.\<close>

definition sharpen_kernel :: "jsnum list list" where
  "sharpen_kernel =
     [[Fin 0, Fin (- 1), Fin 0], [Fin (- 1), Fin 5, Fin (- 1)], [Fin 0, Fin (- 1), Fin 0]]"

definition sharpen :: "image_data \<Rightarrow> js_error + image_data" where
  "sharpen bitmap =
     (case applyConvolution sharpen_kernel bitmap of
        Inl err \<Rightarrow> Inl (rethrow ''Failed to apply sharpening: '' err)
      | Inr result \<Rightarrow> Inr result)"

text \<open>
  Erosion and dilation. The two loops over the window, with their \<^verbatim>\<open>break\<close>, set the
  result to black (erosion) as soon as a pixel of the window has a red byte equal to 0 in
  the thresholded image, and to white (dilation) as soon as one has a red byte equal to
  255. Any operation other than \<^verbatim>\<open>'erosion'\<close> is a dilation.
\<close>

definition morphological_pixel ::
  "string \<Rightarrow> 8 word list \<Rightarrow> int \<Rightarrow> int \<Rightarrow> int \<times> int \<Rightarrow> 8 word list \<Rightarrow> 8 word list" where
  "morphological_pixel operation binaryData width halfKernel p newData =
     (case p of (y, x) \<Rightarrow>
        (let idx = (y * width + x) * 4;
             window = window_offsets (- halfKernel) halfKernel;
             result =
               (if operation = ''erosion''
                then (if list_ex (\<lambda>(ky, kx). byte_at binaryData (((y + ky) * width + (x + kx)) * 4) = Some 0)
                           window
                      then Fin 0 else Fin 255)
                else (if list_ex (\<lambda>(ky, kx). byte_at binaryData (((y + ky) * width + (x + kx)) * 4) = Some 255)
                           window
                      then Fin 255 else Fin 0))
         in set_rgb newData idx result result result))"

definition morphologicalOperation :: "string \<Rightarrow> real \<Rightarrow> image_data \<Rightarrow> js_error + image_data" where
  "morphologicalOperation operation kernelSize bitmap =
     (case getImageData bitmap of
        Inl err \<Rightarrow> Inl (rethrow ''Failed to apply morphological operation: '' err)
      | Inr imageData \<Rightarrow>
          (case threshold (Fin 128) bitmap of
             Inl err \<Rightarrow> Inl (rethrow ''Failed to apply morphological operation: '' err)
           | Inr binary_bitmap \<Rightarrow>
               (case getImageData binary_bitmap of
                  Inl err \<Rightarrow> Inl (rethrow ''Failed to apply morphological operation: '' err)
                | Inr binaryImage \<Rightarrow>
                    (let data = img_data imageData;
                         width = int (img_width imageData);
                         height = int (img_height imageData);
                         halfKernel = \<lfloor>kernelSize / 2\<rfloor>;
                         binaryData = img_data binaryImage;
                         newData = fold (morphological_pixel operation binaryData width halfKernel)
                                     (interior_pixels halfKernel width height) data
                     in Inr (putImageData binary_bitmap (imageData\<lparr>img_data := newData\<rparr>))))))"

definition erosion :: "real \<Rightarrow> image_data \<Rightarrow> js_error + image_data" where
  "erosion kernelSize bitmap =
     (case morphologicalOperation ''erosion'' kernelSize bitmap of
        Inl err \<Rightarrow> Inl (rethrow ''Failed to apply erosion: '' err)
      | Inr result \<Rightarrow> Inr result)"

definition dilation :: "real \<Rightarrow> image_data \<Rightarrow> js_error + image_data" where
  "dilation kernelSize bitmap =
     (case morphologicalOperation ''dilation'' kernelSize bitmap of
        Inl err \<Rightarrow> Inl (rethrow ''Failed to apply dilation: '' err)
      | Inr result \<Rightarrow> Inr result)"

text \<open>
  What a filter may do to the canvas it is applied to: on a canvas without pixels it
  throws and the canvas stays as it is; otherwise it returns, the size of the canvas and
  of its buffer stay the same, and every byte at an index \<open>4 k + 3\<close> (the alpha byte of
  pixel \<open>k\<close>) is the byte that was there before.
\<close>

definition alpha_kept :: "8 word list \<Rightarrow> 8 word list \<Rightarrow> bool" where
  "alpha_kept d d' =
     (length d' = length d \<and> (\<forall>i < length d. i mod 4 = 3 \<longrightarrow> d' ! i = d ! i))"

definition keeps_alpha :: "image_data \<Rightarrow> js_error + image_data \<Rightarrow> bool" where
  "keeps_alpha bitmap result =
     (if img_width bitmap = 0 \<or> img_height bitmap = 0 then (\<exists>err. result = Inl err)
      else (\<exists>out. result = Inr out \<and> img_width out = img_width bitmap
              \<and> img_height out = img_height bitmap
              \<and> alpha_kept (img_data bitmap) (img_data out)))"

text \<open>
  The luminance of three colour bytes as the specification words it:
  \<open>0.299 R + 0.587 G + 0.114 B\<close>, a real number. It is compared with what the grayscale
  filter stores.
\<close>

definition luminance :: "8 word \<Rightarrow> 8 word \<Rightarrow> 8 word \<Rightarrow> real" where
  "luminance r g b = 0.299 * real (unat r) + 0.587 * real (unat g) + 0.114 * real (unat b)"

text \<open>
  The byte the grayscale filter stores in the three colour channels of a pixel with the
  colour bytes \<open>r\<close>, \<open>g\<close>, \<open>b\<close>: its gray value, converted as the buffer converts it.
\<close>

definition stored_gray :: "8 word \<Rightarrow> 8 word \<Rightarrow> 8 word \<Rightarrow> 8 word" where
  "stored_gray r g b =
     toUint8Clamp (weighted_gray (Fin (real (unat r))) (Fin (real (unat g))) (Fin (real (unat b))))"

text \<open>
  An engine for concrete runs. Its square root is rounded to the nearest number: with
  \<open>e\<close> the exponent of the root (\<open>4\<^sup>e \<le> x < 4\<^sup>e\<^sup>+\<^sup>1\<close>) and \<open>u = 2\<^sup>e\<^sup>-\<^sup>5\<^sup>2\<close>, the integer part
  \<open>n\<close> of the root of \<open>x / u\<^sup>2\<close> is found bit by bit, and the result is \<open>n u\<close> or \<open>(n + 1) u\<close>,
  whichever is nearer to the root (the even one at a tie).
\<close>

fun sqrt_bits :: "nat \<Rightarrow> int \<Rightarrow> int \<Rightarrow> int" where
  "sqrt_bits k r y =
     (if k = 0 then r
      else sqrt_bits (k - 1) (if (r + 2 ^ (k - 1)) * (r + 2 ^ (k - 1)) \<le> y then r + 2 ^ (k - 1) else r) y)"

declare sqrt_bits.simps [simp del]

function root_exponent_up :: "int \<Rightarrow> real \<Rightarrow> int" where
  "root_exponent_up e x =
     (if x < pow2 (2 * (e + 1)) \<or> 511 \<le> e then e else root_exponent_up (e + 1) x)"
  by pat_completeness auto
termination
  by (relation "measure (\<lambda>(e, x). nat (511 - e))") auto

function root_exponent_down :: "int \<Rightarrow> real \<Rightarrow> int" where
  "root_exponent_down e x =
     (if pow2 (2 * e) \<le> x \<or> e \<le> - 538 then e else root_exponent_down (e - 1) x)"
  by pat_completeness auto
termination
  by (relation "measure (\<lambda>(e, x). nat (e + 538))") auto

declare root_exponent_up.simps [simp del] root_exponent_down.simps [simp del]

definition nearest_root :: "real \<Rightarrow> int \<Rightarrow> int" where
  "nearest_root y n =
     (if y < (real_of_int n + 1 / 2) * (real_of_int n + 1 / 2) then n
      else if (real_of_int n + 1 / 2) * (real_of_int n + 1 / 2) < y then n + 1
      else if even n then n else n + 1)"

definition root_in_units :: "real \<Rightarrow> real \<Rightarrow> real" where
  "root_in_units x u =
     real_of_int (nearest_root (x / (u * u)) (sqrt_bits 64 0 \<lfloor>x / (u * u)\<rfloor>)) * u"

definition rounded_sqrt :: "real \<Rightarrow> real" where
  "rounded_sqrt x =
     (if x \<le> 0 then 0
      else root_in_units x
             (pow2 ((if 1 \<le> x then root_exponent_up 0 x else root_exponent_down 0 x) - 52)))"

text \<open>
  The power of the sample engine is the rounded square when the exponent is 2 (the
  component passes no other exponent) and \<^verbatim>\<open>NaN\<close> otherwise. It prints the values that are
  not finite, and the empty string for a finite number. \<open>at_time t\<close> is that engine with
  the clock at \<open>t\<close> milliseconds.
\<close>

definition at_time :: "int \<Rightarrow> environment" where
  "at_time t =
     \<lparr>date_now = t,
      number_toString = (\<lambda>v. case v of Fin x \<Rightarrow> [] | PInf \<Rightarrow> ''Infinity''
                                    | NInf \<Rightarrow> ''-Infinity'' | NaN \<Rightarrow> ''NaN''),
      math_sqrt = (\<lambda>v. case v of Fin x \<Rightarrow> if x < 0 then NaN else Fin (rounded_sqrt x)
                              | PInf \<Rightarrow> PInf | NInf \<Rightarrow> NaN | NaN \<Rightarrow> NaN),
      math_pow = (\<lambda>v w. if w = Fin 2 then v * v else NaN)\<rparr>"

text \<open>A leader record with no shapes, used where a statement needs a concrete record.\<close>

definition sample_annotation :: "int \<Rightarrow> annotation" where
  "sample_annotation n =
     \<lparr>ann_id = n, ann_type = ''leader'', ann_tool = Some ''leader'', ann_objects = [],
      ann_data = LeaderData \<lparr>px = Fin 0, py = Fin 0\<rparr>,
      ann_styles = \<lparr>textSize = None, textColor = None, lineColor = None, lineWidth = None,
                    arrowSize = None, dimensionPrecision = None\<rparr>\<rparr>"

section \<open>Properties of the number model\<close>

lemma pow2_pos: "0 < pow2 e"
  by (simp add: pow2_def)

lemma pow2_powr: "pow2 e = 2 powr (real_of_int e)"
proof (cases "0 \<le> e")
  case True
  have "(2::real) powr real (nat e) = 2 ^ nat e" by (rule powr_realpow) simp
  moreover have "real (nat e) = real_of_int e" using True by simp
  ultimately show ?thesis using True by (simp add: pow2_def)
next
  case False
  have "(2::real) powr real (nat (- e)) = 2 ^ nat (- e)" by (rule powr_realpow) simp
  moreover have "real (nat (- e)) = - real_of_int e" using False by simp
  ultimately have "(2::real) ^ nat (- e) = 2 powr (- real_of_int e)" by simp
  then show ?thesis using False by (simp add: pow2_def powr_minus divide_inverse)
qed

lemma pow2_add: "pow2 (a + b) = pow2 a * pow2 b"
  by (simp add: pow2_powr powr_add)

lemma pow2_mono: "a \<le> b \<Longrightarrow> pow2 a \<le> pow2 b"
  by (simp add: pow2_powr)

lemma pow2_less_iff: "pow2 a < pow2 b \<longleftrightarrow> a < b"
  by (simp add: pow2_powr)

lemma exponent_up_le: "e \<le> k \<Longrightarrow> a < pow2 (k + 1) \<Longrightarrow> exponent_up e a \<le> k"
proof (induction e a rule: exponent_up.induct)
  case (1 e a)
  show ?case
  proof (cases "a < pow2 (e + 1) \<or> 1023 \<le> e")
    case True
    then show ?thesis using 1(2) by (subst exponent_up.simps) simp
  next
    case False
    then have "pow2 (e + 1) \<le> a" by simp
    with 1(3) have "pow2 (e + 1) < pow2 (k + 1)" by simp
    then have "e + 1 \<le> k" by (simp add: pow2_less_iff)
    from 1(1) [OF False this 1(3)] show ?thesis
      using False by (subst exponent_up.simps) simp
  qed
qed

lemma exponent_up_ge: "e \<le> exponent_up e a"
proof (induction e a rule: exponent_up.induct)
  case (1 e a)
  show ?case
  proof (cases "a < pow2 (e + 1) \<or> 1023 \<le> e")
    case True
    then show ?thesis by (subst exponent_up.simps) simp
  next
    case False
    from 1 [OF False] show ?thesis
      using False by (subst exponent_up.simps) simp
  qed
qed

lemma exponent_up_lower: "pow2 e \<le> a \<Longrightarrow> pow2 (exponent_up e a) \<le> a"
proof (induction e a rule: exponent_up.induct)
  case (1 e a)
  show ?case
  proof (cases "a < pow2 (e + 1) \<or> 1023 \<le> e")
    case True
    then show ?thesis using 1(2) by (subst exponent_up.simps) simp
  next
    case False
    then have "pow2 (e + 1) \<le> a" by simp
    from 1(1) [OF False this] show ?thesis
      using False by (subst exponent_up.simps) simp
  qed
qed

lemma exponent_down_le: "exponent_down e a \<le> e"
proof (induction e a rule: exponent_down.induct)
  case (1 e a)
  show ?case
  proof (cases "pow2 e \<le> a \<or> e \<le> - 1022")
    case True
    then show ?thesis by (subst exponent_down.simps) simp
  next
    case False
    from 1 [OF False] show ?thesis
      using False by (subst exponent_down.simps) simp
  qed
qed

lemma exponent_of_le: "0 \<le> k \<Longrightarrow> a < pow2 (k + 1) \<Longrightarrow> exponent_of a \<le> k"
  using exponent_up_le [of 0 k a] exponent_down_le [of 0 a]
  by (simp add: exponent_of_def)

lemma round_half_even_int: "round_half_even (real_of_int n) = n"
  by (simp add: round_half_even_def)

lemma round_half_even_near: "\<bar>real_of_int (round_half_even x) - x\<bar> \<le> 1 / 2"
proof -
  have "real_of_int \<lfloor>x\<rfloor> \<le> x" "x < real_of_int \<lfloor>x\<rfloor> + 1" by linarith+
  then show ?thesis
    unfolding round_half_even_def by (simp split: if_splits)
qed

lemma scaled_near:
  assumes "0 < u" and "\<bar>N - a / u\<bar> \<le> 1 / 2"
  shows "\<bar>N * u - a\<bar> \<le> u / (2::real)"
proof -
  have "N * u - a = (N - a / u) * u" using assms(1) by (simp add: field_simps)
  then have "\<bar>N * u - a\<bar> = \<bar>N - a / u\<bar> * u" using assms(1) by (simp add: abs_mult)
  also have "\<dots> \<le> 1 / 2 * u" using assms by (intro mult_right_mono) simp_all
  finally show ?thesis by simp
qed

text \<open>
  The number for a real number of magnitude below \<open>2\<^sup>k\<^sup>+\<^sup>1\<close> is finite and differs from it
  by at most \<open>2\<^sup>k\<^sup>-\<^sup>5\<^sup>3\<close>.
\<close>

lemma number_for_near:
  assumes "0 \<le> k" "k \<le> 1000" "\<bar>x\<bar> < pow2 (k + 1)"
  shows "\<exists>y. number_for x = Fin y \<and> \<bar>y - x\<bar> \<le> pow2 (k - 53)"
proof -
  let ?a = "\<bar>x\<bar>"
  let ?u = "pow2 (exponent_of ?a - 52)"
  let ?r = "round_to_multiple ?a ?u"
  have e: "exponent_of ?a \<le> k" using assms(1,3) by (rule exponent_of_le)
  have u: "0 < ?u" by (rule pow2_pos)
  have "?u \<le> pow2 (k - 52)" using e by (intro pow2_mono) simp
  also have "\<dots> = 2 * pow2 (k - 53)" using pow2_add [of 1 "k - 53"] by (simp add: pow2_def)
  finally have ub: "?u / 2 \<le> pow2 (k - 53)" by simp
  have near: "\<bar>?r - ?a\<bar> \<le> ?u / 2"
    unfolding round_to_multiple_def using u round_half_even_near by (rule scaled_near)
  with ub have near': "\<bar>?r - ?a\<bar> \<le> pow2 (k - 53)" by simp
  have "pow2 (k - 53) \<le> pow2 (k + 1)" by (intro pow2_mono) simp
  with near' assms(3) have "?r < 2 * pow2 (k + 1)" by linarith
  also have "\<dots> = pow2 (k + 2)" using pow2_add [of 1 "k + 1"] by (simp add: pow2_def add.commute)
  also have "\<dots> \<le> pow2 1024" using assms(2) by (intro pow2_mono) simp
  finally have fin: "\<not> pow2 1024 \<le> ?r" by simp
  show ?thesis
  proof (cases "x < 0")
    case True
    then have "number_for x = Fin (- ?r)" using fin by (simp add: number_for_def signed_or_infinite_def)
    moreover have "\<bar>- ?r - x\<bar> = \<bar>?r - ?a\<bar>" using True by simp
    ultimately show ?thesis using near' by simp
  next
    case False
    then have "number_for x = Fin ?r" using fin by (simp add: number_for_def signed_or_infinite_def)
    moreover have "\<bar>?r - x\<bar> = \<bar>?r - ?a\<bar>" using False by simp
    ultimately show ?thesis using near' by simp
  qed
qed

text \<open>
  Every integer of magnitude up to \<open>2\<^sup>5\<^sup>3\<close> is a number: arithmetic on such integers is
  exact as long as the results stay in that range.
\<close>

lemma number_for_int:
  assumes "\<bar>n\<bar> \<le> 2 ^ 53"
  shows "number_for (real_of_int n) = Fin (real_of_int n)"
proof -
  let ?a = "\<bar>real_of_int n\<bar>"
  let ?e = "exponent_of ?a"
  let ?u = "pow2 (?e - 52)"
  have a: "?a = real_of_int \<bar>n\<bar>" by simp
  have le: "?a \<le> 2 ^ 53" using assms by (simp add: a del: of_int_abs) 
  have "?a < pow2 (53 + 1)" using le by (simp add: pow2_def)
  then have e53: "?e \<le> 53" by (intro exponent_of_le) simp_all
  have ex: "\<exists>m. ?a / ?u = real_of_int m"
  proof (cases "?e \<le> 52")
    case True
    then have "?u = 1 / 2 ^ nat (52 - ?e)" by (simp add: pow2_def)
    then have "?a / ?u = real_of_int (\<bar>n\<bar> * 2 ^ nat (52 - ?e))" by (simp add: a del: of_int_abs)
    then show ?thesis ..
  next
    case False
    with e53 have e: "?e = 53" by simp
    have "1 \<le> ?a"
    proof (rule ccontr)
      assume "\<not> 1 \<le> ?a"
      then have "(if 1 \<le> ?a then exponent_up 0 ?a else exponent_down 0 ?a) = exponent_down 0 ?a"
        by (rule if_not_P)
      then have "?e = exponent_down 0 ?a" by (simp only: exponent_of_def)
      with exponent_down_le [of 0 ?a] e show False by simp
    qed
    then have "(if 1 \<le> ?a then exponent_up 0 ?a else exponent_down 0 ?a) = exponent_up 0 ?a"
      and "pow2 0 \<le> ?a" by (simp_all only: if_P pow2_def) simp_all
    then have "?e = exponent_up 0 ?a" "pow2 0 \<le> ?a" by (simp_all only: exponent_of_def)
    with exponent_up_lower [of 0 ?a] e have "pow2 53 \<le> ?a" by simp
    with le have "?a = 2 ^ 53" by (simp add: pow2_def)
    moreover have "?u = 2" using e by (simp add: pow2_def)
    ultimately have "?a / ?u = real_of_int (2 ^ 52)" by simp
    then show ?thesis ..
  qed
  then obtain m where m: "?a / ?u = real_of_int m" ..
  have u: "0 < ?u" by (rule pow2_pos)
  have "round_to_multiple ?a ?u = real_of_int m * ?u"
    by (simp only: round_to_multiple_def m round_half_even_int)
  also have "\<dots> = ?a" using m u by (simp add: field_simps)
  finally have r: "round_to_multiple ?a ?u = ?a" .
  have "?a < pow2 1024" using le by (simp add: pow2_def)
  then show ?thesis
    by (simp add: number_for_def r signed_or_infinite_def)
qed

lemma number_for_numeral [simp]:
  "numeral k \<le> (9007199254740992::int) \<Longrightarrow> number_for (numeral k) = Fin (numeral k)"
  using number_for_int [of "numeral k"] by simp

lemma number_for_neg_numeral [simp]:
  "numeral k \<le> (9007199254740992::int) \<Longrightarrow> number_for (- numeral k) = Fin (- numeral k)"
  using number_for_int [of "- numeral k"] by simp

lemma number_for_0 [simp]: "number_for 0 = Fin 0"
  using number_for_int [of 0] by simp

lemma number_for_1 [simp]: "number_for 1 = Fin 1"
  using number_for_int [of 1] by simp

section \<open>Properties of the annotation history\<close>


lemma wf_add_to_history: "wf_state s \<Longrightarrow> wf_state (add_to_history new s)"
  by (auto simp: wf_state_def add_to_history_def Let_def js_slice_def nth_append min_def split: if_splits)

lemma wf_handleUndo: "wf_state s \<Longrightarrow> wf_state (handleUndo s)"
  by (auto simp: wf_state_def handleUndo_def Let_def split: if_splits)

lemma wf_handleRedo: "wf_state s \<Longrightarrow> wf_state (handleRedo s)"
  by (auto simp: wf_state_def handleRedo_def Let_def nat_add_distrib split: if_splits)

lemma wf_mount: "wf_state (mount init)"
  by (simp add: wf_state_def mount_def initialize_history_def initial_state_def)

lemma wf_apply_store_op: "wf_state s \<Longrightarrow> wf_state (apply_store_op op s)"
  by (cases op)
     (simp_all add: handleAnnotationAdd_def handleAnnotationUpdate_def handleAnnotationDelete_def
        wf_add_to_history wf_handleUndo wf_handleRedo)

lemma reachable_wf: "reachable s \<Longrightarrow> wf_state s"
  by (induction rule: reachable.induct) (simp_all add: wf_mount wf_apply_store_op)

lemma Suc_nat_pred: "0 < (i::int) \<Longrightarrow> Suc (nat (i - 1)) = nat i"
  by arith

lemma undo_redo_wf:
  assumes "wf_state s" "annotationHistory s \<noteq> []"
  shows "handleRedo (handleUndo s) =
     (if historyIndex s = 0 \<and> 1 < length (annotationHistory s)
      then s\<lparr>historyIndex := 1, annotations := annotationHistory s ! 1\<rparr> else s)"
proof (cases "0 < historyIndex s")
  case True
  with assms have "annotations s = annotationHistory s ! nat (historyIndex s)"
    and "historyIndex s < int (length (annotationHistory s))"
    by (simp_all add: wf_state_def)
  with True show ?thesis
    by (simp add: handleUndo_def handleRedo_def Let_def nat_add_distrib Suc_nat_pred)
next
  case False
  with assms have "historyIndex s = 0"
    by (simp add: wf_state_def)
  then show ?thesis
    by (auto simp: handleUndo_def handleRedo_def Let_def)
qed

lemma run_adds:
  "run_ops (map OpAdd as) (mount []) =
     \<lparr>annotations = as,
      annotationHistory = map (\<lambda>k. take (Suc k) as) [0..<length as],
      historyIndex = int (length as) - 1\<rparr>"
proof (induction as rule: rev_induct)
  case Nil
  show ?case
    by (simp add: run_ops_def mount_def initialize_history_def initial_state_def)
next
  case (snoc a as)
  then show ?case
    by (simp add: run_ops_def handleAnnotationAdd_def add_to_history_def js_slice_def Let_def)
qed

lemma run_undos:
  assumes "annotationHistory s \<noteq> []" "0 \<le> historyIndex s" "historyIndex s \<le> int n"
    "annotations s = annotationHistory s ! nat (historyIndex s)"
  shows "run_ops (replicate n OpUndo) s = s\<lparr>historyIndex := 0, annotations := annotationHistory s ! 0\<rparr>"
  using assms
proof (induction n arbitrary: s)
  case 0
  then show ?case by (simp add: run_ops_def)
next
  case (Suc n)
  show ?case
  proof (cases "0 < historyIndex s")
    case True
    let ?t = "handleUndo s"
    have t: "?t = s\<lparr>historyIndex := historyIndex s - 1,
                     annotations := annotationHistory s ! nat (historyIndex s - 1)\<rparr>"
      using True by (simp add: handleUndo_def Let_def)
    have "run_ops (replicate n OpUndo) ?t =
          ?t\<lparr>historyIndex := 0, annotations := annotationHistory ?t ! 0\<rparr>"
      using Suc.prems True by (intro Suc.IH) (simp_all add: t)
    then show ?thesis
      by (simp add: run_ops_def t)
  next
    case False
    with Suc.prems have z: "historyIndex s = 0" by simp
    then have u: "handleUndo s = s" by (simp add: handleUndo_def)
    have "run_ops (replicate n OpUndo) s = s\<lparr>historyIndex := 0, annotations := annotationHistory s ! 0\<rparr>"
      using Suc.prems z by (intro Suc.IH) simp_all
    then show ?thesis by (simp add: run_ops_def u)
  qed
qed

lemma adds_then_undos:
  assumes "as \<noteq> []"
  shows "annotations (run_ops (map OpAdd as @ replicate (length as) OpUndo) (mount [])) = [hd as]"
proof -
  let ?s = "run_ops (map OpAdd as) (mount [])"
  have s: "?s = \<lparr>annotations = as,
      annotationHistory = map (\<lambda>k. take (Suc k) as) [0..<length as],
      historyIndex = int (length as) - 1\<rparr>" by (rule run_adds)
  have len: "0 < length as" using assms by simp
  then have idx: "nat (int (length as) - 1) < length as" by arith
  have "run_ops (replicate (length as) OpUndo) ?s =
        ?s\<lparr>historyIndex := 0, annotations := annotationHistory ?s ! 0\<rparr>"
    using len idx by (intro run_undos) (simp_all add: s)
  moreover have "annotationHistory ?s ! 0 = take (Suc 0) as"
    using len by (simp add: s)
  moreover have "take (Suc 0) as = [hd as]"
    using assms by (cases as) simp_all
  ultimately show ?thesis
    by (simp add: run_ops_def)
qed

lemma reachable_run_ops: "reachable s \<Longrightarrow> reachable (run_ops ops s)"
proof (induction ops arbitrary: s)
  case Nil
  then show ?case by (simp add: run_ops_def)
next
  case (Cons op ops)
  from Cons.prems have "reachable (apply_store_op op s)" by (rule reach_step)
  then have "reachable (run_ops ops (apply_store_op op s))" by (rule Cons.IH)
  then show ?case by (simp add: run_ops_def)
qed



text \<open>
  Claim C1. From an empty store with an empty history, N adds followed by N undos are
  claimed to give back the empty annotation list. In the code the first add writes entry 0
  of the history and undo never moves the pointer below 0, so for every N of at least 1
  the list that is left holds the first record added.
\<close>

theorem adds_then_undos_keep_first:
  assumes "as \<noteq> []"
  shows "annotations (run_ops (map OpAdd as @ replicate (length as) OpUndo) (mount [])) = [hd as]
         \<and> annotations (run_ops (map OpAdd as @ replicate (length as) OpUndo) (mount [])) \<noteq> []"
  using adds_then_undos [OF assms] by simp

theorem adds_then_undos_keep_first_witness:
  "[sample_annotation 1, sample_annotation 2] \<noteq> []
   \<and> annotations (run_ops [OpAdd (sample_annotation 1), OpAdd (sample_annotation 2), OpUndo, OpUndo]
        (mount [])) = [sample_annotation 1]"
  using adds_then_undos_keep_first [of "[sample_annotation 1, sample_annotation 2]"]
  by (simp add: numeral_2_eq_2)

text \<open>
  Claim C2, as the code has it. In a reachable state with a non-empty history, undo
  followed by redo leaves the annotation list as it was whenever the pointer is above 0
  or the history has one entry. With the pointer at 0 and later entries in the history,
  undo does nothing and redo then moves to entry 1.
\<close>

theorem undo_then_redo_reachable:
  assumes "reachable s" "annotationHistory s \<noteq> []"
  shows "annotations (handleRedo (handleUndo s)) =
     (if historyIndex s = 0 \<and> 1 < length (annotationHistory s)
      then annotationHistory s ! 1 else annotations s)"
  using undo_redo_wf [OF reachable_wf [OF assms(1)] assms(2)] by simp

theorem undo_then_redo_reachable_witness:
  "reachable (run_ops [OpAdd (sample_annotation 1), OpAdd (sample_annotation 2)] (mount []))
   \<and> annotationHistory (run_ops [OpAdd (sample_annotation 1), OpAdd (sample_annotation 2)] (mount [])) \<noteq> []
   \<and> historyIndex (run_ops [OpAdd (sample_annotation 1), OpAdd (sample_annotation 2)] (mount [])) = 1
   \<and> annotations (handleRedo (handleUndo
        (run_ops [OpAdd (sample_annotation 1), OpAdd (sample_annotation 2)] (mount []))))
       = [sample_annotation 1, sample_annotation 2]"
proof -
  let ?s = "run_ops [OpAdd (sample_annotation 1), OpAdd (sample_annotation 2)] (mount [])"
  have r: "reachable ?s" by (rule reachable_run_ops) (rule reach_mount)
  have e: "?s = \<lparr>annotations = [sample_annotation 1, sample_annotation 2],
       annotationHistory = [[sample_annotation 1], [sample_annotation 1, sample_annotation 2]],
       historyIndex = 1\<rparr>"
    by (simp add: run_ops_def mount_def initialize_history_def initial_state_def
        handleAnnotationAdd_def add_to_history_def js_slice_def Let_def)
  have n: "annotationHistory ?s \<noteq> []" by (simp add: e)
  show ?thesis
    using r n undo_then_redo_reachable [OF r n] by (simp add: e)
qed

text \<open>
  The claim as stated also covers the pointer at position 0. After two adds and one undo
  the pointer is 0 and the list holds the first record; undo then redo leaves both records
  in the list.
\<close>

theorem undo_redo_at_zero_counterexample:
  "reachable (run_ops [OpAdd (sample_annotation 1), OpAdd (sample_annotation 2), OpUndo] (mount []))
   \<and> annotationHistory
        (run_ops [OpAdd (sample_annotation 1), OpAdd (sample_annotation 2), OpUndo] (mount [])) \<noteq> []
   \<and> historyIndex
        (run_ops [OpAdd (sample_annotation 1), OpAdd (sample_annotation 2), OpUndo] (mount [])) = 0
   \<and> annotations
        (run_ops [OpAdd (sample_annotation 1), OpAdd (sample_annotation 2), OpUndo] (mount []))
       = [sample_annotation 1]
   \<and> annotations (handleRedo (handleUndo
        (run_ops [OpAdd (sample_annotation 1), OpAdd (sample_annotation 2), OpUndo] (mount []))))
       = [sample_annotation 1, sample_annotation 2]"
proof -
  have "reachable (mount [])" by (rule reach_mount)
  then have "reachable (run_ops [OpAdd (sample_annotation 1), OpAdd (sample_annotation 2), OpUndo] (mount []))"
    by (rule reachable_run_ops)
  moreover have "run_ops [OpAdd (sample_annotation 1), OpAdd (sample_annotation 2), OpUndo] (mount [])
    = \<lparr>annotations = [sample_annotation 1],
       annotationHistory = [[sample_annotation 1], [sample_annotation 1, sample_annotation 2]],
       historyIndex = 0\<rparr>"
    by (simp add: run_ops_def mount_def initialize_history_def initial_state_def
        handleAnnotationAdd_def add_to_history_def js_slice_def handleUndo_def Let_def)
  ultimately show ?thesis
    by (simp add: handleUndo_def handleRedo_def Let_def)
qed



section \<open>Properties of the canvas component\<close>

lemma finalize_few:
  "length (drawingPoints cl) < 3 \<Longrightarrow> finalizeRevisionCloud props env cl cs = finish cs"
  by (simp add: finalizeRevisionCloud_def)

lemma finalize_many:
  "3 \<le> length (drawingPoints cl) \<Longrightarrow>
   \<exists>a. res_calls (finalizeRevisionCloud props env cl cs) = [AnnotationAdd a]
     \<and> ann_data a = CloudData (drawingPoints cl) \<and> ann_type a = ''revision-cloud''
     \<and> ann_id a = date_now env
     \<and> res_error (finalizeRevisionCloud props env cl cs) = None"
  by (simp add: finalizeRevisionCloud_def Let_def emit_annotation_def)

lemma added_append: "added_annotations (xs @ ys) = added_annotations xs @ added_annotations ys"
  by (induction xs rule: added_annotations.induct) simp_all

lemma handleObjectRemoved_quiet:
  "added_annotations (res_calls (handleObjectRemoved obj cl cs)) = []
   \<and> res_error (handleObjectRemoved obj cl cs) = None
   \<and> res_state (handleObjectRemoved obj cl cs) = cs"
  by (simp add: handleObjectRemoved_def finish_def split: option.splits)

lemma canvas_remove_quiet:
  "added_annotations (res_calls (canvas_remove obj cl cs)) = []
   \<and> res_error (canvas_remove obj cl cs) = None
   \<and> drawingPoints (res_state (canvas_remove obj cl cs)) = drawingPoints cs
   \<and> isDrawing (res_state (canvas_remove obj cl cs)) = isDrawing cs"
  by (simp add: canvas_remove_def handleObjectRemoved_quiet finish_def)

lemma drawRevisionCloud_quiet:
  "added_annotations (res_calls (drawRevisionCloud props cl cs)) = []
   \<and> res_error (drawRevisionCloud props cl cs) = None
   \<and> isDrawing (res_state (drawRevisionCloud props cl cs)) = isDrawing cs"
  by (simp add: drawRevisionCloud_def Let_def canvas_remove_quiet finish_def
      split: option.splits list.splits)

text \<open>
  The handlers of the mount render. The pointer moves do nothing, because \<^verbatim>\<open>isDrawing\<close> is
  false in that render; the release finds no drawing points in that render.
\<close>

lemma mounted_move: "handleCanvasMouseMove props p initial_cells cs = finish cs"
  by (simp add: handleCanvasMouseMove_def initial_cells_def split: option.splits)

lemma mounted_up:
  "activeTool props = Some ''revision-cloud'' \<Longrightarrow>
   handleCanvasMouseUp props env initial_cells cs = finish (cs\<lparr>isDrawing := False\<rparr>)"
  by (simp add: handleCanvasMouseUp_def finalizeRevisionCloud_def initial_cells_def finish_def)

lemma down_step:
  assumes "activeTool props = Some ''revision-cloud''" "\<not> isReadOnly props"
  shows "handleCanvasMouseDown props env p cl cs = finish (cs\<lparr>isDrawing := True, drawingPoints := [p]\<rparr>)"
  using assms by (simp add: handleCanvasMouseDown_def)

lemma run_events_append:
  "run_events props cl (xs @ ys) cs =
     (let r = run_events props cl xs cs; rest = run_events props cl ys (res_state r)
      in \<lparr>res_state = res_state rest, res_calls = res_calls r @ res_calls rest,
          res_error = (case res_error r of Some e \<Rightarrow> Some e | None \<Rightarrow> res_error rest)\<rparr>)"
proof (induction xs arbitrary: cs)
  case Nil
  show ?case by (cases "run_events props cl ys cs") (simp add: finish_def Let_def)
next
  case (Cons x xs)
  obtain env ev where x: "x = (env, ev)" by (cases x)
  show ?case
    by (simp add: x Cons.IH Let_def split: option.splits)
qed

lemma mounted_moves:
  "run_events props initial_cells (map (\<lambda>q. (env, MouseMove q)) ps) cs = finish cs"
proof (induction ps)
  case Nil
  show ?case by simp
next
  case (Cons q ps)
  then show ?case by (simp add: mounted_move finish_def)
qed

lemma mounted_cloud_run:
  assumes "activeTool props = Some ''revision-cloud''" "\<not> isReadOnly props"
  shows "run_events props initial_cells (cloud_interaction env env' p ps) cs
     = finish (cs\<lparr>drawingPoints := [p], isDrawing := False\<rparr>)"
proof -
  let ?cs1 = "cs\<lparr>isDrawing := True, drawingPoints := [p]\<rparr>"
  have "run_events props initial_cells (cloud_interaction env env' p ps) cs
      = run_events props initial_cells
          (map (\<lambda>q. (env, MouseMove q)) ps @ [(env', MouseUp)]) ?cs1"
    by (simp add: cloud_interaction_def down_step [OF assms] finish_def Let_def)
  also have "\<dots> = finish (?cs1\<lparr>isDrawing := False\<rparr>)"
    by (simp add: run_events_append mounted_moves mounted_up [OF assms(1)] finish_def Let_def)
  finally show ?thesis by simp
qed

text \<open>
  Claim C7. finalizeRevisionCloud ends at once, with no callback and no exception, when
  its closure holds fewer than three drawing points, and adds exactly one record, of
  type revision-cloud, with all the points of its closure when it holds three or more.
  But the closures that run are those of the mount render, which holds no drawing point:
  with the revision-cloud tool active on a writable canvas, a whole interaction (press,
  any number of moves, release) makes no callback and raises no exception, however many
  points were drawn, and leaves the point of the press as the only drawing point. So
  fewer than three points give no record, as the claim says, and five points give no
  record either, where the claim asks for one.
\<close>

theorem revision_cloud_never_recorded:
  assumes "activeTool props = Some ''revision-cloud''" and "\<not> isReadOnly props"
  shows "(length (drawingPoints cl) < 3 \<longrightarrow> finalizeRevisionCloud props env cl cs = finish cs)
       \<and> (3 \<le> length (drawingPoints cl) \<longrightarrow>
            (\<exists>a. res_calls (finalizeRevisionCloud props env cl cs) = [AnnotationAdd a]
               \<and> ann_data a = CloudData (drawingPoints cl) \<and> ann_type a = ''revision-cloud'')
            \<and> res_error (finalizeRevisionCloud props env cl cs) = None)
       \<and> res_calls (run_events props initial_cells (cloud_interaction env env' p ps) cs) = []
       \<and> res_error (run_events props initial_cells (cloud_interaction env env' p ps) cs) = None
       \<and> drawingPoints (res_state (run_events props initial_cells (cloud_interaction env env' p ps) cs))
           = [p]"
proof (intro conjI impI)
  assume "length (drawingPoints cl) < 3"
  then show "finalizeRevisionCloud props env cl cs = finish cs" by (rule finalize_few)
next
  assume many: "3 \<le> length (drawingPoints cl)"
  from finalize_many [OF many, of props env cs] obtain a where
    a: "res_calls (finalizeRevisionCloud props env cl cs) = [AnnotationAdd a]
     \<and> ann_data a = CloudData (drawingPoints cl) \<and> ann_type a = ''revision-cloud''
     \<and> ann_id a = date_now env
     \<and> res_error (finalizeRevisionCloud props env cl cs) = None" ..
  then show "\<exists>a. res_calls (finalizeRevisionCloud props env cl cs) = [AnnotationAdd a]
               \<and> ann_data a = CloudData (drawingPoints cl) \<and> ann_type a = ''revision-cloud''"
    by (intro exI [of _ a]) simp
  from a show "res_error (finalizeRevisionCloud props env cl cs) = None" by simp
next
  show "res_calls (run_events props initial_cells (cloud_interaction env env' p ps) cs) = []"
    by (simp add: mounted_cloud_run [OF assms] finish_def)
  show "res_error (run_events props initial_cells (cloud_interaction env env' p ps) cs) = None"
    by (simp add: mounted_cloud_run [OF assms] finish_def)
  show "drawingPoints (res_state (run_events props initial_cells (cloud_interaction env env' p ps) cs))
           = [p]"
    by (simp add: mounted_cloud_run [OF assms] finish_def)
qed

theorem revision_cloud_never_recorded_witness:
  "activeTool (mounted_props (mounted_with ''revision-cloud'')) = Some ''revision-cloud''
   \<and> \<not> isReadOnly (mounted_props (mounted_with ''revision-cloud''))
   \<and> res_calls (run_events (mounted_props (mounted_with ''revision-cloud'')) initial_cells
        (cloud_interaction (at_time 1000) (at_time 1500) \<lparr>px = Fin 0, py = Fin 0\<rparr>
           [\<lparr>px = Fin 1, py = Fin 0\<rparr>, \<lparr>px = Fin 2, py = Fin 1\<rparr>, \<lparr>px = Fin 3, py = Fin 3\<rparr>,
            \<lparr>px = Fin 4, py = Fin 6\<rparr>])
        initial_canvas) = []
   \<and> res_error (run_events (mounted_props (mounted_with ''revision-cloud'')) initial_cells
        (cloud_interaction (at_time 1000) (at_time 1500) \<lparr>px = Fin 0, py = Fin 0\<rparr>
           [\<lparr>px = Fin 1, py = Fin 0\<rparr>, \<lparr>px = Fin 2, py = Fin 1\<rparr>, \<lparr>px = Fin 3, py = Fin 3\<rparr>,
            \<lparr>px = Fin 4, py = Fin 6\<rparr>])
        initial_canvas) = None
   \<and> finalizeRevisionCloud (mounted_props (mounted_with ''revision-cloud'')) (at_time 1500)
        initial_cells initial_canvas = finish initial_canvas
   \<and> (\<exists>a. res_calls (finalizeRevisionCloud (mounted_props (mounted_with ''revision-cloud''))
              (at_time 1500)
              (initial_cells\<lparr>drawingPoints :=
                 [\<lparr>px = Fin 0, py = Fin 0\<rparr>, \<lparr>px = Fin 1, py = Fin 0\<rparr>, \<lparr>px = Fin 2, py = Fin 1\<rparr>,
                  \<lparr>px = Fin 3, py = Fin 3\<rparr>, \<lparr>px = Fin 4, py = Fin 6\<rparr>]\<rparr>)
              initial_canvas) = [AnnotationAdd a]
        \<and> ann_data a = CloudData
              [\<lparr>px = Fin 0, py = Fin 0\<rparr>, \<lparr>px = Fin 1, py = Fin 0\<rparr>, \<lparr>px = Fin 2, py = Fin 1\<rparr>,
               \<lparr>px = Fin 3, py = Fin 3\<rparr>, \<lparr>px = Fin 4, py = Fin 6\<rparr>])"
proof -
  let ?P = "mounted_props (mounted_with ''revision-cloud'')"
  let ?pts = "[\<lparr>px = Fin 0, py = Fin 0\<rparr>, \<lparr>px = Fin 1, py = Fin 0\<rparr>, \<lparr>px = Fin 2, py = Fin 1\<rparr>,
               \<lparr>px = Fin 3, py = Fin 3\<rparr>, \<lparr>px = Fin 4, py = Fin 6\<rparr>]"
  let ?cl = "initial_cells\<lparr>drawingPoints := ?pts\<rparr>"
  have tool: "activeTool ?P = Some ''revision-cloud''" and rw: "\<not> isReadOnly ?P"
    by (simp_all add: mounted_with_def)
  have few: "length (drawingPoints initial_cells) < 3" by (simp add: initial_cells_def)
  have many: "3 \<le> length (drawingPoints ?cl)" by simp
  have pts: "drawingPoints ?cl = ?pts" by simp
  note run = revision_cloud_never_recorded [OF tool rw, where cl = initial_cells
      and env = "at_time 1500" and env' = "at_time 1500" and cs = initial_canvas
      and p = "\<lparr>px = Fin 0, py = Fin 0\<rparr>"
      and ps = "[\<lparr>px = Fin 1, py = Fin 0\<rparr>, \<lparr>px = Fin 2, py = Fin 1\<rparr>, \<lparr>px = Fin 3, py = Fin 3\<rparr>,
                 \<lparr>px = Fin 4, py = Fin 6\<rparr>]"]
  note fin = revision_cloud_never_recorded [OF tool rw, where cl = ?cl
      and env = "at_time 1500" and env' = "at_time 1500" and cs = initial_canvas
      and p = "\<lparr>px = Fin 0, py = Fin 0\<rparr>" and ps = "[]"]
  have c1: "finalizeRevisionCloud ?P (at_time 1500) initial_cells initial_canvas = finish initial_canvas"
    using run [THEN conjunct1] few by simp
  have c2: "\<exists>a. res_calls (finalizeRevisionCloud ?P (at_time 1500) ?cl initial_canvas) = [AnnotationAdd a]
        \<and> ann_data a = CloudData ?pts"
  proof -
    from fin [THEN conjunct2, THEN conjunct1] many obtain a where
      "res_calls (finalizeRevisionCloud ?P (at_time 1500) ?cl initial_canvas) = [AnnotationAdd a]
        \<and> ann_data a = CloudData (drawingPoints ?cl) \<and> ann_type a = ''revision-cloud''"
      by blast
    then show ?thesis unfolding pts by (intro exI [of _ a]) simp
  qed
  note prog = revision_cloud_never_recorded [OF tool rw, where cl = initial_cells
      and env = "at_time 1000" and env' = "at_time 1500" and cs = initial_canvas
      and p = "\<lparr>px = Fin 0, py = Fin 0\<rparr>"
      and ps = "[\<lparr>px = Fin 1, py = Fin 0\<rparr>, \<lparr>px = Fin 2, py = Fin 1\<rparr>, \<lparr>px = Fin 3, py = Fin 3\<rparr>,
                 \<lparr>px = Fin 4, py = Fin 6\<rparr>]"]
  have c3: "res_calls (run_events ?P initial_cells
        (cloud_interaction (at_time 1000) (at_time 1500) \<lparr>px = Fin 0, py = Fin 0\<rparr>
           [\<lparr>px = Fin 1, py = Fin 0\<rparr>, \<lparr>px = Fin 2, py = Fin 1\<rparr>, \<lparr>px = Fin 3, py = Fin 3\<rparr>,
            \<lparr>px = Fin 4, py = Fin 6\<rparr>])
        initial_canvas) = []"
    using prog [THEN conjunct2, THEN conjunct2, THEN conjunct1] .
  have c4: "res_error (run_events ?P initial_cells
        (cloud_interaction (at_time 1000) (at_time 1500) \<lparr>px = Fin 0, py = Fin 0\<rparr>
           [\<lparr>px = Fin 1, py = Fin 0\<rparr>, \<lparr>px = Fin 2, py = Fin 1\<rparr>, \<lparr>px = Fin 3, py = Fin 3\<rparr>,
            \<lparr>px = Fin 4, py = Fin 6\<rparr>])
        initial_canvas) = None"
    using prog [THEN conjunct2, THEN conjunct2, THEN conjunct2, THEN conjunct1] .
  show ?thesis
    using tool rw c3 c4 c1 c2 by (intro conjI)
qed

text \<open>
  The dimension tools. With the start point in its closure, createDimension adds one
  record that stores the distance, computed by the engine's \<^verbatim>\<open>Math.sqrt\<close> and \<^verbatim>\<open>Math.pow\<close>
  on the rounded coordinate differences, and shows the text \<^verbatim>\<open>toFixed\<close> makes of it with
  \<^verbatim>\<open>styles.dimensionPrecision || 2\<close> digits.
\<close>

lemma createDimension_result:
  assumes "dimensionStart cl = Some p"
    and "toFixed env (math_sqrt env (math_pow env (px q - px p) (Fin 2)
                                      + math_pow env (py q - py p) (Fin 2)))
           (or_integer (dimensionPrecision (prop_styles props)) 2) = Inr fixed"
  shows "\<exists>a. res_calls (createDimension props env q cl cs) = [AnnotationAdd a]
     \<and> res_error (createDimension props env q cl cs) = None
     \<and> ann_id a = date_now env \<and> ann_type a = ''dimension''
     \<and> ann_data a = DimensionData p q
          (math_sqrt env (math_pow env (px q - px p) (Fin 2) + math_pow env (py q - py p) (Fin 2)))
     \<and> map shape (ann_objects a) = [Line (px p) (py p) (px q) (py q), Text (fixed @ ''px'')]"
  using assms
  by (simp add: createDimension_def Let_def emit_annotation_def new_object_def)

lemmas number_eval = number_for_def signed_or_infinite_def round_to_multiple_def
  exponent_of_def exponent_up.simps exponent_down.simps pow2_def round_half_even_def

lemmas root_eval = rounded_sqrt_def root_in_units_def nearest_root_def sqrt_bits.simps
  root_exponent_up.simps root_exponent_down.simps pow2_def

lemmas toFixed_eval = toFixed_def toFixed_digits_def digits_of.simps Let_def

lemma createDimension_example:
  "\<exists>a. res_calls (createDimension (mounted_props (mounted_with ''linear'')) (at_time 2000)
            \<lparr>px = Fin 3, py = Fin 4\<rparr>
            (initial_cells\<lparr>dimensionStart := Some \<lparr>px = Fin 0, py = Fin 0\<rparr>\<rparr>) initial_canvas)
          = [AnnotationAdd a]
     \<and> ann_data a = DimensionData \<lparr>px = Fin 0, py = Fin 0\<rparr> \<lparr>px = Fin 3, py = Fin 4\<rparr> (Fin 5)
     \<and> map shape (ann_objects a) = [Line (Fin 0) (Fin 0) (Fin 3) (Fin 4), Text ''5.00px'']"
proof -
  let ?P = "mounted_props (mounted_with ''linear'')"
  let ?cl = "initial_cells\<lparr>dimensionStart := Some \<lparr>px = Fin 0, py = Fin 0\<rparr>\<rparr>"
  let ?d = "math_sqrt (at_time 2000)
             (math_pow (at_time 2000) (px \<lparr>px = Fin 3, py = Fin 4\<rparr> - px \<lparr>px = Fin 0, py = Fin 0\<rparr>) (Fin 2)
              + math_pow (at_time 2000) (py \<lparr>px = Fin 3, py = Fin 4\<rparr> - py \<lparr>px = Fin 0, py = Fin 0\<rparr>) (Fin 2))"
  have start: "dimensionStart ?cl = Some \<lparr>px = Fin 0, py = Fin 0\<rparr>" by simp
  have prec: "or_integer (dimensionPrecision (prop_styles ?P)) 2 = 2"
    by (simp add: mounted_with_def currentStyles_initial_def or_integer_def)
  have d: "?d = Fin 5"
    by (simp add: at_time_def root_eval)
  have fixed: "toFixed (at_time 2000) ?d (or_integer (dimensionPrecision (prop_styles ?P)) 2)
                 = Inr ''5.00''"
    unfolding prec d by (simp add: toFixed_eval)
  from createDimension_result [OF start fixed, of initial_canvas] obtain a where
    a: "res_calls (createDimension ?P (at_time 2000) \<lparr>px = Fin 3, py = Fin 4\<rparr> ?cl initial_canvas)
          = [AnnotationAdd a]
     \<and> res_error (createDimension ?P (at_time 2000) \<lparr>px = Fin 3, py = Fin 4\<rparr> ?cl initial_canvas) = None
     \<and> ann_id a = date_now (at_time 2000) \<and> ann_type a = ''dimension''
     \<and> ann_data a = DimensionData \<lparr>px = Fin 0, py = Fin 0\<rparr> \<lparr>px = Fin 3, py = Fin 4\<rparr> ?d
     \<and> map shape (ann_objects a)
          = [Line (px \<lparr>px = Fin 0, py = Fin 0\<rparr>) (py \<lparr>px = Fin 0, py = Fin 0\<rparr>)
               (px \<lparr>px = Fin 3, py = Fin 4\<rparr>) (py \<lparr>px = Fin 3, py = Fin 4\<rparr>), Text (''5.00'' @ ''px'')]" ..
  from a show ?thesis
    unfolding d by (intro exI [of _ a]) simp
qed

text \<open>
  The rounding of the arithmetic shows in the text. From (0, 0) to
  (494, 189.93381748651294) the exact distance of the two points is above 529.255, but the
  sum of the two rounded squares is a number below \<open>529.255\<^sup>2\<close>, its rounded root is below
  529.255, and the text is 529.25px.
\<close>

lemma createDimension_rounding_example:
  "\<exists>a. res_calls (createDimension (mounted_props (mounted_with ''linear'')) (at_time 2000)
            \<lparr>px = Fin 494, py = number_for 189.93381748651294\<rparr>
            (initial_cells\<lparr>dimensionStart := Some \<lparr>px = Fin 0, py = Fin 0\<rparr>\<rparr>) initial_canvas)
          = [AnnotationAdd a]
     \<and> map shape (ann_objects a)
          = [Line (Fin 0) (Fin 0) (Fin 494) (number_for 189.93381748651294), Text ''529.25px'']"
proof -
  let ?P = "mounted_props (mounted_with ''linear'')"
  let ?cl = "initial_cells\<lparr>dimensionStart := Some \<lparr>px = Fin 0, py = Fin 0\<rparr>\<rparr>"
  let ?q = "\<lparr>px = Fin 494, py = number_for 189.93381748651294\<rparr>"
  let ?d = "math_sqrt (at_time 2000)
             (math_pow (at_time 2000) (px ?q - px \<lparr>px = Fin 0, py = Fin 0\<rparr>) (Fin 2)
              + math_pow (at_time 2000) (py ?q - py \<lparr>px = Fin 0, py = Fin 0\<rparr>) (Fin 2))"
  have start: "dimensionStart ?cl = Some \<lparr>px = Fin 0, py = Fin 0\<rparr>" by simp
  have prec: "or_integer (dimensionPrecision (prop_styles ?P)) 2 = 2"
    by (simp add: mounted_with_def currentStyles_initial_def or_integer_def)
  have y: "number_for 189.93381748651294 = Fin (6682702106697777 / 35184372088832)"
    by (simp add: number_eval)
  have dy: "Fin (6682702106697777 / 35184372088832) - Fin 0 = Fin (6682702106697777 / 35184372088832)"
    by (simp add: number_eval)
  have yy: "Fin (6682702106697777 / 35184372088832) * Fin (6682702106697777 / 35184372088832) = Fin (4958090321290121 / 137438953472)"
    by (simp add: number_eval)
  have dx: "Fin 494 - Fin 0 = Fin 494"
    by simp
  have xx: "Fin 494 * Fin 494 = Fin 244036"
    by simp
  have s: "Fin 244036 + Fin (4958090321290121 / 137438953472) = Fin (4812267846347889 / 17179869184)"
    by (simp add: number_eval)
  have r: "rounded_sqrt (4812267846347889 / 17179869184) = 4655376212468695 / 8796093022208"
    by (simp add: root_eval)
  have d: "?d = Fin (4655376212468695 / 8796093022208)"
    unfolding y
    by (simp add: at_time_def dx dy xx yy s r
             del: minus_jsnum.simps times_jsnum.simps plus_jsnum.simps)
  have fixed: "toFixed (at_time 2000) ?d (or_integer (dimensionPrecision (prop_styles ?P)) 2)
                 = Inr ''529.25''"
    unfolding prec d by (simp add: toFixed_eval)
  from createDimension_result [OF start fixed, of initial_canvas] obtain a where
    a: "res_calls (createDimension ?P (at_time 2000) ?q ?cl initial_canvas) = [AnnotationAdd a]
     \<and> res_error (createDimension ?P (at_time 2000) ?q ?cl initial_canvas) = None
     \<and> ann_id a = date_now (at_time 2000) \<and> ann_type a = ''dimension''
     \<and> ann_data a = DimensionData \<lparr>px = Fin 0, py = Fin 0\<rparr> ?q ?d
     \<and> map shape (ann_objects a)
          = [Line (px \<lparr>px = Fin 0, py = Fin 0\<rparr>) (py \<lparr>px = Fin 0, py = Fin 0\<rparr>) (px ?q) (py ?q),
             Text (''529.25'' @ ''px'')]" ..
  from a show ?thesis
    by (intro exI [of _ a]) simp
qed

text \<open>
  The clicks of a dimension tool as the library handles them: every click runs the
  handleCanvasMouseDown of the mount render, whose \<^verbatim>\<open>dimensionStart\<close> is \<^verbatim>\<open>null\<close>.
\<close>

lemma mounted_click:
  assumes "activeTool props = Some tool"
    and "tool = ''linear'' \<or> tool = ''aligned'' \<or> tool = ''angular''"
    and "\<not> isReadOnly props"
  shows "handleCanvasMouseDown props env p initial_cells cs = finish (cs\<lparr>dimensionStart := Some p\<rparr>)"
  using assms by (auto simp: handleCanvasMouseDown_def initial_cells_def)

lemma mounted_clicks:
  assumes "activeTool props = Some tool"
    and "tool = ''linear'' \<or> tool = ''aligned'' \<or> tool = ''angular''"
    and "\<not> isReadOnly props"
  shows "run_events props initial_cells (map (\<lambda>(env, p). (env, MouseDown p)) clicks) cs
     = finish (if clicks = [] then cs else cs\<lparr>dimensionStart := Some (snd (last clicks))\<rparr>)"
proof (induction clicks arbitrary: cs)
  case Nil
  show ?case by simp
next
  case (Cons c clicks)
  obtain env p where c: "c = (env, p)" by (cases c)
  show ?case
    by (simp add: c Cons.IH mounted_click [OF assms] finish_def Let_def)
qed

text \<open>
  A canvas that was mounted while no tool was selected makes no callback, whatever the
  events and whichever tool is selected later: the handlers the library calls keep
  \<^verbatim>\<open>activeTool = null\<close>.
\<close>

lemma mounted_without_tool:
  assumes "activeTool props = None"
  shows "res_calls (run_events props initial_cells evs cs) = []
     \<and> res_error (run_events props initial_cells evs cs) = None"
proof (induction evs arbitrary: cs)
  case Nil
  show ?case by (simp add: finish_def)
next
  case (Cons c evs)
  obtain env ev where c: "c = (env, ev)" by (cases c)
  have step: "res_calls (canvas_step props env ev initial_cells cs) = []
     \<and> res_error (canvas_step props env ev initial_cells cs) = None"
    using assms
    by (cases ev)
       (simp_all add: handleCanvasMouseDown_def handleCanvasMouseMove_def handleCanvasMouseUp_def
          handleObjectModified_def handleObjectRemoved_def canvas_remove_def initial_cells_def
          finish_def)
  show ?case
    by (simp add: c step Cons.IH Let_def)
qed

text \<open>
  Claim C6. The claim asks that two clicks of a dimension tool emit a record with the
  distance of the two points and its text. The library handles every click with the
  handleCanvasMouseDown of the mount render, in which no start point is set: with a
  dimension tool active on a writable canvas, any sequence of clicks makes no callback,
  raises no exception and leaves the objects of the canvas as they were; each click only
  sets \<^verbatim>\<open>dimensionStart\<close> to its point. So the two clicks (0,0) and (3,4) give no record and
  no text, where the claim asks for the distance 5 and the text 5.00.
\<close>

theorem dimension_clicks_emit_nothing:
  assumes "activeTool props = Some tool"
    and "tool = ''linear'' \<or> tool = ''aligned'' \<or> tool = ''angular''"
    and "\<not> isReadOnly props"
  shows "res_calls (run_events props initial_cells (map (\<lambda>(env, p). (env, MouseDown p)) clicks) cs) = []
     \<and> res_error (run_events props initial_cells (map (\<lambda>(env, p). (env, MouseDown p)) clicks) cs) = None
     \<and> canvas_objects (res_state
          (run_events props initial_cells (map (\<lambda>(env, p). (env, MouseDown p)) clicks) cs))
         = canvas_objects cs
     \<and> (clicks \<noteq> [] \<longrightarrow>
          dimensionStart (res_state
            (run_events props initial_cells (map (\<lambda>(env, p). (env, MouseDown p)) clicks) cs))
          = Some (snd (last clicks)))"
  by (simp add: mounted_clicks [OF assms] finish_def)

theorem dimension_clicks_emit_nothing_witness:
  "activeTool (mounted_props (mounted_with ''linear'')) = Some ''linear''
   \<and> \<not> isReadOnly (mounted_props (mounted_with ''linear''))
   \<and> res_calls (run_events (mounted_props (mounted_with ''linear'')) initial_cells
        [(at_time 1000, MouseDown \<lparr>px = Fin 0, py = Fin 0\<rparr>),
         (at_time 2000, MouseDown \<lparr>px = Fin 3, py = Fin 4\<rparr>)] initial_canvas) = []
   \<and> canvas_objects (res_state (run_events (mounted_props (mounted_with ''linear'')) initial_cells
        [(at_time 1000, MouseDown \<lparr>px = Fin 0, py = Fin 0\<rparr>),
         (at_time 2000, MouseDown \<lparr>px = Fin 3, py = Fin 4\<rparr>)] initial_canvas)) = []
   \<and> dimensionStart (res_state (run_events (mounted_props (mounted_with ''linear'')) initial_cells
        [(at_time 1000, MouseDown \<lparr>px = Fin 0, py = Fin 0\<rparr>),
         (at_time 2000, MouseDown \<lparr>px = Fin 3, py = Fin 4\<rparr>)] initial_canvas))
       = Some \<lparr>px = Fin 3, py = Fin 4\<rparr>"
proof -
  let ?P = "mounted_props (mounted_with ''linear'')"
  have tool: "activeTool ?P = Some ''linear''" and rw: "\<not> isReadOnly ?P"
    by (simp_all add: mounted_with_def)
  have kind: "''linear'' = ''linear'' \<or> ''linear'' = ''aligned'' \<or> ''linear'' = ''angular''" by simp
  note t = dimension_clicks_emit_nothing [OF tool kind rw, where cs = initial_canvas
      and clicks = "[(at_time 1000, \<lparr>px = Fin 0, py = Fin 0\<rparr>), (at_time 2000, \<lparr>px = Fin 3, py = Fin 4\<rparr>)]"]
  have ev: "map (\<lambda>(env, p). (env, MouseDown p))
        [(at_time 1000, \<lparr>px = Fin 0, py = Fin 0\<rparr>), (at_time 2000, \<lparr>px = Fin 3, py = Fin 4\<rparr>)]
      = [(at_time 1000, MouseDown \<lparr>px = Fin 0, py = Fin 0\<rparr>),
         (at_time 2000, MouseDown \<lparr>px = Fin 3, py = Fin 4\<rparr>)]"
    by simp
  have objs: "canvas_objects initial_canvas = []" by (simp add: initial_canvas_def)
  show ?thesis
    using t tool rw unfolding ev objs by simp
qed

section \<open>Properties of the capture manager\<close>

text \<open>
  Claim C9. When reading the persisted list throws (\<^verbatim>\<open>getItem\<close> itself, or \<^verbatim>\<open>JSON.parse\<close> of
  the stored text), loadCaptures leaves an empty capture list and logs the exception. When
  writing throws (\<^verbatim>\<open>JSON.stringify\<close> or \<^verbatim>\<open>setItem\<close>), saveCaptures logs the exception and
  returns with the capture list and the stored contents as they were. Neither function
  lets the exception out.
\<close>

theorem storage_failures_are_caught:
  "(getItem_throws env = Some err \<longrightarrow>
      captures (loadCaptures env m) = []
      \<and> console (loadCaptures env m) = console m @ [(''Error loading captures:'', err)])
   \<and> (getItem_throws env = None \<and> storage m storageKey = Some stored \<and> stored \<noteq> []
        \<and> JSON_parse env stored = Inl err \<longrightarrow>
      captures (loadCaptures env m) = []
      \<and> console (loadCaptures env m) = console m @ [(''Error loading captures:'', err)])
   \<and> (JSON_stringify env (captures m) = Inl err
        \<or> (\<exists>text. JSON_stringify env (captures m) = Inr text \<and> setItem_throws env text = Some err) \<longrightarrow>
      captures (saveCaptures env m) = captures m
      \<and> storage (saveCaptures env m) = storage m
      \<and> console (saveCaptures env m) = console m @ [(''Error saving captures:'', err)])
   \<and> captures (saveCaptures env m) = captures m"
  by (auto simp: loadCaptures_def saveCaptures_def split: option.splits sum.splits)

theorem storage_failures_are_caught_witness:
  "captures (loadCaptures
      \<lparr>getItem_throws = Some (JSError ''SecurityError'' ''The operation is insecure.''),
       setItem_throws = (\<lambda>text. None), JSON_parse = (\<lambda>text. Inr []),
       JSON_stringify = (\<lambda>cs. Inr ''[]'')\<rparr>
      \<lparr>captures = [], storage = Map.empty, console = []\<rparr>) = []
   \<and> captures (loadCaptures
      \<lparr>getItem_throws = None, setItem_throws = (\<lambda>text. None),
       JSON_parse = (\<lambda>text. Inl (JSError ''SyntaxError'' ''Unexpected token'')),
       JSON_stringify = (\<lambda>cs. Inr ''[]'')\<rparr>
      \<lparr>captures = [], storage = [storageKey \<mapsto> ''{not json''], console = []\<rparr>) = []
   \<and> console (saveCaptures
      \<lparr>getItem_throws = None,
       setItem_throws = (\<lambda>text. Some (JSError ''QuotaExceededError'' ''The quota has been exceeded.'')),
       JSON_parse = (\<lambda>text. Inr []), JSON_stringify = (\<lambda>cs. Inr ''[]'')\<rparr>
      \<lparr>captures = [], storage = Map.empty, console = []\<rparr>)
     = [(''Error saving captures:'', JSError ''QuotaExceededError'' ''The quota has been exceeded.'')]"
  using storage_failures_are_caught [where env =
      "\<lparr>getItem_throws = Some (JSError ''SecurityError'' ''The operation is insecure.''),
        setItem_throws = (\<lambda>text. None), JSON_parse = (\<lambda>text. Inr []),
        JSON_stringify = (\<lambda>cs. Inr ''[]'')\<rparr>"
      and m = "\<lparr>captures = [], storage = Map.empty, console = []\<rparr>"
      and err = "JSError ''SecurityError'' ''The operation is insecure.''"]
    storage_failures_are_caught [where env =
      "\<lparr>getItem_throws = None, setItem_throws = (\<lambda>text. None),
        JSON_parse = (\<lambda>text. Inl (JSError ''SyntaxError'' ''Unexpected token'')),
        JSON_stringify = (\<lambda>cs. Inr ''[]'')\<rparr>"
      and m = "\<lparr>captures = [], storage = [storageKey \<mapsto> ''{not json''], console = []\<rparr>"
      and stored = "''{not json''"
      and err = "JSError ''SyntaxError'' ''Unexpected token''"]
    storage_failures_are_caught [where env =
      "\<lparr>getItem_throws = None,
        setItem_throws = (\<lambda>text. Some (JSError ''QuotaExceededError'' ''The quota has been exceeded.'')),
        JSON_parse = (\<lambda>text. Inr []), JSON_stringify = (\<lambda>cs. Inr ''[]'')\<rparr>"
      and m = "\<lparr>captures = [], storage = Map.empty, console = []\<rparr>"
      and err = "JSError ''QuotaExceededError'' ''The quota has been exceeded.''"]
  by simp

section \<open>Annotation ids\<close>

lemma emit_adds: "added_annotations (res_calls (emit_annotation a cs)) = [a]"
  by (simp add: emit_annotation_def)

lemma createDimension_ids:
  "a \<in> set (added_annotations (res_calls (createDimension props env q cl cs))) \<Longrightarrow> ann_id a = date_now env"
  by (auto simp: createDimension_def Let_def emit_annotation_def finish_def
      split: option.splits sum.splits)

lemma createCircleDimension_ids:
  "a \<in> set (added_annotations (res_calls (createCircleDimension props env q cs))) \<Longrightarrow> ann_id a = date_now env"
  by (auto simp: createCircleDimension_def Let_def emit_annotation_def)

lemma createLeader_ids:
  "a \<in> set (added_annotations (res_calls (createLeader props env q cs))) \<Longrightarrow> ann_id a = date_now env"
  by (auto simp: createLeader_def Let_def emit_annotation_def)

lemma createCenterline_ids:
  "a \<in> set (added_annotations (res_calls (createCenterline props env q cl cs))) \<Longrightarrow> ann_id a = date_now env"
  by (auto simp: createCenterline_def Let_def emit_annotation_def finish_def split: option.splits)

lemma createHatchPattern_ids:
  "a \<in> set (added_annotations (res_calls (createHatchPattern props env q cs))) \<Longrightarrow> ann_id a = date_now env"
  by (auto simp: createHatchPattern_def Let_def emit_annotation_def)

lemma finalizeRevisionCloud_ids:
  "a \<in> set (added_annotations (res_calls (finalizeRevisionCloud props env cl cs))) \<Longrightarrow> ann_id a = date_now env"
  by (auto simp: finalizeRevisionCloud_def Let_def emit_annotation_def finish_def split: if_splits)


lemma handleCanvasMouseDown_branches:
  assumes "P (finish cs)"
    and "P (finish (cs\<lparr>dimensionStart := Some q\<rparr>))"
    and "P (createDimension props env q cl (cs\<lparr>dimensionEnd := Some q\<rparr>))"
    and "P (createCircleDimension props env q cs)"
    and "P (createLeader props env q cs)"
    and "P (createCenterline props env q cl cs)"
    and "P (finish (cs\<lparr>isDrawing := True, drawingPoints := [q]\<rparr>))"
    and "P (createHatchPattern props env q cs)"
  shows "P (handleCanvasMouseDown props env q cl cs)"
  unfolding handleCanvasMouseDown_def using assms
  by (simp split: option.split)

lemma handleCanvasMouseDown_ids:
  "a \<in> set (added_annotations (res_calls (handleCanvasMouseDown props env q cl cs))) \<longrightarrow> ann_id a = date_now env"
  by (rule handleCanvasMouseDown_branches)
     (simp_all add: finish_def createDimension_ids createCircleDimension_ids createLeader_ids
        createCenterline_ids createHatchPattern_ids)

lemma handleObjectModified_quiet:
  "added_annotations (res_calls (handleObjectModified obj cl cs)) = []"
  by (simp add: handleObjectModified_def finish_def split: option.splits)

lemma canvas_step_ids:
  "a \<in> set (added_annotations (res_calls (canvas_step props env ev cl cs))) \<Longrightarrow> ann_id a = date_now env"
proof (cases ev)
  case (MouseDown q)
  then show "a \<in> set (added_annotations (res_calls (canvas_step props env ev cl cs))) \<Longrightarrow> ann_id a = date_now env"
    using handleCanvasMouseDown_ids [of a props env q cl cs] by simp
next
  case (MouseMove q)
  then show "a \<in> set (added_annotations (res_calls (canvas_step props env ev cl cs))) \<Longrightarrow> ann_id a = date_now env"
    by (simp add: handleCanvasMouseMove_def Let_def drawRevisionCloud_quiet finish_def split: option.splits if_splits)
next
  case MouseUp
  then show "a \<in> set (added_annotations (res_calls (canvas_step props env ev cl cs))) \<Longrightarrow> ann_id a = date_now env"
    by (simp add: handleCanvasMouseUp_def Let_def finish_def finalizeRevisionCloud_ids split: if_splits)
next
  case (ObjectModified obj)
  then show "a \<in> set (added_annotations (res_calls (canvas_step props env ev cl cs))) \<Longrightarrow> ann_id a = date_now env"
    by (simp add: handleObjectModified_quiet)
next
  case (ObjectRemoved obj)
  then show "a \<in> set (added_annotations (res_calls (canvas_step props env ev cl cs))) \<Longrightarrow> ann_id a = date_now env"
    by (simp add: canvas_remove_quiet)
qed


lemma handleObjectRemoved_no_update:
  "AnnotationUpdate i u \<notin> set (res_calls (handleObjectRemoved obj cl cs))"
  by (simp add: handleObjectRemoved_def finish_def split: option.splits)

lemma canvas_remove_no_update:
  "AnnotationUpdate i u \<notin> set (res_calls (canvas_remove obj cl cs))"
  by (simp add: canvas_remove_def handleObjectRemoved_no_update finish_def)

lemma emit_no_update: "AnnotationUpdate i u \<notin> set (res_calls (emit_annotation a cs))"
  by (simp add: emit_annotation_def)

lemma drawRevisionCloud_no_update:
  "AnnotationUpdate i u \<notin> set (res_calls (drawRevisionCloud props cl cs))"
  by (simp add: drawRevisionCloud_def Let_def canvas_remove_no_update finish_def
      split: option.splits list.splits)

lemma createDimension_no_update:
  "AnnotationUpdate i u \<notin> set (res_calls (createDimension props env q cl cs))"
  by (simp add: createDimension_def Let_def emit_no_update finish_def split: option.splits sum.splits)

lemma createCircleDimension_no_update:
  "AnnotationUpdate i u \<notin> set (res_calls (createCircleDimension props env q cs))"
  by (simp add: createCircleDimension_def Let_def emit_no_update)

lemma createLeader_no_update:
  "AnnotationUpdate i u \<notin> set (res_calls (createLeader props env q cs))"
  by (simp add: createLeader_def Let_def emit_no_update)

lemma createCenterline_no_update:
  "AnnotationUpdate i u \<notin> set (res_calls (createCenterline props env q cl cs))"
  by (simp add: createCenterline_def Let_def emit_no_update finish_def split: option.splits)

lemma createHatchPattern_no_update:
  "AnnotationUpdate i u \<notin> set (res_calls (createHatchPattern props env q cs))"
  by (simp add: createHatchPattern_def Let_def emit_no_update)

lemma handleCanvasMouseDown_no_update:
  "AnnotationUpdate i u \<notin> set (res_calls (handleCanvasMouseDown props env q cl cs))"
  by (rule handleCanvasMouseDown_branches)
     (simp_all add: finish_def createDimension_no_update createCircleDimension_no_update
        createLeader_no_update createCenterline_no_update createHatchPattern_no_update)

lemma canvas_step_update_keeps_id:
  "AnnotationUpdate i u \<in> set (res_calls (canvas_step props env ev cl cs)) \<Longrightarrow> ann_id u = i"
proof (cases ev)
  case (MouseDown q)
  then show "AnnotationUpdate i u \<in> set (res_calls (canvas_step props env ev cl cs)) \<Longrightarrow> ann_id u = i"
    by (simp add: handleCanvasMouseDown_no_update)
next
  case (MouseMove q)
  then show "AnnotationUpdate i u \<in> set (res_calls (canvas_step props env ev cl cs)) \<Longrightarrow> ann_id u = i"
    by (simp add: handleCanvasMouseMove_def Let_def drawRevisionCloud_no_update finish_def
        split: option.splits if_splits)
next
  case MouseUp
  then show "AnnotationUpdate i u \<in> set (res_calls (canvas_step props env ev cl cs)) \<Longrightarrow> ann_id u = i"
    by (simp add: handleCanvasMouseUp_def finalizeRevisionCloud_def Let_def emit_no_update finish_def
        split: if_splits)
next
  case (ObjectModified obj)
  then show "AnnotationUpdate i u \<in> set (res_calls (canvas_step props env ev cl cs)) \<Longrightarrow> ann_id u = i"
    by (auto simp: handleObjectModified_def finish_def split: option.splits if_splits)
next
  case (ObjectRemoved obj)
  then show "AnnotationUpdate i u \<in> set (res_calls (canvas_step props env ev cl cs)) \<Longrightarrow> ann_id u = i"
    by (simp add: canvas_remove_no_update)
qed

lemma update_keeps_ids:
  "ann_id u = i \<Longrightarrow> map ann_id (annotations (handleAnnotationUpdate i u w)) = map ann_id (annotations w)"
  by (simp add: handleAnnotationUpdate_def add_to_history_def Let_def)

lemma leader_click:
  assumes "activeTool props = Some ''leader''" and "\<not> isReadOnly props"
  shows "handleCanvasMouseDown props env p cl cs = createLeader props env p cs"
  using assms by (simp add: handleCanvasMouseDown_def)

lemma createLeader_added:
  "\<exists>a. added_annotations (res_calls (createLeader props env p cs)) = [a]
     \<and> ann_id a = date_now env \<and> ann_data a = LeaderData p"
  by (simp add: createLeader_def Let_def emit_annotation_def)

lemma two_leaders:
  assumes "activeTool props = Some ''leader''" and "\<not> isReadOnly props"
  shows "\<exists>a b. added_annotations
            (res_calls (run_events props cl [(envA, MouseDown pA), (envB, MouseDown pB)] cs)) = [a, b]
          \<and> ann_id a = date_now envA \<and> ann_id b = date_now envB
          \<and> ann_data a = LeaderData pA \<and> ann_data b = LeaderData pB"
proof -
  let ?r1 = "createLeader props envA pA cs"
  let ?r2 = "createLeader props envB pB (res_state ?r1)"
  obtain a where a: "added_annotations (res_calls ?r1) = [a]
     \<and> ann_id a = date_now envA \<and> ann_data a = LeaderData pA"
    using createLeader_added [of props envA pA cs] ..
  obtain b where b: "added_annotations (res_calls ?r2) = [b]
     \<and> ann_id b = date_now envB \<and> ann_data b = LeaderData pB"
    using createLeader_added [of props envB pB "res_state ?r1"] ..
  have "added_annotations (res_calls (run_events props cl [(envA, MouseDown pA), (envB, MouseDown pB)] cs))
        = added_annotations (res_calls ?r1) @ added_annotations (res_calls ?r2)"
    by (simp add: leader_click [OF assms] Let_def finish_def added_append)
  with a b show ?thesis
    by (intro exI [of _ a] exI [of _ b]) simp
qed

text \<open>
  Claim C4, as the code has it. The id of every annotation record that a handler of the
  canvas adds is the value of \<^verbatim>\<open>Date.now()\<close> during that handler, with no random part, so
  two records created at different clock values have different ids. The update that the
  canvas sends for a modified object carries a record with the id it replaces, and the
  store's update with it leaves the ids of the store as they were. The id of a capture
  record is the clock value in decimal followed by the random suffix.
\<close>

theorem annotation_ids_are_clock_values:
  "(\<forall>a \<in> set (added_annotations (res_calls (canvas_step props env ev cl cs))). ann_id a = date_now env)
   \<and> (annA \<in> set (added_annotations (res_calls (canvas_step propsA envA evA clA csA)))
        \<and> annB \<in> set (added_annotations (res_calls (canvas_step propsB envB evB clB csB)))
        \<and> date_now envA \<noteq> date_now envB \<longrightarrow> ann_id annA \<noteq> ann_id annB)
   \<and> (AnnotationUpdate i u \<in> set (res_calls (canvas_step props env ev cl cs)) \<longrightarrow>
        ann_id u = i
        \<and> map ann_id (annotations (handleAnnotationUpdate i u w)) = map ann_id (annotations w))
   \<and> capture_id (fst (addCapture senv cenv image_data meta m))
        = integer_toString (clock_now cenv) @ random_suffix cenv"
proof (intro conjI)
  show "\<forall>a \<in> set (added_annotations (res_calls (canvas_step props env ev cl cs))). ann_id a = date_now env"
    by (simp add: canvas_step_ids)
  show "annA \<in> set (added_annotations (res_calls (canvas_step propsA envA evA clA csA)))
        \<and> annB \<in> set (added_annotations (res_calls (canvas_step propsB envB evB clB csB)))
        \<and> date_now envA \<noteq> date_now envB \<longrightarrow> ann_id annA \<noteq> ann_id annB"
    using canvas_step_ids [of annA propsA envA evA clA csA] canvas_step_ids [of annB propsB envB evB clB csB]
    by simp
  show "AnnotationUpdate i u \<in> set (res_calls (canvas_step props env ev cl cs)) \<longrightarrow>
        ann_id u = i
        \<and> map ann_id (annotations (handleAnnotationUpdate i u w)) = map ann_id (annotations w)"
    using canvas_step_update_keeps_id [of i u props env ev cl cs] update_keeps_ids [of u i w]
    by simp
  show "capture_id (fst (addCapture senv cenv image_data meta m))
        = integer_toString (clock_now cenv) @ random_suffix cenv"
    by (simp add: addCapture_def Let_def)
qed

theorem annotation_ids_are_clock_values_witness:
  "(\<exists>a1 a2.
      added_annotations (res_calls (canvas_step (mounted_props (mounted_with ''leader''))
        (at_time 1000) (MouseDown \<lparr>px = Fin 0, py = Fin 0\<rparr>) initial_cells initial_canvas)) = [a1]
      \<and> added_annotations (res_calls (canvas_step (mounted_props (mounted_with ''leader''))
        (at_time 2000) (MouseDown \<lparr>px = Fin 10, py = Fin 10\<rparr>) initial_cells initial_canvas)) = [a2]
      \<and> ann_id a1 = 1000 \<and> ann_id a2 = 2000 \<and> ann_id a1 \<noteq> ann_id a2)"
proof -
  let ?P = "mounted_props (mounted_with ''leader'')"
  let ?E1 = "at_time 1000"
  let ?E2 = "at_time 2000"
  let ?r1 = "canvas_step ?P ?E1 (MouseDown \<lparr>px = Fin 0, py = Fin 0\<rparr>) initial_cells initial_canvas"
  let ?r2 = "canvas_step ?P ?E2 (MouseDown \<lparr>px = Fin 10, py = Fin 10\<rparr>) initial_cells initial_canvas"
  have tool: "activeTool ?P = Some ''leader''" and rw: "\<not> isReadOnly ?P"
    by (simp_all add: mounted_with_def)
  have clock: "date_now ?E1 = 1000" "date_now ?E2 = 2000" by (simp_all add: at_time_def)
  obtain a1 where a1: "added_annotations (res_calls ?r1) = [a1]"
    using createLeader_added [of ?P ?E1 "\<lparr>px = Fin 0, py = Fin 0\<rparr>" initial_canvas]
    by (auto simp: leader_click [OF tool rw])
  obtain a2 where a2: "added_annotations (res_calls ?r2) = [a2]"
    using createLeader_added [of ?P ?E2 "\<lparr>px = Fin 10, py = Fin 10\<rparr>" initial_canvas]
    by (auto simp: leader_click [OF tool rw])
  note t = annotation_ids_are_clock_values [where props = ?P and env = ?E1
      and ev = "MouseDown \<lparr>px = Fin 0, py = Fin 0\<rparr>" and cl = initial_cells and cs = initial_canvas
      and propsA = ?P and envA = ?E1 and evA = "MouseDown \<lparr>px = Fin 0, py = Fin 0\<rparr>"
      and clA = initial_cells and csA = initial_canvas
      and propsB = ?P and envB = ?E2 and evB = "MouseDown \<lparr>px = Fin 10, py = Fin 10\<rparr>"
      and clB = initial_cells and csB = initial_canvas
      and annA = a1 and annB = a2]
  have i1: "ann_id a1 = 1000" using t [THEN conjunct1] a1 clock by simp
  have "ann_id a1 \<noteq> ann_id a2" using t [THEN conjunct2, THEN conjunct1] a1 a2 clock by simp
  moreover have "ann_id a2 = 2000"
    using annotation_ids_are_clock_values [where props = ?P and env = ?E2
      and ev = "MouseDown \<lparr>px = Fin 10, py = Fin 10\<rparr>" and cl = initial_cells
      and cs = initial_canvas, THEN conjunct1] a2 clock
    by simp
  ultimately show ?thesis
    using a1 a2 i1 by (intro exI [of _ a1] exI [of _ a2]) simp
qed

text \<open>
  The claim as stated asks for different ids on any two distinct records. Two leaders
  placed at different points during the same millisecond are two different records with
  the same id. (createLeader reads no state cell, so the closures of the mount render
  place a leader at every click.)
\<close>

theorem same_clock_same_id_counterexample:
  "\<exists>a1 a2. added_annotations (res_calls (run_events (mounted_props (mounted_with ''leader''))
        initial_cells
        [(at_time 1000, MouseDown \<lparr>px = Fin 0, py = Fin 0\<rparr>),
         (at_time 1000, MouseDown \<lparr>px = Fin 10, py = Fin 10\<rparr>)]
        initial_canvas)) = [a1, a2]
     \<and> a1 \<noteq> a2 \<and> ann_id a1 = ann_id a2"
proof -
  let ?P = "mounted_props (mounted_with ''leader'')"
  let ?E = "at_time 1000"
  have tool: "activeTool ?P = Some ''leader''" and rw: "\<not> isReadOnly ?P"
    by (simp_all add: mounted_with_def)
  obtain a1 a2 where a: "added_annotations (res_calls (run_events ?P initial_cells
        [(?E, MouseDown \<lparr>px = Fin 0, py = Fin 0\<rparr>), (?E, MouseDown \<lparr>px = Fin 10, py = Fin 10\<rparr>)]
        initial_canvas)) = [a1, a2]
      \<and> ann_id a1 = date_now ?E \<and> ann_id a2 = date_now ?E
      \<and> ann_data a1 = LeaderData \<lparr>px = Fin 0, py = Fin 0\<rparr>
      \<and> ann_data a2 = LeaderData \<lparr>px = Fin 10, py = Fin 10\<rparr>"
    using two_leaders [OF tool rw, where cl = initial_cells and envA = ?E
        and pA = "\<lparr>px = Fin 0, py = Fin 0\<rparr>" and envB = ?E and pB = "\<lparr>px = Fin 10, py = Fin 10\<rparr>"
        and cs = initial_canvas]
    by (elim exE)
  then have "ann_data a1 \<noteq> ann_data a2" by simp
  then have "a1 \<noteq> a2" by auto
  with a show ?thesis
    by (intro exI [of _ a1] exI [of _ a2]) simp
qed

section \<open>Store records and canvas shapes\<close>








section \<open>Properties of the pixel filters\<close>

lemma alpha_kept_refl: "alpha_kept d d"
  by (simp add: alpha_kept_def)

lemma alpha_kept_trans: "alpha_kept a b \<Longrightarrow> alpha_kept b c \<Longrightarrow> alpha_kept a c"
  by (simp add: alpha_kept_def)

lemma set_byte_alpha:
  assumes "i mod 4 \<noteq> 3"
  shows "alpha_kept d (set_byte d i v)"
proof (cases "0 \<le> i \<and> i < int (length d)")
  case False
  then show ?thesis by (auto simp: set_byte_def alpha_kept_def)
next
  case True
  have "d[nat i := toUint8Clamp v] ! j = d ! j" if "j mod 4 = 3" for j
  proof -
    have "int (j mod 4) = int j mod 4" by (simp add: zmod_int)
    with that have "int j mod 4 = 3" by simp
    with assms have "int j \<noteq> i" by auto
    with True have "nat i \<noteq> j" by auto
    then show ?thesis by simp
  qed
  with True show ?thesis by (simp add: set_byte_def alpha_kept_def)
qed

lemma set_rgb_alpha:
  assumes "idx mod 4 = 0"
  shows "alpha_kept d (set_rgb d idx r g b)"
proof -
  from assms have m: "idx mod 4 \<noteq> 3" "(idx + 1) mod 4 \<noteq> 3" "(idx + 2) mod 4 \<noteq> 3"
    by presburger+
  have "alpha_kept d (set_byte d idx r)" using m(1) by (rule set_byte_alpha)
  moreover have "alpha_kept (set_byte d idx r) (set_byte (set_byte d idx r) (idx + 1) g)"
    using m(2) by (rule set_byte_alpha)
  moreover have "alpha_kept (set_byte (set_byte d idx r) (idx + 1) g)
      (set_byte (set_byte (set_byte d idx r) (idx + 1) g) (idx + 2) b)"
    using m(3) by (rule set_byte_alpha)
  ultimately show ?thesis
    unfolding set_rgb_def by (blast intro: alpha_kept_trans)
qed

lemma fold_alpha:
  assumes "\<And>x e. x \<in> set xs \<Longrightarrow> alpha_kept e (f x e)"
  shows "alpha_kept d (fold f xs d)"
  using assms
proof (induction xs arbitrary: d)
  case Nil
  show ?case by (simp add: alpha_kept_refl)
next
  case (Cons x xs)
  have "alpha_kept d (f x d)" by (rule Cons.prems) simp
  moreover have "alpha_kept (f x d) (fold f xs (f x d))"
    by (rule Cons.IH) (simp add: Cons.prems)
  ultimately show ?case by (simp add: alpha_kept_trans)
qed

lemma pixel_offsets_mod: "i \<in> set (pixel_offsets d) \<Longrightarrow> i mod 4 = 0"
  by (auto simp: pixel_offsets_def)

lemma pixel_index_mod: "((y * width + x) * 4) mod 4 = (0::int)"
  by simp

lemma grayscale_pixel_alpha: "i mod 4 = 0 \<Longrightarrow> alpha_kept d (grayscale_pixel i d)"
  by (simp add: grayscale_pixel_def Let_def set_rgb_alpha)

lemma threshold_pixel_alpha: "i mod 4 = 0 \<Longrightarrow> alpha_kept d (threshold_pixel c i d)"
  by (simp add: threshold_pixel_def Let_def set_rgb_alpha)

lemma adjust_pixel_alpha:
  assumes "i mod 4 = 0"
  shows "alpha_kept d (adjust_pixel br co i d)"
proof -
  from assms have m: "i mod 4 \<noteq> 3" "(i + 1) mod 4 \<noteq> 3" "(i + 2) mod 4 \<noteq> 3"
    by presburger+
  have step: "alpha_kept e (adjust_channel br co j e)" if "j mod 4 \<noteq> 3" for j e
    using that by (simp add: adjust_channel_def set_byte_alpha)
  have "alpha_kept d (adjust_channel br co i d)" by (rule step [OF m(1)])
  moreover have "alpha_kept (adjust_channel br co i d)
      (adjust_channel br co (i + 1) (adjust_channel br co i d))" by (rule step [OF m(2)])
  moreover have "alpha_kept (adjust_channel br co (i + 1) (adjust_channel br co i d))
      (adjust_channel br co (i + 2) (adjust_channel br co (i + 1) (adjust_channel br co i d)))"
    by (rule step [OF m(3)])
  ultimately show ?thesis
    unfolding adjust_pixel_def by (metis alpha_kept_trans)
qed

lemma invert_pixel_alpha:
  assumes "i mod 4 = 0"
  shows "alpha_kept d (invert_pixel i d)"
proof -
  from assms have m: "i mod 4 \<noteq> 3" "(i + 1) mod 4 \<noteq> 3" "(i + 2) mod 4 \<noteq> 3"
    by presburger+
  define d1 where "d1 = set_byte d i (Fin 255 - get_byte d i)"
  define d2 where "d2 = set_byte d1 (i + 1) (Fin 255 - get_byte d1 (i + 1))"
  have "alpha_kept d d1" unfolding d1_def by (rule set_byte_alpha [OF m(1)])
  moreover have "alpha_kept d1 d2" unfolding d2_def by (rule set_byte_alpha [OF m(2)])
  moreover have "alpha_kept d2 (set_byte d2 (i + 2) (Fin 255 - get_byte d2 (i + 2)))"
    by (rule set_byte_alpha [OF m(3)])
  ultimately have "alpha_kept d (set_byte d2 (i + 2) (Fin 255 - get_byte d2 (i + 2)))"
    by (metis alpha_kept_trans)
  then show ?thesis
    by (simp add: invert_pixel_def Let_def d1_def d2_def)
qed

lemma equalize_pixel_alpha: "i mod 4 = 0 \<Longrightarrow> alpha_kept d (equalize_pixel g c i d)"
  by (simp add: equalize_pixel_def Let_def set_rgb_alpha)

lemma median_pixel_alpha: "alpha_kept nd (median_pixel data width h p nd)"
  by (cases p) (simp add: median_pixel_def Let_def set_rgb_alpha)

lemma sobel_pixel_alpha: "alpha_kept nd (sobel_pixel Math_sqrt gd width p nd)"
  by (cases p) (simp add: sobel_pixel_def Let_def set_rgb_alpha)

lemma noise_pixel_alpha: "alpha_kept nd (noise_pixel data width p nd)"
  by (cases p) (simp add: noise_pixel_def Let_def set_rgb_alpha)

lemma convolve_pixel_alpha: "alpha_kept nd (convolve_pixel k data width h p nd)"
  by (cases p) (simp add: convolve_pixel_def Let_def set_rgb_alpha)

lemma morphological_pixel_alpha: "alpha_kept nd (morphological_pixel op bd width h p nd)"
  by (cases p) (simp add: morphological_pixel_def Let_def set_rgb_alpha)

lemma keeps_alpha_error:
  "img_width bitmap = 0 \<or> img_height bitmap = 0 \<Longrightarrow> keeps_alpha bitmap (Inl err)"
  by (auto simp: keeps_alpha_def)

lemma keeps_alpha_put:
  assumes "\<not> (img_width bitmap = 0 \<or> img_height bitmap = 0)"
    and "alpha_kept (img_data bitmap) nd"
  shows "keeps_alpha bitmap (Inr (putImageData other (bitmap\<lparr>img_data := nd\<rparr>)))"
  using assms by (simp add: keeps_alpha_def putImageData_def)

lemma getImageData_cases:
  "getImageData bitmap =
     (if img_width bitmap = 0 \<or> img_height bitmap = 0
      then Inl (JSError ''IndexSizeError'' ''The source width or height is 0.'')
      else Inr bitmap)"
  by (simp add: getImageData_def)

lemma offsets_fold_alpha:
  assumes "\<And>i e. i mod 4 = 0 \<Longrightarrow> alpha_kept e (f i e)"
  shows "alpha_kept d (fold f (pixel_offsets d') d)"
  by (rule fold_alpha) (simp add: assms pixel_offsets_mod)

lemma grayscale_keeps_alpha: "keeps_alpha bitmap (grayscale bitmap)"
proof (cases "img_width bitmap = 0 \<or> img_height bitmap = 0")
  case True
  then show ?thesis
    by (auto simp: grayscale_def getImageData_cases intro!: keeps_alpha_error)
next
  case False
  have "alpha_kept (img_data bitmap)
          (fold grayscale_pixel (pixel_offsets (img_data bitmap)) (img_data bitmap))"
    by (rule offsets_fold_alpha) (rule grayscale_pixel_alpha)
  from keeps_alpha_put [OF False this] False show ?thesis
    by (simp add: grayscale_def getImageData_cases)
qed

lemma invert_keeps_alpha: "keeps_alpha bitmap (invert bitmap)"
proof (cases "img_width bitmap = 0 \<or> img_height bitmap = 0")
  case True
  then show ?thesis
    by (auto simp: invert_def getImageData_cases intro!: keeps_alpha_error)
next
  case False
  have "alpha_kept (img_data bitmap)
          (fold invert_pixel (pixel_offsets (img_data bitmap)) (img_data bitmap))"
    by (rule offsets_fold_alpha) (rule invert_pixel_alpha)
  from keeps_alpha_put [OF False this] False show ?thesis
    by (simp add: invert_def getImageData_cases)
qed

lemma adjust_keeps_alpha: "keeps_alpha bitmap (adjustBrightnessContrast br co bitmap)"
proof (cases "img_width bitmap = 0 \<or> img_height bitmap = 0")
  case True
  then show ?thesis
    by (auto simp: adjustBrightnessContrast_def getImageData_cases intro!: keeps_alpha_error)
next
  case False
  have "alpha_kept (img_data bitmap)
          (fold (adjust_pixel br co) (pixel_offsets (img_data bitmap)) (img_data bitmap))"
    by (rule offsets_fold_alpha) (rule adjust_pixel_alpha)
  from keeps_alpha_put [OF False this] False show ?thesis
    by (simp add: adjustBrightnessContrast_def getImageData_cases)
qed

lemma threshold_keeps_alpha: "keeps_alpha bitmap (threshold c bitmap)"
proof (cases "img_width bitmap = 0 \<or> img_height bitmap = 0")
  case True
  then show ?thesis
    by (auto simp: threshold_def getImageData_cases intro!: keeps_alpha_error)
next
  case False
  have "alpha_kept (img_data bitmap)
          (fold (threshold_pixel c) (pixel_offsets (img_data bitmap)) (img_data bitmap))"
    by (rule offsets_fold_alpha) (rule threshold_pixel_alpha)
  from keeps_alpha_put [OF False this] False show ?thesis
    by (simp add: threshold_def getImageData_cases)
qed

lemma medianFilter_keeps_alpha: "keeps_alpha bitmap (medianFilter k bitmap)"
proof (cases "img_width bitmap = 0 \<or> img_height bitmap = 0")
  case True
  then show ?thesis
    by (auto simp: medianFilter_def getImageData_cases intro!: keeps_alpha_error)
next
  case False
  have "alpha_kept (img_data bitmap)
          (fold (median_pixel (img_data bitmap) (int (img_width bitmap)) \<lfloor>k / 2\<rfloor>)
             (interior_pixels \<lfloor>k / 2\<rfloor> (int (img_width bitmap)) (int (img_height bitmap)))
             (img_data bitmap))"
    by (rule fold_alpha) (rule median_pixel_alpha)
  from keeps_alpha_put [OF False this] False show ?thesis
    by (simp add: medianFilter_def getImageData_cases Let_def)
qed

lemma noiseReduction_keeps_alpha: "keeps_alpha bitmap (noiseReduction bitmap)"
proof (cases "img_width bitmap = 0 \<or> img_height bitmap = 0")
  case True
  then show ?thesis
    by (auto simp: noiseReduction_def getImageData_cases intro!: keeps_alpha_error)
next
  case False
  have "alpha_kept (img_data bitmap)
          (fold (noise_pixel (img_data bitmap) (int (img_width bitmap)))
             (interior_pixels 1 (int (img_width bitmap)) (int (img_height bitmap)))
             (img_data bitmap))"
    by (rule fold_alpha) (rule noise_pixel_alpha)
  from keeps_alpha_put [OF False this] False show ?thesis
    by (simp add: noiseReduction_def getImageData_cases Let_def)
qed

lemma applyConvolution_keeps_alpha: "keeps_alpha bitmap (applyConvolution kern bitmap)"
proof (cases "img_width bitmap = 0 \<or> img_height bitmap = 0")
  case True
  then show ?thesis
    by (auto simp: applyConvolution_def getImageData_cases intro!: keeps_alpha_error)
next
  case False
  have "alpha_kept (img_data bitmap)
          (fold (convolve_pixel kern (img_data bitmap) (int (img_width bitmap)) (int (length kern) div 2))
             (interior_pixels (int (length kern) div 2) (int (img_width bitmap)) (int (img_height bitmap)))
             (img_data bitmap))"
    by (rule fold_alpha) (rule convolve_pixel_alpha)
  from keeps_alpha_put [OF False this] False show ?thesis
    by (simp add: applyConvolution_def getImageData_cases Let_def)
qed

lemma rewrap_keeps_alpha:
  assumes "keeps_alpha bitmap r"
  shows "keeps_alpha bitmap (case r of Inl err \<Rightarrow> Inl (rethrow prefix err) | Inr result \<Rightarrow> Inr result)"
  using assms by (auto simp: keeps_alpha_def split: if_splits)

lemma gaussianBlur_keeps_alpha: "keeps_alpha bitmap (gaussianBlur Math_exp k sigma bitmap)"
  unfolding gaussianBlur_def by (rule rewrap_keeps_alpha) (rule applyConvolution_keeps_alpha)

lemma sharpen_keeps_alpha: "keeps_alpha bitmap (sharpen bitmap)"
  unfolding sharpen_def by (rule rewrap_keeps_alpha) (rule applyConvolution_keeps_alpha)

lemma sobel_keeps_alpha: "keeps_alpha bitmap (sobelEdgeDetection Math_sqrt bitmap)"
proof (cases "img_width bitmap = 0 \<or> img_height bitmap = 0")
  case True
  then show ?thesis
    by (auto simp: sobelEdgeDetection_def getImageData_cases intro!: keeps_alpha_error)
next
  case False
  with grayscale_keeps_alpha [of bitmap] obtain gb where
    gb: "grayscale bitmap = Inr gb" "img_width gb = img_width bitmap" "img_height gb = img_height bitmap"
    by (auto simp: keeps_alpha_def)
  have "alpha_kept (img_data bitmap)
          (fold (sobel_pixel Math_sqrt (img_data gb) (int (img_width bitmap)))
             (interior_pixels 1 (int (img_width bitmap)) (int (img_height bitmap)))
             (img_data bitmap))"
    by (rule fold_alpha) (rule sobel_pixel_alpha)
  from keeps_alpha_put [OF False this] False gb show ?thesis
    by (simp add: sobelEdgeDetection_def getImageData_cases Let_def)
qed

lemma histogramEqualization_keeps_alpha: "keeps_alpha bitmap (histogramEqualization bitmap)"
proof (cases "img_width bitmap = 0 \<or> img_height bitmap = 0")
  case True
  then show ?thesis
    by (auto simp: histogramEqualization_def getImageData_cases intro!: keeps_alpha_error)
next
  case False
  with grayscale_keeps_alpha [of bitmap] obtain gb where
    gb: "grayscale bitmap = Inr gb" "img_width gb = img_width bitmap" "img_height gb = img_height bitmap"
    by (auto simp: keeps_alpha_def)
  have "alpha_kept (img_data bitmap) (fold (equalize_pixel g c) (pixel_offsets (img_data bitmap)) (img_data bitmap))"
    for g c
    by (rule offsets_fold_alpha) (rule equalize_pixel_alpha)
  from keeps_alpha_put [OF False this] False gb show ?thesis
    by (simp add: histogramEqualization_def getImageData_cases Let_def)
qed

lemma morphologicalOperation_keeps_alpha: "keeps_alpha bitmap (morphologicalOperation op k bitmap)"
proof (cases "img_width bitmap = 0 \<or> img_height bitmap = 0")
  case True
  then show ?thesis
    by (auto simp: morphologicalOperation_def getImageData_cases intro!: keeps_alpha_error)
next
  case False
  with threshold_keeps_alpha [of bitmap "Fin 128"] obtain bb where
    bb: "threshold (Fin 128) bitmap = Inr bb" "img_width bb = img_width bitmap"
      "img_height bb = img_height bitmap"
    by (auto simp: keeps_alpha_def)
  have "alpha_kept (img_data bitmap)
          (fold (morphological_pixel op (img_data bb) (int (img_width bitmap)) \<lfloor>k / 2\<rfloor>)
             (interior_pixels \<lfloor>k / 2\<rfloor> (int (img_width bitmap)) (int (img_height bitmap)))
             (img_data bitmap))"
    by (rule fold_alpha) (rule morphological_pixel_alpha)
  from keeps_alpha_put [OF False this] False bb show ?thesis
    by (simp add: morphologicalOperation_def getImageData_cases Let_def)
qed

lemma erosion_keeps_alpha: "keeps_alpha bitmap (erosion k bitmap)"
  unfolding erosion_def by (rule rewrap_keeps_alpha) (rule morphologicalOperation_keeps_alpha)

lemma dilation_keeps_alpha: "keeps_alpha bitmap (dilation k bitmap)"
  unfolding dilation_def by (rule rewrap_keeps_alpha) (rule morphologicalOperation_keeps_alpha)

lemma get_byte_nat: "k < length d \<Longrightarrow> get_byte d (int k) = Fin (real (unat (d ! k)))"
  by (simp add: get_byte_def byte_at_def)

lemma set_byte_nat: "k < length d \<Longrightarrow> set_byte d (int k) v = d[k := toUint8Clamp v]"
  by (simp add: set_byte_def)

lemma grayscale_pixel_in_range:
  assumes "4 * m + 3 < length d"
  shows "grayscale_pixel (4 * int m) d =
     d[4 * m := stored_gray (d ! (4 * m)) (d ! (4 * m + 1)) (d ! (4 * m + 2)),
       4 * m + 1 := stored_gray (d ! (4 * m)) (d ! (4 * m + 1)) (d ! (4 * m + 2)),
       4 * m + 2 := stored_gray (d ! (4 * m)) (d ! (4 * m + 1)) (d ! (4 * m + 2))]"
proof -
  have r: "4 * m < length d" "4 * m + 1 < length d" "4 * m + 2 < length d"
    using assms by simp_all
  let ?v = "weighted_gray (Fin (real (unat (d ! (4 * m))))) (Fin (real (unat (d ! (4 * m + 1)))))
              (Fin (real (unat (d ! (4 * m + 2)))))"
  have g: "get_byte d (4 * int m) = Fin (real (unat (d ! (4 * m))))"
    "get_byte d (4 * int m + 1) = Fin (real (unat (d ! (4 * m + 1))))"
    "get_byte d (4 * int m + 2) = Fin (real (unat (d ! (4 * m + 2))))"
    using get_byte_nat [OF r(1)] get_byte_nat [OF r(2)] get_byte_nat [OF r(3)]
    by (simp_all add: add.commute)
  have w1: "set_byte d (4 * int m) ?v = d[4 * m := toUint8Clamp ?v]"
    using set_byte_nat [OF r(1), of ?v] by simp
  have "4 * m + 1 < length (d[4 * m := toUint8Clamp ?v])" using r(2) by simp
  from set_byte_nat [OF this, of ?v]
  have w2: "set_byte (d[4 * m := toUint8Clamp ?v]) (4 * int m + 1) ?v
      = d[4 * m := toUint8Clamp ?v, 4 * m + 1 := toUint8Clamp ?v]"
    by (simp add: add.commute)
  have "4 * m + 2 < length (d[4 * m := toUint8Clamp ?v, 4 * m + 1 := toUint8Clamp ?v])"
    using r(3) by simp
  from set_byte_nat [OF this, of ?v]
  have w3: "set_byte (d[4 * m := toUint8Clamp ?v, 4 * m + 1 := toUint8Clamp ?v]) (4 * int m + 2) ?v
      = d[4 * m := toUint8Clamp ?v, 4 * m + 1 := toUint8Clamp ?v, 4 * m + 2 := toUint8Clamp ?v]"
    by (simp add: add.commute)
  show ?thesis
    unfolding grayscale_pixel_def Let_def g set_rgb_def w1 w2 w3 stored_gray_def ..
qed

lemma pixel_offsets_whole:
  "length d = 4 * n \<Longrightarrow> pixel_offsets d = map (\<lambda>k. 4 * int k) [0..<n]"
  by (simp add: pixel_offsets_def)

lemma grayscale_fold:
  assumes "length d = 4 * n" and "m \<le> n"
  shows "length (fold grayscale_pixel (map (\<lambda>k. 4 * int k) [0..<m]) d) = length d
       \<and> (\<forall>k < m. fold grayscale_pixel (map (\<lambda>k. 4 * int k) [0..<m]) d ! (4 * k)
                     = stored_gray (d ! (4 * k)) (d ! (4 * k + 1)) (d ! (4 * k + 2))
                 \<and> fold grayscale_pixel (map (\<lambda>k. 4 * int k) [0..<m]) d ! (4 * k + 1)
                     = stored_gray (d ! (4 * k)) (d ! (4 * k + 1)) (d ! (4 * k + 2))
                 \<and> fold grayscale_pixel (map (\<lambda>k. 4 * int k) [0..<m]) d ! (4 * k + 2)
                     = stored_gray (d ! (4 * k)) (d ! (4 * k + 1)) (d ! (4 * k + 2)))
       \<and> (\<forall>j. 4 * m \<le> j \<longrightarrow> fold grayscale_pixel (map (\<lambda>k. 4 * int k) [0..<m]) d ! j = d ! j)"
  using assms(2)
proof (induction m)
  case 0
  show ?case by simp
next
  case (Suc m)
  let ?r = "fold grayscale_pixel (map (\<lambda>k. 4 * int k) [0..<m]) d"
  from Suc have ih: "length ?r = length d"
    "\<And>k. k < m \<Longrightarrow> ?r ! (4 * k) = stored_gray (d ! (4 * k)) (d ! (4 * k + 1)) (d ! (4 * k + 2))
        \<and> ?r ! (4 * k + 1) = stored_gray (d ! (4 * k)) (d ! (4 * k + 1)) (d ! (4 * k + 2))
        \<and> ?r ! (4 * k + 2) = stored_gray (d ! (4 * k)) (d ! (4 * k + 1)) (d ! (4 * k + 2))"
    "\<And>j. 4 * m \<le> j \<Longrightarrow> ?r ! j = d ! j"
    by simp_all
  from Suc.prems assms(1) ih(1) have rng: "4 * m + 3 < length ?r" by simp
  let ?g = "stored_gray (d ! (4 * m)) (d ! (4 * m + 1)) (d ! (4 * m + 2))"
  have step: "fold grayscale_pixel (map (\<lambda>k. 4 * int k) [0..<Suc m]) d
      = ?r[4 * m := ?g, 4 * m + 1 := ?g, 4 * m + 2 := ?g]"
    using grayscale_pixel_in_range [OF rng] ih(3) by simp
  have len: "length (?r[4 * m := ?g, 4 * m + 1 := ?g, 4 * m + 2 := ?g]) = length d"
    using ih(1) by simp
  have old: "(?r[4 * m := ?g, 4 * m + 1 := ?g, 4 * m + 2 := ?g]) ! (4 * k + c)
      = ?r ! (4 * k + c)" if "k < m" "c < 4" for k c
  proof -
    from that have "4 * k + c \<noteq> 4 * m" "4 * k + c \<noteq> 4 * m + 1" "4 * k + c \<noteq> 4 * m + 2"
      by arith+
    then show ?thesis by simp
  qed
  have new: "(?r[4 * m := ?g, 4 * m + 1 := ?g, 4 * m + 2 := ?g]) ! (4 * m) = ?g"
    "(?r[4 * m := ?g, 4 * m + 1 := ?g, 4 * m + 2 := ?g]) ! (4 * m + 1) = ?g"
    "(?r[4 * m := ?g, 4 * m + 1 := ?g, 4 * m + 2 := ?g]) ! (4 * m + 2) = ?g"
    using rng by simp_all
  have rest: "(?r[4 * m := ?g, 4 * m + 1 := ?g, 4 * m + 2 := ?g]) ! j = d ! j"
    if "4 * Suc m \<le> j" for j
    using that ih(3) [of j] by simp
  have pix: "(?r[4 * m := ?g, 4 * m + 1 := ?g, 4 * m + 2 := ?g]) ! (4 * k)
        = stored_gray (d ! (4 * k)) (d ! (4 * k + 1)) (d ! (4 * k + 2))
      \<and> (?r[4 * m := ?g, 4 * m + 1 := ?g, 4 * m + 2 := ?g]) ! (4 * k + 1)
        = stored_gray (d ! (4 * k)) (d ! (4 * k + 1)) (d ! (4 * k + 2))
      \<and> (?r[4 * m := ?g, 4 * m + 1 := ?g, 4 * m + 2 := ?g]) ! (4 * k + 2)
        = stored_gray (d ! (4 * k)) (d ! (4 * k + 1)) (d ! (4 * k + 2))"
    if "k < Suc m" for k
  proof (cases "k = m")
    case True
    then show ?thesis using new by simp
  next
    case False
    with that have km: "k < m" by simp
    show ?thesis
      using old [OF km, of 0] old [OF km, of 1] old [OF km, of 2] ih(2) [OF km] by simp
  qed
  show ?case
    unfolding step using len pix rest by blast
qed

lemma unat_of_int_byte:
  assumes "0 \<le> n" "n < 256"
  shows "unat (of_int n :: 8 word) = nat n"
  using assms by (simp add: unat_eq_nat_uint uint_word_of_int)

lemma toUint8Clamp_low: "x \<le> 0 \<Longrightarrow> toUint8Clamp (Fin x) = 0"
  by (simp add: toUint8Clamp_def)

lemma toUint8Clamp_high: "255 \<le> x \<Longrightarrow> toUint8Clamp (Fin x) = 255"
  by (simp add: toUint8Clamp_def)

lemma toUint8Clamp_near:
  assumes "0 < x" "x < 255"
  shows "\<bar>real (unat (toUint8Clamp (Fin x))) - x\<bar> \<le> 1 / 2"
proof -
  let ?f = "\<lfloor>x\<rfloor>"
  have f: "0 \<le> ?f" "?f < 255" using assms by (simp_all add: floor_less_iff)
  have fx: "real_of_int ?f \<le> x" "x < real_of_int ?f + 1" by linarith+
  have u0: "real (unat (of_int ?f :: 8 word)) = real_of_int ?f"
    using unat_of_int_byte [of ?f] f by simp
  have u1: "real (unat (of_int (?f + 1) :: 8 word)) = real_of_int ?f + 1"
    using unat_of_int_byte [of "?f + 1"] f by simp
  show ?thesis
    using assms fx u0 u1 by (auto simp: toUint8Clamp_def Let_def)
qed

lemma byte_range: "0 \<le> real (unat (w :: 8 word))" "real (unat w) \<le> 255"
proof -
  show "0 \<le> real (unat w)" by (rule of_nat_0_le_iff)
  have "unat w < 2 ^ 8" using unsigned_less [of w, where ?'a = nat] by simp
  then have "unat w \<le> 255" by simp
  then have "real (unat w) \<le> real 255" by (simp only: of_nat_le_iff)
  then show "real (unat w) \<le> 255" by simp
qed

lemma literal_near:
  assumes "\<bar>c\<bar> < 2"
  shows "\<exists>y. number_for c = Fin y \<and> \<bar>y - c\<bar> \<le> 1 / 2 ^ 53"
  using number_for_near [of 0 c] assms by (simp add: pow2_def)

lemma scaled_literal:
  assumes "0 \<le> R" "R \<le> 255" "0 \<le> c" "c \<le> 1"
  shows "\<exists>p. Fin R * number_for c = Fin p \<and> \<bar>p - c * R\<bar> \<le> 1 / 2 ^ 44"
proof -
  from literal_near [of c] assms(3,4) obtain y where
    y: "number_for c = Fin y" "\<bar>y - c\<bar> \<le> 1 / 2 ^ 53"
    by auto
  have "R * y - c * R = R * (y - c)" by (simp add: algebra_simps)
  then have "\<bar>R * y - c * R\<bar> = \<bar>R\<bar> * \<bar>y - c\<bar>" by (simp only: abs_mult)
  also have "\<dots> = R * \<bar>y - c\<bar>" using assms(1) by simp
  also have "\<dots> \<le> 255 * (1 / 2 ^ 53)"
    using assms(1,2) y(2) by (intro mult_mono) simp_all
  finally have lit: "\<bar>R * y - c * R\<bar> \<le> 255 / 2 ^ 53" by simp
  have "c * R \<le> 1 * 255" using assms by (intro mult_mono) simp_all
  moreover have "0 \<le> c * R" using assms by simp
  ultimately have "\<bar>R * y\<bar> < 256" using lit by (simp add: abs_if split: if_splits)
  then have "\<bar>R * y\<bar> < pow2 (7 + 1)" by (simp add: pow2_def)
  from number_for_near [OF _ _ this] obtain p where
    p: "number_for (R * y) = Fin p" "\<bar>p - R * y\<bar> \<le> pow2 (7 - 53)"
    by auto
  from p(2) have "\<bar>p - R * y\<bar> \<le> 1 / 2 ^ 46" by (simp add: pow2_def)
  with lit have "\<bar>p - c * R\<bar> \<le> 1 / 2 ^ 46 + 255 / 2 ^ 53" by linarith
  also have "\<dots> \<le> 1 / 2 ^ 44" by simp
  finally have "\<bar>p - c * R\<bar> \<le> 1 / 2 ^ 44" .
  with y(1) p(1) show ?thesis by simp
qed

lemma sum_near:
  assumes "\<bar>a + b\<bar> < 512"
  shows "\<exists>s. Fin a + Fin b = Fin s \<and> \<bar>s - (a + b)\<bar> \<le> 1 / 2 ^ 45"
proof -
  from assms have "\<bar>a + b\<bar> < pow2 (8 + 1)" by (simp add: pow2_def)
  from number_for_near [OF _ _ this] obtain s where
    "number_for (a + b) = Fin s" "\<bar>s - (a + b)\<bar> \<le> pow2 (8 - 53)"
    by auto
  then show ?thesis by (simp add: pow2_def)
qed

lemma weighted_gray_near:
  assumes "0 \<le> R" "R \<le> 255" "0 \<le> G" "G \<le> 255" "0 \<le> B" "B \<le> 255"
  shows "\<exists>s. weighted_gray (Fin R) (Fin G) (Fin B) = Fin s
     \<and> \<bar>s - (0.299 * R + 0.587 * G + 0.114 * B)\<bar> \<le> 1 / 2 ^ 41"
proof -
  from scaled_literal [OF assms(1,2), of "0.299"] obtain p where
    p: "Fin R * number_for 0.299 = Fin p" "\<bar>p - 0.299 * R\<bar> \<le> 1 / 2 ^ 44" by auto
  from scaled_literal [OF assms(3,4), of "0.587"] obtain q where
    q: "Fin G * number_for 0.587 = Fin q" "\<bar>q - 0.587 * G\<bar> \<le> 1 / 2 ^ 44" by auto
  from scaled_literal [OF assms(5,6), of "0.114"] obtain r where
    r: "Fin B * number_for 0.114 = Fin r" "\<bar>r - 0.114 * B\<bar> \<le> 1 / 2 ^ 44" by auto
  have small: "(1::real) / 2 ^ 44 \<le> 1" "(1::real) / 2 ^ 45 \<le> 1" by simp_all
  have "\<bar>p + q\<bar> < 512" using p(2) q(2) assms small by (simp add: abs_if split: if_splits)
  from sum_near [OF this] obtain s where
    s: "Fin p + Fin q = Fin s" "\<bar>s - (p + q)\<bar> \<le> 1 / 2 ^ 45" by auto
  have "\<bar>s + r\<bar> < 512" using s(2) p(2) q(2) r(2) assms small by (simp add: abs_if split: if_splits)
  from sum_near [OF this] obtain t where
    t: "Fin s + Fin r = Fin t" "\<bar>t - (s + r)\<bar> \<le> 1 / 2 ^ 45" by auto
  have "\<bar>t - (0.299 * R + 0.587 * G + 0.114 * B)\<bar> \<le> 3 * (1 / 2 ^ 44) + 2 * (1 / 2 ^ 45)"
    using p(2) q(2) r(2) s(2) t(2) by linarith
  also have "\<dots> \<le> 1 / 2 ^ 41" by simp
  finally have "\<bar>t - (0.299 * R + 0.587 * G + 0.114 * B)\<bar> \<le> 1 / 2 ^ 41" .
  moreover have "weighted_gray (Fin R) (Fin G) (Fin B) = Fin t"
    by (simp only: weighted_gray_def p(1) q(1) s(1) r(1) t(1))
  ultimately show ?thesis by blast
qed

lemma stored_gray_near:
  "\<bar>real (unat (stored_gray r g b)) - luminance r g b\<bar> \<le> 1 / 2 + 1 / 2 ^ 40"
proof -
  let ?L = "luminance r g b"
  from weighted_gray_near [OF byte_range [of r] byte_range [of g] byte_range [of b]]
  obtain s where s: "weighted_gray (Fin (real (unat r))) (Fin (real (unat g))) (Fin (real (unat b))) = Fin s"
    "\<bar>s - ?L\<bar> \<le> 1 / 2 ^ 41"
    unfolding luminance_def by auto
  have L: "0 \<le> ?L" "?L \<le> 255"
    using byte_range [of r] byte_range [of g] byte_range [of b] by (simp_all add: luminance_def)
  have st: "stored_gray r g b = toUint8Clamp (Fin s)" by (simp only: stored_gray_def s(1))
  have e: "(1::real) / 2 ^ 41 \<le> 1 / 2 ^ 40" by simp
  consider "s \<le> 0" | "255 \<le> s" | "0 < s" "s < 255" by linarith
  then show ?thesis
  proof cases
    case 1
    then have "stored_gray r g b = 0" by (simp add: st toUint8Clamp_low)
    then show ?thesis using 1 s(2) L e by simp
  next
    case 2
    then have "stored_gray r g b = 255" by (simp add: st toUint8Clamp_high)
    then show ?thesis using 2 s(2) L e by simp
  next
    case 3
    from toUint8Clamp_near [OF 3] have "\<bar>real (unat (stored_gray r g b)) - s\<bar> \<le> 1 / 2"
      by (simp add: st)
    with s(2) e show ?thesis by linarith
  qed
qed

lemma stored_gray_example: "stored_gray 200 100 50 = 124"
  by (simp add: stored_gray_def weighted_gray_def number_for_def signed_or_infinite_def
      round_to_multiple_def exponent_of_def exponent_up.simps exponent_down.simps pow2_def
      round_half_even_def toUint8Clamp_def)

lemma stored_gray_tie: "stored_gray 0 80 110 = 59"
  by (simp add: stored_gray_def weighted_gray_def number_for_def signed_or_infinite_def
      round_to_multiple_def exponent_of_def exponent_up.simps exponent_down.simps pow2_def
      round_half_even_def toUint8Clamp_def)

lemma luminance_tie: "luminance 0 80 110 = 59.5"
  by (simp add: luminance_def)

text \<open>
  Claim C8. On a canvas with pixels whose buffer has four bytes for every pixel, the
  grayscale filter returns, and for every pixel \<open>k\<close> the red, green and blue bytes of the
  result are all the same byte: the gray value \<^verbatim>\<open>r * 0.299 + g * 0.587 + b * 0.114\<close> of the
  pixel's bytes before, computed in floating-point arithmetic and stored as a
  \<^verbatim>\<open>Uint8ClampedArray\<close> stores it (clamped to 0..255 and rounded to the nearest integer).
  That byte is within \<open>1/2 + 2\<^sup>-\<^sup>4\<^sup>0\<close> of the luminance \<open>0.299 R + 0.587 G + 0.114 B\<close>; the alpha
  byte is the one before. For the pixel (200, 100, 50) the stored value is 124. For the
  pixel (0, 80, 110), whose luminance is the tie 59.5, it is 59: the floating-point sum
  lies just below the tie.
\<close>

theorem grayscale_luminance:
  assumes "img_width b \<noteq> 0" and "img_height b \<noteq> 0"
    and "length (img_data b) = 4 * (img_width b * img_height b)"
    and "k < img_width b * img_height b"
  shows "(\<exists>out. grayscale b = Inr out
            \<and> img_data out ! (4 * k)
                = stored_gray (img_data b ! (4 * k)) (img_data b ! (4 * k + 1)) (img_data b ! (4 * k + 2))
            \<and> img_data out ! (4 * k + 1)
                = stored_gray (img_data b ! (4 * k)) (img_data b ! (4 * k + 1)) (img_data b ! (4 * k + 2))
            \<and> img_data out ! (4 * k + 2)
                = stored_gray (img_data b ! (4 * k)) (img_data b ! (4 * k + 1)) (img_data b ! (4 * k + 2))
            \<and> img_data out ! (4 * k + 3) = img_data b ! (4 * k + 3))
         \<and> \<bar>real (unat (stored_gray (img_data b ! (4 * k)) (img_data b ! (4 * k + 1))
                             (img_data b ! (4 * k + 2))))
              - luminance (img_data b ! (4 * k)) (img_data b ! (4 * k + 1)) (img_data b ! (4 * k + 2))\<bar>
             \<le> 1 / 2 + 1 / 2 ^ 40
         \<and> stored_gray 200 100 50 = 124
         \<and> stored_gray 0 80 110 = 59 \<and> luminance 0 80 110 = 59.5"
proof -
  let ?n = "img_width b * img_height b"
  let ?r = "fold grayscale_pixel (pixel_offsets (img_data b)) (img_data b)"
  have run: "grayscale b = Inr (b\<lparr>img_data := ?r\<rparr>)"
    using assms(1,2) by (simp add: grayscale_def getImageData_def putImageData_def)
  have off: "pixel_offsets (img_data b) = map (\<lambda>k. 4 * int k) [0..<?n]"
    using assms(3) by (rule pixel_offsets_whole)
  note f = grayscale_fold [OF assms(3) order_refl, folded off]
  from f assms(4) have rgb:
    "?r ! (4 * k) = stored_gray (img_data b ! (4 * k)) (img_data b ! (4 * k + 1)) (img_data b ! (4 * k + 2))"
    "?r ! (4 * k + 1) = stored_gray (img_data b ! (4 * k)) (img_data b ! (4 * k + 1)) (img_data b ! (4 * k + 2))"
    "?r ! (4 * k + 2) = stored_gray (img_data b ! (4 * k)) (img_data b ! (4 * k + 1)) (img_data b ! (4 * k + 2))"
    by blast+
  have "alpha_kept (img_data b) ?r"
    by (rule offsets_fold_alpha) (rule grayscale_pixel_alpha)
  moreover have "4 * k + 3 < length (img_data b)" "(4 * k + 3) mod 4 = 3"
    using assms(3,4) by (simp, presburger)
  ultimately have alpha: "?r ! (4 * k + 3) = img_data b ! (4 * k + 3)"
    by (simp add: alpha_kept_def)
  have out: "\<exists>out. grayscale b = Inr out
            \<and> img_data out ! (4 * k)
                = stored_gray (img_data b ! (4 * k)) (img_data b ! (4 * k + 1)) (img_data b ! (4 * k + 2))
            \<and> img_data out ! (4 * k + 1)
                = stored_gray (img_data b ! (4 * k)) (img_data b ! (4 * k + 1)) (img_data b ! (4 * k + 2))
            \<and> img_data out ! (4 * k + 2)
                = stored_gray (img_data b ! (4 * k)) (img_data b ! (4 * k + 1)) (img_data b ! (4 * k + 2))
            \<and> img_data out ! (4 * k + 3) = img_data b ! (4 * k + 3)"
    unfolding run using rgb alpha by simp
  show ?thesis
    using out stored_gray_near stored_gray_example stored_gray_tie luminance_tie
    by (intro conjI)
qed

theorem grayscale_luminance_witness:
  "img_width \<lparr>img_width = 1, img_height = 1, img_data = [200, 100, 50, 255]\<rparr> \<noteq> 0
   \<and> length (img_data \<lparr>img_width = 1, img_height = 1, img_data = [200, 100, 50, 255]\<rparr>) = 4 * (1 * 1)
   \<and> (\<exists>out. grayscale \<lparr>img_width = 1, img_height = 1, img_data = [200, 100, 50, 255]\<rparr> = Inr out
         \<and> img_data out ! 0 = 124 \<and> img_data out ! 1 = 124 \<and> img_data out ! 2 = 124
         \<and> img_data out ! 3 = 255)
   \<and> (\<exists>out. grayscale \<lparr>img_width = 1, img_height = 1, img_data = [0, 80, 110, 9]\<rparr> = Inr out
         \<and> img_data out ! 0 = 59 \<and> img_data out ! 1 = 59 \<and> img_data out ! 2 = 59
         \<and> img_data out ! 3 = 9)"
proof -
  let ?B = "\<lparr>img_width = 1, img_height = 1, img_data = [200, 100, 50, 255 :: 8 word]\<rparr>"
  let ?C = "\<lparr>img_width = 1, img_height = 1, img_data = [0, 80, 110, 9 :: 8 word]\<rparr>"
  have w: "img_width ?B \<noteq> 0" and h: "img_height ?B \<noteq> 0"
    and l: "length (img_data ?B) = 4 * (img_width ?B * img_height ?B)"
    and k: "0 < img_width ?B * img_height ?B"
    by simp_all
  note t = grayscale_luminance [OF w h l k]
  have g: "stored_gray 200 100 50 = 124" using t by (elim conjE)
  from t [THEN conjunct1]
  have ex: "\<exists>out. grayscale ?B = Inr out
         \<and> img_data out ! 0 = 124 \<and> img_data out ! 1 = 124 \<and> img_data out ! 2 = 124
         \<and> img_data out ! 3 = 255"
    by (simp add: g numeral_2_eq_2)
  have w': "img_width ?C \<noteq> 0" and h': "img_height ?C \<noteq> 0"
    and l': "length (img_data ?C) = 4 * (img_width ?C * img_height ?C)"
    and k': "0 < img_width ?C * img_height ?C"
    by simp_all
  note t' = grayscale_luminance [OF w' h' l' k']
  have g': "stored_gray 0 80 110 = 59" using t' by (elim conjE)
  from t' [THEN conjunct1]
  have ex': "\<exists>out. grayscale ?C = Inr out
         \<and> img_data out ! 0 = 59 \<and> img_data out ! 1 = 59 \<and> img_data out ! 2 = 59
         \<and> img_data out ! 3 = 9"
    by (simp add: g' numeral_2_eq_2)
  show ?thesis
    using ex ex' by simp
qed

text \<open>
  Claim C10. Every filter of the processor (brightness and contrast, grayscale, invert,
  threshold, median, Sobel, histogram equalization, noise reduction, convolution and with
  it Gaussian blur and sharpening, the morphological operation and with it erosion and
  dilation), for every parameter and whatever the engine's \<^verbatim>\<open>Math.sqrt\<close> and \<^verbatim>\<open>Math.exp\<close>
  return, either throws on a canvas without pixels, or returns with the size of the canvas
  unchanged and with every alpha byte of the buffer as it was.
\<close>

theorem filters_keep_alpha:
  "keeps_alpha bitmap (adjustBrightnessContrast brightness contrast bitmap)
   \<and> keeps_alpha bitmap (grayscale bitmap)
   \<and> keeps_alpha bitmap (invert bitmap)
   \<and> keeps_alpha bitmap (threshold cutoff bitmap)
   \<and> keeps_alpha bitmap (medianFilter kernelSize bitmap)
   \<and> keeps_alpha bitmap (sobelEdgeDetection Math_sqrt bitmap)
   \<and> keeps_alpha bitmap (histogramEqualization bitmap)
   \<and> keeps_alpha bitmap (noiseReduction bitmap)
   \<and> keeps_alpha bitmap (applyConvolution kern bitmap)
   \<and> keeps_alpha bitmap (gaussianBlur Math_exp kernelSize sigma bitmap)
   \<and> keeps_alpha bitmap (sharpen bitmap)
   \<and> keeps_alpha bitmap (morphologicalOperation operation kernelSize bitmap)
   \<and> keeps_alpha bitmap (erosion kernelSize bitmap)
   \<and> keeps_alpha bitmap (dilation kernelSize bitmap)"
  by (intro conjI adjust_keeps_alpha grayscale_keeps_alpha invert_keeps_alpha threshold_keeps_alpha
      medianFilter_keeps_alpha sobel_keeps_alpha histogramEqualization_keeps_alpha
      noiseReduction_keeps_alpha applyConvolution_keeps_alpha gaussianBlur_keeps_alpha
      sharpen_keeps_alpha morphologicalOperation_keeps_alpha erosion_keeps_alpha
      dilation_keeps_alpha)

theorem filters_keep_alpha_witness:
  "(\<exists>out. sharpen \<lparr>img_width = 3, img_height = 3,
        img_data = [10, 20, 30, 255, 40, 50, 60, 254, 70, 80, 90, 253,
                    15, 25, 35, 252, 200, 100, 50, 77, 75, 85, 95, 250,
                    12, 22, 32, 249, 42, 52, 62, 248, 72, 82, 92, 247]\<rparr> = Inr out
      \<and> img_data out ! 19 = 77 \<and> length (img_data out) = 36)
   \<and> (\<exists>out. invert \<lparr>img_width = 1, img_height = 1, img_data = [200, 100, 50, 77]\<rparr> = Inr out
      \<and> img_data out ! 3 = 77)
   \<and> invert \<lparr>img_width = 1, img_height = 1, img_data = [200, 100, 50, 77]\<rparr>
       = Inr \<lparr>img_width = 1, img_height = 1, img_data = [55, 155, 205, 77]\<rparr>"
proof -
  let ?B = "\<lparr>img_width = 3, img_height = 3,
        img_data = [10, 20, 30, 255, 40, 50, 60, 254, 70, 80, 90, 253,
                    15, 25, 35, 252, 200, 100, 50, 77, 75, 85, 95, 250,
                    12, 22, 32, 249, 42, 52, 62, 248, 72, 82, 92, 247 :: 8 word]\<rparr>"
  let ?C = "\<lparr>img_width = 1, img_height = 1, img_data = [200, 100, 50, 77 :: 8 word]\<rparr>"
  have "keeps_alpha ?B (sharpen ?B)"
    using filters_keep_alpha [where bitmap = ?B] by blast
  then obtain out where out: "sharpen ?B = Inr out" "alpha_kept (img_data ?B) (img_data out)"
    by (auto simp: keeps_alpha_def)
  from out(2) have "img_data out ! 19 = img_data ?B ! 19" "length (img_data out) = 36"
    by (simp_all add: alpha_kept_def)
  then have s: "img_data out ! 19 = 77 \<and> length (img_data out) = 36"
    by simp
  have "keeps_alpha ?C (invert ?C)"
    using filters_keep_alpha [where bitmap = ?C] by blast
  then obtain out' where out': "invert ?C = Inr out'" "alpha_kept (img_data ?C) (img_data out')"
    by (auto simp: keeps_alpha_def)
  from out'(2) have i: "img_data out' ! 3 = 77"
    by (simp add: alpha_kept_def)
  have direct: "invert ?C = Inr \<lparr>img_width = 1, img_height = 1, img_data = [55, 155, 205, 77]\<rparr>"
    by (simp add: invert_def getImageData_def putImageData_def pixel_offsets_def
        invert_pixel_def set_byte_def get_byte_def byte_at_def toUint8Clamp_def Let_def)
  show ?thesis
    using out(1) s out'(1) i direct by simp
qed

end
